(* ===== verification/Iodrivers_Prelude.thy ===== *)
theory Iodrivers_Prelude
  imports Main "HOL-Library.Word" "HOL-Library.Sublist"
begin

text \<open>
  Shared vocabulary of the development: bytes, object addresses, the exceptions the library
  throws (\<^verbatim>\<open>src/src/Exceptions.hpp\<close> and the standard ones), and the byte-array
  primitives \<^verbatim>\<open>memcpy\<close>/\<^verbatim>\<open>memmove\<close> with their bounds written out.

  Every operation that may throw returns a value of \<open>exn + 'a\<close> next to the state it leaves
  behind, because a C++ exception does not undo the assignments made before the throw.
  \<open>UndefinedBehaviour\<close> is not an exception of the code: it is the value the model gives to an
  execution that C++ leaves undefined (an access outside an array, a negative size handed to
  \<^verbatim>\<open>memcpy\<close>), so that "no undefined behaviour" is a statement about results. The texts of
  error messages are not modelled.
\<close>

section \<open>Bytes, addresses, exceptions\<close>

type_synonym byte = "8 word"

text \<open>\<^verbatim>\<open>unsigned int\<close>.\<close>

type_synonym u32 = "32 word"

datatype ptr = Ptr (addr: nat)

text \<open>Pointers are ordered by address, as \<^verbatim>\<open>std::set<IOListener*>\<close> orders them.\<close>

instantiation ptr :: linorder
begin

definition less_eq_ptr :: "ptr \<Rightarrow> ptr \<Rightarrow> bool" where
  "less_eq_ptr p q \<longleftrightarrow> addr p \<le> addr q"

definition less_ptr :: "ptr \<Rightarrow> ptr \<Rightarrow> bool" where
  "less_ptr p q \<longleftrightarrow> addr p < addr q"

instance
  by standard (auto simp: less_eq_ptr_def less_ptr_def intro: ptr.expand)

end

datatype timeout_type = NONE | PACKET | FIRST_BYTE

datatype exn =
    UnixError int
  | TimeoutError timeout_type
  | LengthError
  | RuntimeError
  | InvalidArgument
  | OutOfRange
  | BadArrayNewLength
  | MockContextException
  | TestEndsWithExpectationsLeft
  | UndefinedBehaviour

text \<open>Sequencing of an operation that may throw: a throw skips the continuation.\<close>

definition try_then ::
  "(exn + 'a) \<times> 's \<Rightarrow> ('a \<Rightarrow> 's \<Rightarrow> (exn + 'b) \<times> 's) \<Rightarrow> (exn + 'b) \<times> 's" where
  "try_then r k = (case r of (Inl e, s) \<Rightarrow> (Inl e, s) | (Inr x, s) \<Rightarrow> k x s)"

lemma try_then_simps [simp]:
  "try_then (Inl e, s) k = (Inl e, s)"
  "try_then (Inr x, s) k = k x s"
  by (simp_all add: try_then_def)

lemma try_then_eq_Inr:
  "try_then r k = (Inr y, t) \<longleftrightarrow> (\<exists>x s. r = (Inr x, s) \<and> k x s = (Inr y, t))"
  by (cases r; cases "fst r") (auto simp: try_then_def)

section \<open>Byte arrays\<close>

text \<open>\<open>mem_load a off n\<close> reads \<open>n\<close> bytes of the array \<open>a\<close> from offset \<open>off\<close>;
  \<open>mem_store a off bs\<close> overwrites the bytes at \<open>off\<close>. Both are undefined outside the array.
  \<open>memmove\<close> reads before it writes, so overlapping ranges behave as the C function does.\<close>

definition mem_load :: "byte list \<Rightarrow> nat \<Rightarrow> nat \<Rightarrow> exn + byte list" where
  "mem_load a off n =
     (if off + n \<le> length a then Inr (take n (drop off a)) else Inl UndefinedBehaviour)"

definition mem_store :: "byte list \<Rightarrow> nat \<Rightarrow> byte list \<Rightarrow> exn + byte list" where
  "mem_store a off bs =
     (if off + length bs \<le> length a
      then Inr (take off a @ bs @ drop (off + length bs) a) else Inl UndefinedBehaviour)"

definition memmove :: "byte list \<Rightarrow> nat \<Rightarrow> nat \<Rightarrow> nat \<Rightarrow> exn + byte list" where
  "memmove a dst src n =
     (case mem_load a src n of Inl e \<Rightarrow> Inl e | Inr bs \<Rightarrow> mem_store a dst bs)"

named_theorems mem_simps \<open>the byte-array primitives inside their bounds\<close>

lemma mem_load_ok [mem_simps]:
  "off + n \<le> length a \<Longrightarrow> mem_load a off n = Inr (take n (drop off a))"
  by (simp add: mem_load_def)

lemma mem_store_ok [mem_simps]:
  "off + length bs \<le> length a \<Longrightarrow>
     mem_store a off bs = Inr (take off a @ bs @ drop (off + length bs) a)"
  by (simp add: mem_store_def)

lemma memmove_front [mem_simps]:
  "src + n \<le> length a \<Longrightarrow>
     memmove a 0 src n = Inr (take n (drop src a) @ drop n a)"
proof -
  assume *: "src + n \<le> length a"
  define bs where "bs = take n (drop src a)"
  with * have "length bs = n" "n \<le> length a" by simp_all
  with * show ?thesis by (simp add: memmove_def mem_load_ok mem_store_ok flip: bs_def)
qed

lemma mem_store_length: "mem_store a off bs = Inr a' \<Longrightarrow> length a' = length a"
  by (auto simp: mem_store_def split: if_splits)

lemma mem_store_InlD: "mem_store a off bs = Inl e \<Longrightarrow> e = UndefinedBehaviour"
  by (auto simp: mem_store_def split: if_splits)

lemma mem_store_take:
  "mem_store a off bs = Inr a' \<Longrightarrow> take (off + length bs) a' = take off a @ bs"
  by (auto simp: mem_store_def split: if_splits)

lemma mem_store_prefix:
  "mem_store a off bs = Inr a' \<Longrightarrow> take off a' = take off a"
  by (auto simp: mem_store_def split: if_splits)

section \<open>Generic lemmas\<close>

lemma take_drop_split: "i + n \<le> length xs \<Longrightarrow> xs = take i xs @ take n (drop i xs) @ drop (i + n) xs"
  by (metis append_take_drop_id drop_drop add.commute)

end
