(* ===== verification/Stream_Interface.thy ===== *)
theory Stream_Interface
  imports Iodrivers_Prelude
begin

text \<open>
  The objects a driver talks to: its \<^verbatim>\<open>IOStream\<close> (\<^verbatim>\<open>src/src/IOStream.hpp\<close>), its
  \<^verbatim>\<open>IOListener\<close>s (\<^verbatim>\<open>src/src/IOListener.hpp\<close>) and the clock \<^verbatim>\<open>base::Time::now()\<close>.
  They live outside the driver, in a world of type \<open>'w\<close>; a pointer names an object and a
  virtual call is a field of the record \<open>env\<close> applied to the pointer. \<open>'t\<close> is
  \<^verbatim>\<open>base::Time\<close>, a type of another package of which the code only uses addition,
  subtraction, comparison and the null value: a linearly ordered group.

  The theory then defines the events such calls are, runs of the world over a list of
  events, and the contracts (locales) that the theorems about the driver assume of the
  environment.
\<close>

section \<open>The virtual calls\<close>

text \<open>The C library's \<^verbatim>\<open>struct timeval\<close>, the clock of \<^verbatim>\<open>src/src/Timeout.cpp\<close>.\<close>

record timeval =
  tv_sec :: int
  tv_usec :: int

record ('w, 't) env =
  io_now :: "'w \<Rightarrow> 't \<times> 'w"
  io_gettimeofday :: "'w \<Rightarrow> timeval \<times> 'w"
  io_waitRead :: "ptr \<Rightarrow> 't \<Rightarrow> 'w \<Rightarrow> (exn + bool) \<times> 'w"
  io_waitWrite :: "ptr \<Rightarrow> 't \<Rightarrow> 'w \<Rightarrow> (exn + bool) \<times> 'w"
  io_read :: "ptr \<Rightarrow> nat \<Rightarrow> 'w \<Rightarrow> (exn + byte list) \<times> 'w"
  io_write :: "ptr \<Rightarrow> byte list \<Rightarrow> 'w \<Rightarrow> (exn + nat) \<times> 'w"
  io_clear :: "ptr \<Rightarrow> 'w \<Rightarrow> 'w"
  io_eof :: "ptr \<Rightarrow> 'w \<Rightarrow> bool"
  io_getFileDescriptor :: "ptr \<Rightarrow> 'w \<Rightarrow> int"
  io_delete :: "ptr \<Rightarrow> 'w \<Rightarrow> 'w"
  li_readData :: "ptr \<Rightarrow> byte list \<Rightarrow> 'w \<Rightarrow> 'w"
  li_writeData :: "ptr \<Rightarrow> byte list \<Rightarrow> 'w \<Rightarrow> 'w"
  li_delete :: "ptr \<Rightarrow> 'w \<Rightarrow> 'w"

text \<open>The loops over \<open>m_listeners\<close> in \<^verbatim>\<open>readPacketInternal\<close>, \<^verbatim>\<open>readRaw\<close> and
  \<^verbatim>\<open>writePacket\<close>.\<close>

definition notify_read :: "('w, 't) env \<Rightarrow> ptr list \<Rightarrow> byte list \<Rightarrow> 'w \<Rightarrow> 'w" where
  "notify_read env ls bs w = fold (\<lambda>l. li_readData env l bs) ls w"

definition notify_write :: "('w, 't) env \<Rightarrow> ptr list \<Rightarrow> byte list \<Rightarrow> 'w \<Rightarrow> 'w" where
  "notify_write env ls bs w = fold (\<lambda>l. li_writeData env l bs) ls w"

section \<open>Events and runs\<close>

datatype 't event =
    EvNow 't
  | EvTimeOfDay timeval
  | EvWaitRead ptr 't "exn + bool"
  | EvWaitWrite ptr 't "exn + bool"
  | EvRead ptr nat "exn + byte list"
  | EvWrite ptr "byte list" "exn + nat"
  | EvReadData ptr "byte list"
  | EvWriteData ptr "byte list"

text \<open>One call made by a driver, with what it returned.\<close>

inductive io_step :: "('w, 't) env \<Rightarrow> 'w \<Rightarrow> 't event \<Rightarrow> 'w \<Rightarrow> bool" for env where
  step_now: "io_now env w = (t, w') \<Longrightarrow> io_step env w (EvNow t) w'"
| step_timeofday: "io_gettimeofday env w = (t, w') \<Longrightarrow> io_step env w (EvTimeOfDay t) w'"
| step_waitRead: "io_waitRead env p t w = (r, w') \<Longrightarrow> io_step env w (EvWaitRead p t r) w'"
| step_waitWrite: "io_waitWrite env p t w = (r, w') \<Longrightarrow> io_step env w (EvWaitWrite p t r) w'"
| step_read: "io_read env p n w = (r, w') \<Longrightarrow> io_step env w (EvRead p n r) w'"
| step_write: "io_write env p bs w = (r, w') \<Longrightarrow> io_step env w (EvWrite p bs r) w'"
| step_readData: "li_readData env l bs w = w' \<Longrightarrow> io_step env w (EvReadData l bs) w'"
| step_writeData: "li_writeData env l bs w = w' \<Longrightarrow> io_step env w (EvWriteData l bs) w'"

inductive_simps io_step_simps [simp]:
  "io_step env w (EvNow t) w'"
  "io_step env w (EvTimeOfDay tv) w'"
  "io_step env w (EvWaitRead p t b) w'"
  "io_step env w (EvWaitWrite p t b) w'"
  "io_step env w (EvRead p n r) w'"
  "io_step env w (EvWrite p bs c) w'"
  "io_step env w (EvReadData l bs) w'"
  "io_step env w (EvWriteData l bs) w'"

inductive io_run :: "('w, 't) env \<Rightarrow> 'w \<Rightarrow> 't event list \<Rightarrow> 'w \<Rightarrow> bool" for env where
  run_nil: "io_run env w [] w"
| run_cons: "io_step env w e w1 \<Longrightarrow> io_run env w1 es w2 \<Longrightarrow> io_run env w (e # es) w2"

inductive_simps io_run_simps [simp]:
  "io_run env w [] w'"
  "io_run env w (e # es) w'"

lemma io_run_append:
  "io_run env w (es @ fs) w2 \<longleftrightarrow> (\<exists>w1. io_run env w es w1 \<and> io_run env w1 fs w2)"
  by (induction es arbitrary: w) auto

lemma io_run_appendI:
  "io_run env w es w1 \<Longrightarrow> io_run env w1 fs w2 \<Longrightarrow> io_run env w (es @ fs) w2"
  by (auto simp: io_run_append)

text \<open>What a list of events moved: the bytes a stream delivered, the bytes it accepted,
  and the data each listener was shown.\<close>

fun read_by :: "ptr \<Rightarrow> 't event \<Rightarrow> byte list" where
  "read_by p (EvRead q n (Inr bs)) = (if q = p then bs else [])"
| "read_by p _ = []"

fun written_by :: "ptr \<Rightarrow> 't event \<Rightarrow> byte list" where
  "written_by p (EvWrite q bs (Inr c)) = (if q = p then take c bs else [])"
| "written_by p _ = []"

fun shown_read :: "ptr \<Rightarrow> 't event \<Rightarrow> byte list" where
  "shown_read l (EvReadData m bs) = (if m = l then bs else [])"
| "shown_read l _ = []"

fun shown_written :: "ptr \<Rightarrow> 't event \<Rightarrow> byte list" where
  "shown_written l (EvWriteData m bs) = (if m = l then bs else [])"
| "shown_written l _ = []"

definition bytes_read :: "ptr \<Rightarrow> 't event list \<Rightarrow> byte list" where
  "bytes_read p es = concat (map (read_by p) es)"

definition bytes_written :: "ptr \<Rightarrow> 't event list \<Rightarrow> byte list" where
  "bytes_written p es = concat (map (written_by p) es)"

definition listener_read :: "ptr \<Rightarrow> 't event list \<Rightarrow> byte list" where
  "listener_read l es = concat (map (shown_read l) es)"

definition listener_written :: "ptr \<Rightarrow> 't event list \<Rightarrow> byte list" where
  "listener_written l es = concat (map (shown_written l) es)"

lemma traffic_simps [simp]:
  "bytes_read p [] = []" "bytes_read p (e # es) = read_by p e @ bytes_read p es"
  "bytes_read p (es @ fs) = bytes_read p es @ bytes_read p fs"
  "bytes_written p [] = []" "bytes_written p (e # es) = written_by p e @ bytes_written p es"
  "bytes_written p (es @ fs) = bytes_written p es @ bytes_written p fs"
  "listener_read l [] = []" "listener_read l (e # es) = shown_read l e @ listener_read l es"
  "listener_read l (es @ fs) = listener_read l es @ listener_read l fs"
  "listener_written l [] = []"
  "listener_written l (e # es) = shown_written l e @ listener_written l es"
  "listener_written l (es @ fs) = listener_written l es @ listener_written l fs"
  by (simp_all add: bytes_read_def bytes_written_def listener_read_def listener_written_def)

text \<open>A quiet run only reads the clock.\<close>

definition quiet :: "'t event list \<Rightarrow> bool" where
  "quiet es \<longleftrightarrow> (\<forall>e \<in> set es. \<exists>t. e = EvNow t)"

lemma quiet_simps [simp]:
  "quiet []" "quiet (e # es) \<longleftrightarrow> (\<exists>t. e = EvNow t) \<and> quiet es"
  "quiet (es @ fs) \<longleftrightarrow> quiet es \<and> quiet fs"
  by (auto simp: quiet_def)

lemma quiet_traffic:
  assumes "quiet es"
  shows "bytes_read p es = []" "bytes_written p es = []"
    "listener_read l es = []" "listener_written l es = []"
  using assms by (induction es) auto

text \<open>Which stream the events talk to, and in which direction: a reading call on \<open>p\<close> reads no
  other stream and writes to none, a writing call the other way round.\<close>

fun reads_only :: "ptr \<Rightarrow> 't event \<Rightarrow> bool" where
  "reads_only p (EvRead q n r) = (q = p)"
| "reads_only p (EvWrite q bs r) = False"
| "reads_only p _ = True"

fun writes_only :: "ptr \<Rightarrow> 't event \<Rightarrow> bool" where
  "writes_only p (EvWrite q bs r) = (q = p)"
| "writes_only p (EvRead q n r) = False"
| "writes_only p _ = True"

definition reads_from :: "ptr \<Rightarrow> 't event list \<Rightarrow> bool" where
  "reads_from p es \<longleftrightarrow> list_all (reads_only p) es"

definition writes_to :: "ptr \<Rightarrow> 't event list \<Rightarrow> bool" where
  "writes_to p es \<longleftrightarrow> list_all (writes_only p) es"

lemma direction_simps [simp]:
  "reads_from p []" "reads_from p (e # es) \<longleftrightarrow> reads_only p e \<and> reads_from p es"
  "reads_from p (es @ fs) \<longleftrightarrow> reads_from p es \<and> reads_from p fs"
  "reads_from p (map (\<lambda>l. EvReadData l bs) ls)"
  "writes_to p []" "writes_to p (e # es) \<longleftrightarrow> writes_only p e \<and> writes_to p es"
  "writes_to p (es @ fs) \<longleftrightarrow> writes_to p es \<and> writes_to p fs"
  "writes_to p (map (\<lambda>l. EvWriteData l bs) ls)"
  by (auto simp: reads_from_def writes_to_def list_all_iff)

lemma reads_from_traffic:
  assumes "reads_from p es"
  shows "bytes_written q es = []" "q \<noteq> p \<Longrightarrow> bytes_read q es = []"
proof -
  have "written_by q e = []" "q \<noteq> p \<Longrightarrow> read_by q e = []" if "reads_only p e" for e
    using that by (cases "(q, e)" rule: read_by.cases; simp)+
  with assms show "bytes_written q es = []" "q \<noteq> p \<Longrightarrow> bytes_read q es = []"
    by (induction es) auto
qed

lemma writes_to_traffic:
  assumes "writes_to p es"
  shows "bytes_read q es = []" "q \<noteq> p \<Longrightarrow> bytes_written q es = []"
proof -
  have "read_by q e = []" "q \<noteq> p \<Longrightarrow> written_by q e = []" if "writes_only p e" for e
    using that by (cases "(q, e)" rule: written_by.cases; simp)+
  with assms show "bytes_read q es = []" "q \<noteq> p \<Longrightarrow> bytes_written q es = []"
    by (induction es) auto
qed

lemma quiet_reads_from: "quiet es \<Longrightarrow> reads_from p es"
  by (induction es) auto

text \<open>The events of one notification round.\<close>

lemma notify_read_run: "io_run env w (map (\<lambda>l. EvReadData l bs) ls) (notify_read env ls bs w)"
  by (induction ls arbitrary: w) (auto simp: notify_read_def)

lemma notify_write_run: "io_run env w (map (\<lambda>l. EvWriteData l bs) ls) (notify_write env ls bs w)"
  by (induction ls arbitrary: w) (auto simp: notify_write_def)

lemma notify_traffic [simp]:
  "bytes_read p (map (\<lambda>l. EvReadData l bs) ls) = []"
  "bytes_written p (map (\<lambda>l. EvReadData l bs) ls) = []"
  "listener_written m (map (\<lambda>l. EvReadData l bs) ls) = []"
  "bytes_read p (map (\<lambda>l. EvWriteData l bs) ls) = []"
  "bytes_written p (map (\<lambda>l. EvWriteData l bs) ls) = []"
  "listener_read m (map (\<lambda>l. EvWriteData l bs) ls) = []"
  by (induction ls) auto

lemma notify_shown:
  "distinct ls \<Longrightarrow> listener_read l (map (\<lambda>l. EvReadData l bs) ls) = (if l \<in> set ls then bs else [])"
  "distinct ls \<Longrightarrow> listener_written l (map (\<lambda>l. EvWriteData l bs) ls) = (if l \<in> set ls then bs else [])"
  by (induction ls) auto

section \<open>Contracts\<close>

text \<open>
  What every stream promises: a read stores no more bytes than the size it is given, a
  write accepts no more than it is handed. Neither \<^verbatim>\<open>Driver\<close> loop checks it.
\<close>

locale io_contract =
  fixes env :: "('w, 't::linordered_ab_group_add) env"
  assumes read_bound: "io_read env p n w = (Inr bs, w') \<Longrightarrow> length bs \<le> n"
    and write_bound: "io_write env p bs w = (Inr c, w') \<Longrightarrow> c \<le> length bs"

text \<open>
  A source that runs dry: \<open>avail\<close> bounds the bytes a stream still holds. A read lowers it
  by what it delivers; apart from writes, which may provoke an answer, no call raises it.
\<close>

fun is_write :: "'t event \<Rightarrow> bool" where
  "is_write (EvWrite p bs r) = True"
| "is_write _ = False"

locale finite_source = io_contract env
  for env :: "('w, 't::linordered_ab_group_add) env" +
  fixes avail :: "ptr \<Rightarrow> 'w \<Rightarrow> nat"
  assumes step_avail:
    "io_step env w e w' \<Longrightarrow> \<not> is_write e \<Longrightarrow> avail p w' + length (read_by p e) \<le> avail p w"

text \<open>The same for the streams of which \<open>drains\<close> holds, and goes on to hold: others may
  deliver for ever.\<close>

locale draining_source = io_contract env
  for env :: "('w, 't::linordered_ab_group_add) env" +
  fixes drains :: "ptr \<Rightarrow> 'w \<Rightarrow> bool" and avail :: "ptr \<Rightarrow> 'w \<Rightarrow> nat"
  assumes step_drains: "drains p w \<Longrightarrow> io_step env w e w' \<Longrightarrow> drains p w'"
    and step_left:
      "drains p w \<Longrightarrow> io_step env w e w' \<Longrightarrow> \<not> is_write e \<Longrightarrow>
         avail p w' + length (read_by p e) \<le> avail p w"
begin

lemma run_drains: "io_run env w es w' \<Longrightarrow> drains p w \<Longrightarrow> drains p w'"
  by (induction rule: io_run.induct) (auto dest: step_drains)

lemma run_left:
  "io_run env w es w' \<Longrightarrow> drains p w \<Longrightarrow> \<forall>e \<in> set es. \<not> is_write e \<Longrightarrow>
     avail p w' + length (bytes_read p es) \<le> avail p w"
proof (induction rule: io_run.induct)
  case (run_cons w e w1 es w2)
  then show ?case using step_left [of p w e w1] step_drains [of p w e w1] by simp
qed simp

end

sublocale finite_source < every: draining_source env "\<lambda>_ _. True" avail
  by unfold_locales (auto dest: step_avail)

context finite_source
begin

lemma every_place: "draining_source env (\<lambda>_ _. True) avail"
  by (rule every.draining_source_axioms)

end

text \<open>
  A clock that moves: \<open>steps d w\<close> bounds how often the clock can still be read before it
  passes the instant \<open>d\<close>. Every reading up to \<open>d\<close> lowers the bound, nothing raises it.
\<close>

locale moving_clock = io_contract env
  for env :: "('w, 't::linordered_ab_group_add) env" +
  fixes steps :: "'t \<Rightarrow> 'w \<Rightarrow> nat"
  assumes now_steps: "io_now env w = (t, w') \<Longrightarrow> t \<le> d \<Longrightarrow> steps d w' < steps d w"
    and step_steps: "io_step env w e w' \<Longrightarrow> steps d w' \<le> steps d w"
begin

lemma run_steps: "io_run env w es w' \<Longrightarrow> steps d w' \<le> steps d w"
proof (induction rule: io_run.induct)
  case (run_cons w e w1 es w2)
  then show ?case using step_steps [of w e w1 d] by simp
qed simp

end

locale live_env = finite_source env avail + moving_clock env steps
  for env :: "('w, 't::linordered_ab_group_add) env" and avail and steps

end
