(* ===== verification/Driver_State.thy ===== *)
theory Driver_State
  imports Stream_Interface
begin

text \<open>
  The state of a \<^verbatim>\<open>Driver\<close> object (\<^verbatim>\<open>src/src/Driver.hpp\<close>), its statistics
  (\<^verbatim>\<open>src/src/Status.hpp\<close>), its constructor and destructor, and its small accessors.
  The internal buffer is kept as the array the code allocates: \<open>internal_buffer\<close> holds all
  \<open>MAX_PACKET_SIZE\<close> bytes and \<open>internal_buffer_size\<close> says how many are in use.
\<close>

section \<open>State\<close>

record 't status =
  stamp :: 't
  tx :: u32
  good_rx :: u32
  bad_rx :: u32
  queued_bytes :: u32

definition Status_init :: "'t::zero status" where
  "Status_init = \<lparr>stamp = 0, tx = 0, good_rx = 0, bad_rx = 0, queued_bytes = 0\<rparr>"

record 't driver =
  internal_buffer :: "byte list"
  internal_buffer_size :: nat
  MAX_PACKET_SIZE :: int
  m_stream :: "ptr option"
  m_listeners :: "ptr list"
  m_auto_close :: bool
  m_extract_last :: bool
  m_read_timeout :: 't
  m_write_timeout :: 't
  m_stats :: "'t status"

text \<open>The bytes in use: what the driver has received and not yet handed out or dropped.\<close>

definition queued :: "'t driver \<Rightarrow> byte list" where
  "queued d = take (internal_buffer_size d) (internal_buffer d)"

definition driver_wf :: "'t driver \<Rightarrow> bool" where
  "driver_wf d \<longleftrightarrow> 0 \<le> MAX_PACKET_SIZE d \<and> MAX_PACKET_SIZE d < 2 ^ 31
     \<and> length (internal_buffer d) = nat (MAX_PACKET_SIZE d)
     \<and> internal_buffer_size d \<le> length (internal_buffer d)
     \<and> sorted (m_listeners d) \<and> distinct (m_listeners d)"

section \<open>Construction and destruction\<close>

text \<open>
  \<open>raw\<close> stands for whatever the freshly allocated array holds. The test of
  \<open>MAX_PACKET_SIZE\<close> builds a \<^verbatim>\<open>std::runtime_error\<close> without throwing it, so it has no
  effect; a negative size makes \<^verbatim>\<open>new uint8_t[max_packet_size]\<close> throw.
\<close>

definition Driver_init ::
  "(nat \<Rightarrow> byte) \<Rightarrow> int \<Rightarrow> bool \<Rightarrow> exn + 't::zero driver" where
  "Driver_init raw max_packet_size extract_last =
     (if max_packet_size < 0 then Inl BadArrayNewLength
      else Inr \<lparr>internal_buffer = map raw [0..<nat max_packet_size],
                internal_buffer_size = 0,
                MAX_PACKET_SIZE = max_packet_size,
                m_stream = None,
                m_listeners = [],
                m_auto_close = True,
                m_extract_last = extract_last,
                m_read_timeout = 0,
                m_write_timeout = 0,
                m_stats = Status_init\<rparr>)"

text \<open>\<^verbatim>\<open>delete\<close> of a null pointer does nothing.\<close>

definition delete_stream :: "('w, 't) env \<Rightarrow> ptr option \<Rightarrow> 'w \<Rightarrow> 'w" where
  "delete_stream env p w = (case p of None \<Rightarrow> w | Some q \<Rightarrow> io_delete env q w)"

definition Driver_destroy :: "('w, 't) env \<Rightarrow> 't driver \<Rightarrow> 'w \<Rightarrow> 'w" where
  "Driver_destroy env d w =
     fold (\<lambda>l. li_delete env l) (m_listeners d) (delete_stream env (m_stream d) w)"

section \<open>Accessors\<close>

definition setMainStream ::
  "('w, 't) env \<Rightarrow> ptr option \<Rightarrow> 't driver \<Rightarrow> 'w \<Rightarrow> 't driver \<times> 'w" where
  "setMainStream env stream d w =
     (d\<lparr>m_stream := stream\<rparr>, delete_stream env (m_stream d) w)"

definition getMainStream :: "'t driver \<Rightarrow> ptr option" where
  "getMainStream d = m_stream d"

text \<open>\<^verbatim>\<open>std::set::insert\<close> keeps the elements ordered and ignores one already there.\<close>

definition addListener :: "ptr \<Rightarrow> 't driver \<Rightarrow> 't driver" where
  "addListener l d =
     (if l \<in> set (m_listeners d) then d else d\<lparr>m_listeners := insort l (m_listeners d)\<rparr>)"

definition removeListener :: "ptr \<Rightarrow> 't driver \<Rightarrow> 't driver" where
  "removeListener l d = d\<lparr>m_listeners := remove1 l (m_listeners d)\<rparr>"

definition clear :: "('w, 't) env \<Rightarrow> 't driver \<Rightarrow> 'w \<Rightarrow> 't driver \<times> 'w" where
  "clear env d w =
     (d\<lparr>internal_buffer_size := 0\<rparr>,
      case m_stream d of None \<Rightarrow> w | Some p \<Rightarrow> io_clear env p w)"

text \<open>\<open>m_stats\<close> is mutable: reading the status stores the queue length in it.\<close>

definition getStatus :: "'t driver \<Rightarrow> 't status \<times> 't driver" where
  "getStatus d =
     (let s = (m_stats d)\<lparr>queued_bytes := of_nat (internal_buffer_size d)\<rparr>
      in (s, d\<lparr>m_stats := s\<rparr>))"

definition resetStatus :: "'t::zero driver \<Rightarrow> 't driver" where
  "resetStatus d = d\<lparr>m_stats := Status_init\<rparr>"

definition setExtractLastPacket :: "bool \<Rightarrow> 't driver \<Rightarrow> 't driver" where
  "setExtractLastPacket flag d = d\<lparr>m_extract_last := flag\<rparr>"

definition getExtractLastPacket :: "'t driver \<Rightarrow> bool" where
  "getExtractLastPacket d = m_extract_last d"

definition INVALID_FD :: int where
  "INVALID_FD = - 1"

definition getFileDescriptor :: "('w, 't) env \<Rightarrow> 't driver \<Rightarrow> 'w \<Rightarrow> int" where
  "getFileDescriptor env d w =
     (case m_stream d of None \<Rightarrow> INVALID_FD | Some p \<Rightarrow> io_getFileDescriptor env p w)"

definition isValid :: "'t driver \<Rightarrow> bool" where
  "isValid d = (m_stream d \<noteq> None)"

definition close :: "('w, 't) env \<Rightarrow> 't driver \<Rightarrow> 'w \<Rightarrow> 't driver \<times> 'w" where
  "close env d w = (d\<lparr>m_stream := None\<rparr>, delete_stream env (m_stream d) w)"

definition setReadTimeout :: "'t \<Rightarrow> 't driver \<Rightarrow> 't driver" where
  "setReadTimeout t d = d\<lparr>m_read_timeout := t\<rparr>"

definition getReadTimeout :: "'t driver \<Rightarrow> 't" where
  "getReadTimeout d = m_read_timeout d"

definition setWriteTimeout :: "'t \<Rightarrow> 't driver \<Rightarrow> 't driver" where
  "setWriteTimeout t d = d\<lparr>m_write_timeout := t\<rparr>"

definition getWriteTimeout :: "'t driver \<Rightarrow> 't" where
  "getWriteTimeout d = m_write_timeout d"

definition eof :: "('w, 't) env \<Rightarrow> 't driver \<Rightarrow> 'w \<Rightarrow> exn + bool" where
  "eof env d w =
     (case m_stream d of None \<Rightarrow> Inl RuntimeError | Some p \<Rightarrow> Inr (io_eof env p w))"

section \<open>The invariant\<close>

named_theorems wf_intros \<open>operations that keep the driver well-formed\<close>

lemma length_queued [simp]: "driver_wf d \<Longrightarrow> length (queued d) = internal_buffer_size d"
  by (simp add: queued_def driver_wf_def)

lemma queued_empty_iff: "driver_wf d \<Longrightarrow> queued d = [] \<longleftrightarrow> internal_buffer_size d = 0"
  by (metis length_queued list.size(3) length_0_conv)

lemma queued_update [simp]:
  "queued (d\<lparr>m_stats := s\<rparr>) = queued d"
  "queued (d\<lparr>m_stream := p\<rparr>) = queued d"
  "queued (d\<lparr>m_listeners := ls\<rparr>) = queued d"
  by (simp_all add: queued_def)

lemma wf_update [simp]:
  "driver_wf (d\<lparr>m_stats := s\<rparr>) = driver_wf d"
  "driver_wf (d\<lparr>m_stream := p\<rparr>) = driver_wf d"
  "driver_wf (d\<lparr>m_extract_last := b\<rparr>) = driver_wf d"
  "driver_wf (d\<lparr>m_read_timeout := t\<rparr>) = driver_wf d"
  "driver_wf (d\<lparr>m_write_timeout := t\<rparr>) = driver_wf d"
  by (simp_all add: driver_wf_def)

lemma wf_init [wf_intros]:
  "Driver_init raw n b = Inr d \<Longrightarrow> n < 2 ^ 31 \<Longrightarrow> driver_wf d"
  by (auto simp: Driver_init_def driver_wf_def split: if_splits)

lemma wf_setMainStream [wf_intros]: "driver_wf d \<Longrightarrow> driver_wf (fst (setMainStream env p d w))"
  by (simp add: setMainStream_def)

lemma wf_addListener [wf_intros]: "driver_wf d \<Longrightarrow> driver_wf (addListener l d)"
  by (auto simp: addListener_def driver_wf_def sorted_insort distinct_insort)

lemma wf_removeListener [wf_intros]: "driver_wf d \<Longrightarrow> driver_wf (removeListener l d)"
  by (auto simp: removeListener_def driver_wf_def sorted_remove1)

lemma wf_clear [wf_intros]: "driver_wf d \<Longrightarrow> driver_wf (fst (clear env d w))"
  by (simp add: clear_def driver_wf_def)

lemma wf_getStatus [wf_intros]: "driver_wf d \<Longrightarrow> driver_wf (snd (getStatus d))"
  by (simp add: getStatus_def Let_def)

lemma wf_setters [wf_intros]:
  "driver_wf d \<Longrightarrow> driver_wf (resetStatus d)"
  "driver_wf d \<Longrightarrow> driver_wf (setExtractLastPacket b d)"
  "driver_wf d \<Longrightarrow> driver_wf (setReadTimeout t d)"
  "driver_wf d \<Longrightarrow> driver_wf (setWriteTimeout t d)"
  "driver_wf d \<Longrightarrow> driver_wf (fst (close env d w))"
  by (simp_all add: resetStatus_def setExtractLastPacket_def setReadTimeout_def
      setWriteTimeout_def close_def)

lemma set_addListener: "set (m_listeners (addListener l d)) = insert l (set (m_listeners d))"
  by (auto simp: addListener_def set_insort_key)

lemma set_removeListener:
  "driver_wf d \<Longrightarrow> set (m_listeners (removeListener l d)) = set (m_listeners d) - {l}"
  by (simp add: removeListener_def driver_wf_def)

section \<open>Frame\<close>

text \<open>Reading leaves the configuration alone: it moves bytes and counts them.\<close>

definition same_config :: "'t driver \<Rightarrow> 't driver \<Rightarrow> bool" where
  "same_config d d' \<longleftrightarrow> MAX_PACKET_SIZE d' = MAX_PACKET_SIZE d \<and> m_stream d' = m_stream d
     \<and> m_listeners d' = m_listeners d \<and> m_auto_close d' = m_auto_close d
     \<and> m_extract_last d' = m_extract_last d \<and> m_read_timeout d' = m_read_timeout d
     \<and> m_write_timeout d' = m_write_timeout d \<and> tx (m_stats d') = tx (m_stats d)"

lemma same_config_refl [simp]: "same_config d d"
  by (simp add: same_config_def)

lemma same_config_trans: "same_config d d1 \<Longrightarrow> same_config d1 d2 \<Longrightarrow> same_config d d2"
  by (simp add: same_config_def)

lemma same_config_update [simp]:
  "same_config d (d\<lparr>internal_buffer := ib, internal_buffer_size := n\<rparr>)"
  "tx st = tx (m_stats d) \<Longrightarrow> same_config d (d\<lparr>m_stats := st\<rparr>)"
  by (simp_all add: same_config_def)

lemma same_configD:
  assumes "same_config d d'"
  shows "MAX_PACKET_SIZE d' = MAX_PACKET_SIZE d" "m_stream d' = m_stream d"
    "m_listeners d' = m_listeners d" "m_extract_last d' = m_extract_last d"
    "tx (m_stats d') = tx (m_stats d)"
  using assms by (simp_all add: same_config_def)

end
