(* ===== verification/Packet_Extraction.thy ===== *)
theory Packet_Extraction
  imports Driver_State
begin

text \<open>
  The packet extraction algorithm of \<^verbatim>\<open>src/src/Driver.cpp\<close>: \<open>findPacket\<close>,
  \<open>doPacketExtraction\<close>, \<open>pullBytesFromInternal\<close>, \<open>extractPacketFromInternalBuffer\<close> and
  \<open>hasPacket\<close>. The virtual method \<^verbatim>\<open>extractPacket\<close> that a subclass provides is the
  argument \<open>ext\<close>, from the bytes of the buffer to a C \<^verbatim>\<open>int\<close>; what its documentation asks
  of it is the locale \<open>packet_extractor\<close>.
\<close>

section \<open>Searching the buffer: findPacket\<close>

text \<open>The statistics of \<open>m_extract_last\<close> mode, updated inside \<open>findPacket\<close>.\<close>

definition count_found ::
  "('w, 't) env \<Rightarrow> nat \<Rightarrow> nat \<Rightarrow> 't status \<Rightarrow> 'w \<Rightarrow> 't status \<times> 'w" where
  "count_found env bad good st w =
     (let (t, w') = io_now env w
      in (st\<lparr>stamp := t, bad_rx := bad_rx st + of_nat bad, good_rx := good_rx st + of_nat good\<rparr>, w'))"

text \<open>
  The returned pointer is an offset from the start of \<open>buf\<close>. The recursion shortens the
  buffer because a nonzero result of \<open>ext\<close> advances it; a negative result beyond the
  buffer makes \<^verbatim>\<open>remaining\<close> negative and sends the recursive call out of the array.
\<close>

function findPacket ::
  "('w, 't) env \<Rightarrow> (byte list \<Rightarrow> int) \<Rightarrow> bool \<Rightarrow> byte list \<Rightarrow> 't status \<Rightarrow> 'w
     \<Rightarrow> (exn + nat \<times> nat) \<times> 't status \<times> 'w" where
  "findPacket env ext extract_last buf st w =
     (let extract_result = ext buf; buffer_size = int (length buf) in
      if buffer_size < extract_result then (Inl LengthError, st, w)
      else if extract_result = 0 then (Inr (0, 0), st, w)
      else
        let packet_start = (if extract_result < 0 then nat (- extract_result) else 0);
            packet_size = (if 0 < extract_result then nat extract_result else 0);
            (st1, w1) = (if extract_last then count_found env packet_start packet_size st w
                         else (st, w));
            remaining = buffer_size - int (packet_start + packet_size)
        in if remaining = 0 then (Inr (packet_start, packet_size), st1, w1)
           else if packet_size = 0 \<or> (0 < packet_size \<and> extract_last) then
             (if remaining < 0 then (Inl UndefinedBehaviour, st1, w1)
              else (case findPacket env ext extract_last (drop (packet_start + packet_size) buf) st1 w1 of
                  (Inl e, s2) \<Rightarrow> (Inl e, s2)
                | (Inr (off, sz), s2) \<Rightarrow>
                    if extract_last \<and> sz = 0 then (Inr (packet_start, packet_size), s2)
                    else (Inr (packet_start + packet_size + off, sz), s2)))
           else (Inr (packet_start, packet_size), st1, w1))"
  by pat_completeness auto
termination
  by (relation "measure (\<lambda>(env, ext, l, buf, st, w). length buf)") (auto split: if_splits)

declare findPacket.simps [simp del]

section \<open>Taking bytes out of the internal buffer\<close>

text \<open>Result, driver, output array. A negative new size would be handed to \<^verbatim>\<open>memmove\<close> as a
  huge one: undefined.\<close>

definition pullBytesFromInternal ::
  "byte list \<Rightarrow> nat \<Rightarrow> nat \<Rightarrow> 't driver \<Rightarrow> (exn + unit) \<times> 't driver \<times> byte list" where
  "pullBytesFromInternal buffer skip count d =
     (let total_size = skip + count in
      if internal_buffer_size d < total_size then (Inl UndefinedBehaviour, d, buffer)
      else
        let new_internal_size = internal_buffer_size d - total_size in
        case mem_load (internal_buffer d) skip count of Inl e \<Rightarrow> (Inl e, d, buffer)
        | Inr bs \<Rightarrow>
          (case mem_store buffer 0 bs of Inl e \<Rightarrow> (Inl e, d, buffer)
           | Inr buffer' \<Rightarrow>
             (case memmove (internal_buffer d) 0 total_size new_internal_size of
                Inl e \<Rightarrow> (Inl e, d, buffer')
              | Inr ib \<Rightarrow>
                  (Inr (), d\<lparr>internal_buffer := ib, internal_buffer_size := new_internal_size\<rparr>,
                   buffer'))))"

definition doPacketExtraction ::
  "('w, 't) env \<Rightarrow> (byte list \<Rightarrow> int) \<Rightarrow> byte list \<Rightarrow> 't driver \<Rightarrow> 'w
     \<Rightarrow> (exn + nat) \<times> 't driver \<times> byte list \<times> 'w" where
  "doPacketExtraction env ext buffer d w =
     (case findPacket env ext (m_extract_last d) (queued d) (m_stats d) w of
        (Inl e, st1, w1) \<Rightarrow> (Inl e, d\<lparr>m_stats := st1\<rparr>, buffer, w1)
      | (Inr (off, sz), st1, w1) \<Rightarrow>
          let (st2, w2) = (if \<not> m_extract_last d then count_found env off sz st1 w1 else (st1, w1))
          in (case pullBytesFromInternal buffer off sz (d\<lparr>m_stats := st2\<rparr>) of
                (Inl e, d', buffer') \<Rightarrow> (Inl e, d', buffer', w2)
              | (Inr _, d', buffer') \<Rightarrow> (Inr sz, d', buffer', w2)))"

text \<open>\<open>hasPacket\<close> is const, but \<open>m_stats\<close> is mutable and \<open>findPacket\<close> updates it.\<close>

definition hasPacket ::
  "('w, 't) env \<Rightarrow> (byte list \<Rightarrow> int) \<Rightarrow> 't driver \<Rightarrow> 'w \<Rightarrow> (exn + bool) \<times> 't driver \<times> 'w" where
  "hasPacket env ext d w =
     (if internal_buffer_size d = 0 then (Inr False, d, w)
      else case findPacket env ext (m_extract_last d) (queued d) (m_stats d) w of
             (Inl e, st1, w1) \<Rightarrow> (Inl e, d\<lparr>m_stats := st1\<rparr>, w1)
           | (Inr (off, sz), st1, w1) \<Rightarrow> (Inr (0 < sz), d\<lparr>m_stats := st1\<rparr>, w1))"

section \<open>pullBytesFromInternal refines a queue operation\<close>

lemma pullBytes_ok:
  assumes "driver_wf d" "skip + n \<le> internal_buffer_size d" "n \<le> length buffer"
  obtains d' buffer' where
    "pullBytesFromInternal buffer skip n d = (Inr (), d', buffer')"
    "driver_wf d'" "queued d' = drop (skip + n) (queued d)"
    "buffer' = take n (drop skip (queued d)) @ drop n buffer"
    "d' = d\<lparr>internal_buffer := internal_buffer d', internal_buffer_size := internal_buffer_size d - (skip + n)\<rparr>"
proof -
  let ?ib = "internal_buffer d" and ?m = "internal_buffer_size d - (skip + n)"
  let ?ib' = "take ?m (drop (skip + n) ?ib) @ drop ?m ?ib"
  let ?d = "d\<lparr>internal_buffer := ?ib', internal_buffer_size := ?m\<rparr>"
  define bs where "bs = take n (drop skip ?ib)"
  have len: "internal_buffer_size d \<le> length ?ib" using assms(1) by (simp add: driver_wf_def)
  have load: "mem_load ?ib skip n = Inr bs"
    using assms(2) len by (simp add: mem_load_def bs_def)
  have n: "length bs = n" using assms(2) len by (simp add: bs_def)
  have bs: "bs = take n (drop skip (queued d))"
    using assms(2) len by (simp add: bs_def queued_def drop_take min_def)
  have store: "mem_store buffer 0 bs = Inr (bs @ drop n buffer)"
    using assms(3) n by (simp add: mem_store_def)
  have move: "memmove ?ib 0 (skip + n) ?m = Inr ?ib'"
    using assms(2) len by (intro memmove_front) simp
  have pull: "pullBytesFromInternal buffer skip n d = (Inr (), ?d, bs @ drop n buffer)"
    using assms(2) by (simp add: pullBytesFromInternal_def Let_def load store move)
  have lib: "length ?ib' = length ?ib" using assms(2) len by simp
  show thesis
  proof (rule that [OF pull])
    show "driver_wf ?d" using assms(1,2) lib by (auto simp: driver_wf_def)
    show "queued ?d = drop (skip + n) (queued d)"
      using assms(2) len by (simp add: queued_def drop_take)
    show "bs @ drop n buffer = take n (drop skip (queued d)) @ drop n buffer"
      using bs by simp
  qed simp
qed

end
