(* ===== verification/Packet_Spec.thy ===== *)
theory Packet_Spec
  imports Packet_Extraction
begin

text \<open>
  What the packet extraction of \<^verbatim>\<open>Packet_Extraction\<close> computes. The contract that the
  documentation of \<^verbatim>\<open>Driver::extractPacket\<close> states is the locale \<open>packet_extractor\<close>;
  under it \<open>findPacket\<close> never leaves the buffer, and it is described without its recursion:
  by \<open>skips\<close> (the bytes dropped before the first packet) and by \<open>segments\<close> (the
  successive verdicts over the whole buffer, for \<open>m_extract_last\<close>).
\<close>

section \<open>The contract of extractPacket\<close>

text \<open>
  Of a nonempty buffer, a subclass drops at most what is there and takes at most what is
  there. (\<open>Driver\<close> itself checks the second bound, not the first.)
\<close>

locale packet_extractor =
  fixes ext :: "byte list \<Rightarrow> int"
  assumes ext_lower: "b \<noteq> [] \<Longrightarrow> - int (length b) \<le> ext b"
    and ext_upper: "b \<noteq> [] \<Longrightarrow> ext b \<le> int (length b)"

text \<open>A verdict, once given, does not depend on the bytes that follow.\<close>

locale stable_extractor = packet_extractor +
  assumes ext_stable: "b \<noteq> [] \<Longrightarrow> ext b \<noteq> 0 \<Longrightarrow> ext (b @ c) = ext b"

section \<open>Descriptions of a buffer\<close>

text \<open>\<open>skips ext b k\<close>: the first \<open>k\<close> bytes of \<open>b\<close> are dropped, verdict after verdict.\<close>

inductive skips :: "(byte list \<Rightarrow> int) \<Rightarrow> byte list \<Rightarrow> nat \<Rightarrow> bool" for ext where
  skip_none: "skips ext b 0"
| skip_more: "ext b = - int r \<Longrightarrow> 0 < r \<Longrightarrow> r \<le> length b \<Longrightarrow> skips ext (drop r b) k
     \<Longrightarrow> skips ext b (r + k)"

lemma skips_length: "skips ext b k \<Longrightarrow> k \<le> length b"
  by (induction rule: skips.induct) auto

text \<open>The verdicts given when the buffer is cut at every one of them.\<close>

function segments :: "(byte list \<Rightarrow> int) \<Rightarrow> byte list \<Rightarrow> int list" where
  "segments ext b =
     (if b = [] \<or> ext b = 0 \<or> int (length b) < \<bar>ext b\<bar> then []
      else ext b # segments ext (drop (nat \<bar>ext b\<bar>) b))"
  by pat_completeness auto
termination
  by (relation "measure (\<lambda>(ext, b). length b)") (auto simp: nat_less_iff)

declare segments.simps [simp del]

definition extent :: "int list \<Rightarrow> nat" where
  "extent rs = (\<Sum>r\<leftarrow>rs. nat \<bar>r\<bar>)"

definition garbage_bytes :: "int list \<Rightarrow> nat" where
  "garbage_bytes rs = (\<Sum>r\<leftarrow>rs. nat (- r))"

definition packet_bytes :: "int list \<Rightarrow> nat" where
  "packet_bytes rs = (\<Sum>r\<leftarrow>rs. nat r)"

text \<open>The last positive verdict with its offset; the first verdict if none is positive.\<close>

fun last_packet :: "int list \<Rightarrow> nat \<times> nat" where
  "last_packet [] = (0, 0)"
| "last_packet (r # rs) =
     (case last_packet rs of (off, sz) \<Rightarrow>
        if sz = 0 then (nat (- r), nat r) else (nat \<bar>r\<bar> + off, sz))"

lemma extent_simps [simp]: "extent [] = 0" "extent (r # rs) = nat \<bar>r\<bar> + extent rs"
  "extent (rs @ ts) = extent rs + extent ts"
  by (simp_all add: extent_def)

lemma garbage_bytes_simps [simp]:
  "garbage_bytes [] = 0" "garbage_bytes (r # rs) = nat (- r) + garbage_bytes rs"
  by (simp_all add: garbage_bytes_def)

lemma packet_bytes_simps [simp]:
  "packet_bytes [] = 0" "packet_bytes (r # rs) = nat r + packet_bytes rs"
  by (simp_all add: packet_bytes_def)

lemma last_packet_none: "\<forall>r \<in> set rs. r < 0 \<Longrightarrow> snd (last_packet rs) = 0"
  by (induction rs) (auto split: prod.splits)

lemma last_packet_split:
  "0 < r \<Longrightarrow> \<forall>q \<in> set post. q < 0 \<Longrightarrow> last_packet (pre @ r # post) = (extent pre, nat r)"
proof (induction pre)
  case Nil
  then have "snd (last_packet post) = 0" by (intro last_packet_none)
  with Nil show ?case by (auto split: prod.splits)
next
  case (Cons q pre)
  then show ?case by auto
qed

lemma extent_segments: "extent (segments ext b) \<le> length b"
proof (induction ext b rule: segments.induct)
  case (1 ext b)
  show ?case
  proof (cases "b = [] \<or> ext b = 0 \<or> int (length b) < \<bar>ext b\<bar>")
    case True
    then show ?thesis by (subst segments.simps) simp
  next
    case False
    with 1 have "extent (segments ext (drop (nat \<bar>ext b\<bar>) b)) \<le> length b - nat \<bar>ext b\<bar>" by simp
    moreover have "nat \<bar>ext b\<bar> \<le> length b" using False by auto
    ultimately have "nat \<bar>ext b\<bar> + extent (segments ext (drop (nat \<bar>ext b\<bar>) b)) \<le> length b"
      by (metis add.commute le_diff_conv2)
    then show ?thesis using False by (subst segments.simps) (simp only: if_False extent_simps)
  qed
qed

lemma last_packet_bound: "last_packet rs = (off, sz) \<Longrightarrow> off + sz \<le> extent rs"
proof (induction rs arbitrary: off sz)
  case (Cons r rs)
  obtain o' s' where "last_packet rs = (o', s')" by fastforce
  with Cons show ?case by (fastforce split: if_splits)
qed simp

lemma last_packet_segments:
  "last_packet (segments ext b) = (off, sz) \<Longrightarrow> 0 < sz \<Longrightarrow> ext (drop off b) = int sz"
proof (induction ext b arbitrary: off sz rule: segments.induct)
  case (1 ext b)
  show ?case
  proof (cases "b = [] \<or> ext b = 0 \<or> int (length b) < \<bar>ext b\<bar>")
    case True
    then have "segments ext b = []" by (subst segments.simps) simp
    with "1.prems" show ?thesis by simp
  next
    case False
    obtain o' s' where rest: "last_packet (segments ext (drop (nat \<bar>ext b\<bar>) b)) = (o', s')"
      by fastforce
    have seg: "segments ext b = ext b # segments ext (drop (nat \<bar>ext b\<bar>) b)"
      using False by (subst segments.simps) simp
    show ?thesis
    proof (cases "s' = 0")
      case True
      with "1.prems" seg rest have "off = nat (- ext b)" "sz = nat (ext b)" by auto
      with "1.prems"(2) show ?thesis by simp
    next
      case sz: False
      with "1.prems" seg rest have "off = nat \<bar>ext b\<bar> + o'" "sz = s'" by auto
      with "1.IH" [OF False rest] sz show ?thesis by (simp add: add.commute)
    qed
  qed
qed

section \<open>The packets of a byte sequence\<close>

text \<open>\<open>packets ext b\<close> are the packets that the verdicts cut out of \<open>b\<close>, and \<open>rest ext b\<close>
  the bytes after the last verdict, still undecided.\<close>

fun cut :: "int list \<Rightarrow> byte list \<Rightarrow> byte list list" where
  "cut [] b = []"
| "cut (r # rs) b = (if 0 < r then [take (nat r) b] else []) @ cut rs (drop (nat \<bar>r\<bar>) b)"

definition packets :: "(byte list \<Rightarrow> int) \<Rightarrow> byte list \<Rightarrow> byte list list" where
  "packets ext b = cut (segments ext b) b"

definition rest :: "(byte list \<Rightarrow> int) \<Rightarrow> byte list \<Rightarrow> byte list" where
  "rest ext b = drop (extent (segments ext b)) b"

lemma cut_append:
  "cut (rs @ ts) b = cut rs b @ cut ts (drop (extent rs) b)"
  by (induction rs arbitrary: b) (simp_all add: add.commute)

lemma cut_prefix: "extent rs \<le> length b \<Longrightarrow> cut rs (b @ c) = cut rs b"
  by (induction rs arbitrary: b) auto

lemma packets_Nil [simp]: "packets ext [] = []"
  by (simp add: packets_def segments.simps)

lemma packets_wait: "ext b = 0 \<Longrightarrow> packets ext b = []"
  by (simp add: packets_def segments.simps)

lemma packets_packet:
  "ext b = int n \<Longrightarrow> 0 < n \<Longrightarrow> n \<le> length b \<Longrightarrow> packets ext b = take n b # packets ext (drop n b)"
  unfolding packets_def by (subst segments.simps) auto

lemma packets_skip: "skips ext b k \<Longrightarrow> packets ext b = packets ext (drop k b)"
proof (induction rule: skips.induct)
  case (skip_more b r k)
  then have "packets ext b = packets ext (drop r b)"
    unfolding packets_def by (subst segments.simps) auto
  with skip_more show ?case by (simp add: add.commute)
qed simp

context stable_extractor
begin

lemma ext_in_bounds: "b \<noteq> [] \<Longrightarrow> \<bar>ext b\<bar> \<le> int (length b)"
  using ext_lower [of b] ext_upper [of b] by auto

text \<open>Cutting a longer sequence starts by cutting its prefix: how the bytes were grouped
  when they arrived does not matter.\<close>

lemma segments_append: "segments ext (b @ c) = segments ext b @ segments ext (rest ext b @ c)"
proof (induction b rule: length_induct)
  case (1 b)
  show ?case
  proof (cases "b = [] \<or> ext b = 0")
    case True
    then have "segments ext b = []" by (subst segments.simps) auto
    then show ?thesis by (simp add: rest_def)
  next
    case False
    let ?n = "nat \<bar>ext b\<bar>"
    have n: "?n \<le> length b" using ext_in_bounds [of b] False by auto
    have seg: "segments ext b = ext b # segments ext (drop ?n b)"
      using False ext_in_bounds [of b] by (subst segments.simps) auto
    have "ext (b @ c) = ext b" using False by (intro ext_stable) auto
    then have "segments ext (b @ c) = ext b # segments ext (drop ?n (b @ c))"
      using False ext_in_bounds [of "b @ c"] by (subst segments.simps) auto
    also have "drop ?n (b @ c) = drop ?n b @ c" using n by simp
    also have "segments ext (drop ?n b @ c)
      = segments ext (drop ?n b) @ segments ext (rest ext (drop ?n b) @ c)"
      using False n by (intro "1.IH" [rule_format]) (cases b; auto)
    also have "rest ext (drop ?n b) = rest ext b" by (simp add: rest_def seg add.commute)
    finally show ?thesis by (simp add: seg)
  qed
qed

lemma packets_append: "packets ext (b @ c) = packets ext b @ packets ext (rest ext b @ c)"
proof -
  have "drop (extent (segments ext b)) (b @ c) = rest ext b @ c"
    using extent_segments [of ext b] by (simp add: rest_def)
  then show ?thesis
    by (simp add: packets_def segments_append [of b c] cut_append cut_prefix extent_segments)
qed

text \<open>Dropping or taking one decided piece leaves the packets of any continuation.\<close>

lemma skips_append: "skips ext b k \<Longrightarrow> skips ext (b @ c) k"
proof (induction rule: skips.induct)
  case (skip_more b r k)
  then have "ext (b @ c) = - int r" by (subst ext_stable) auto
  with skip_more show ?case by (intro skips.skip_more) auto
qed (rule skip_none)

lemma packets_step:
  assumes "skips ext b off" "off + n \<le> length b" "0 < n \<Longrightarrow> ext (drop off b) = int n"
  shows "packets ext (b @ c) = (if n = 0 then [] else [take n (drop off b)])
    @ packets ext (drop (off + n) b @ c)"
proof (cases "n = 0")
  case True
  have "packets ext (b @ c) = packets ext (drop off (b @ c))"
    using assms(1) by (intro packets_skip skips_append)
  with assms(2) True show ?thesis by simp
next
  case False
  with assms have e: "ext (drop off b) = int n" "drop off b \<noteq> []" by auto
  with False have "ext (drop off b @ c) = int n" by (simp add: ext_stable)
  then have "packets ext (drop off b @ c) = take n (drop off b @ c) # packets ext (drop n (drop off b @ c))"
    using False assms(2) by (intro packets_packet) auto
  moreover have "packets ext (b @ c) = packets ext (drop off (b @ c))"
    using assms(1) by (intro packets_skip skips_append)
  ultimately show ?thesis using assms(2) False by (simp add: add.commute)
qed

end

section \<open>findPacket, one verdict at a time\<close>

lemma findPacket_wait: "ext b = 0 \<Longrightarrow> findPacket env ext l b st w = (Inr (0, 0), st, w)"
  by (subst findPacket.simps) simp

lemma findPacket_too_long:
  "int (length b) < ext b \<Longrightarrow> findPacket env ext l b st w = (Inl LengthError, st, w)"
  by (subst findPacket.simps) simp

lemma findPacket_first_hit:
  "ext b = int n \<Longrightarrow> 0 < n \<Longrightarrow> n \<le> length b
     \<Longrightarrow> findPacket env ext False b st w = (Inr (0, n), st, w)"
  by (subst findPacket.simps) simp

lemma findPacket_first_drop:
  "ext b = - int n \<Longrightarrow> 0 < n \<Longrightarrow> n \<le> length b \<Longrightarrow>
     findPacket env ext False b st w =
       (if n = length b then (Inr (n, 0), st, w)
        else case findPacket env ext False (drop n b) st w of
          (Inl e, s) \<Rightarrow> (Inl e, s)
        | (Inr (off, sz), s) \<Rightarrow> (Inr (n + off, sz), s))"
  by (subst findPacket.simps) (auto simp: Let_def split: prod.splits sum.splits)

lemma findPacket_last_step:
  assumes "ext b \<noteq> 0" "\<bar>ext b\<bar> \<le> int (length b)"
  shows "findPacket env ext True b st w =
    (let (st1, w1) = count_found env (nat (- ext b)) (nat (ext b)) st w in
     if nat \<bar>ext b\<bar> = length b then (Inr (nat (- ext b), nat (ext b)), st1, w1)
     else case findPacket env ext True (drop (nat \<bar>ext b\<bar>) b) st1 w1 of
        (Inl e, s) \<Rightarrow> (Inl e, s)
      | (Inr (off, sz), s) \<Rightarrow>
          if sz = 0 then (Inr (nat (- ext b), nat (ext b)), s)
          else (Inr (nat \<bar>ext b\<bar> + off, sz), s))"
proof (cases "0 < ext b")
  case True
  with assms show ?thesis
    by (subst findPacket.simps) (simp add: Let_def split: prod.splits sum.splits; linarith?)
next
  case False
  with assms show ?thesis
    by (subst findPacket.simps) (simp add: Let_def split: prod.splits sum.splits; linarith?)
qed

section \<open>findPacket as a whole\<close>

context packet_extractor
begin

lemma ext_cases:
  assumes "b \<noteq> []"
  obtains (wait) "ext b = 0"
  | (packet) n where "ext b = int n" "0 < n" "n \<le> length b"
  | (drop) n where "ext b = - int n" "0 < n" "n \<le> length b"
proof (cases "ext b" "0 :: int" rule: linorder_cases)
  case less
  with ext_lower [OF assms] show thesis by (intro drop [of "nat (- ext b)"]) auto
next
  case greater
  with ext_upper [OF assms] show thesis by (intro packet [of "nat (ext b)"]) auto
qed (rule wait)

text \<open>First-packet mode: no event, no change of the statistics, and a result that the
  verdicts explain.\<close>

lemma findPacket_first:
  assumes "b \<noteq> []"
  obtains off sz where
    "findPacket env ext False b st w = (Inr (off, sz), st, w)"
    "off + sz \<le> length b" "skips ext b off"
    "0 < sz \<longrightarrow> ext (drop off b) = int sz"
    "sz = 0 \<longrightarrow> off = length b \<or> ext (drop off b) = 0"
  using assms
proof (induction b arbitrary: thesis rule: length_induct)
  case (1 b)
  from \<open>b \<noteq> []\<close> show thesis
  proof (cases rule: ext_cases)
    case wait
    show thesis
      by (rule "1.prems"(1) [OF findPacket_wait [of ext b, OF wait]]) (use wait in \<open>auto intro: skip_none\<close>)
  next
    case (packet n)
    show thesis
      by (rule "1.prems"(1) [OF findPacket_first_hit [of ext b, OF packet]]) (use packet in \<open>auto intro: skip_none\<close>)
  next
    case (drop n)
    show thesis
    proof (cases "n = length b")
      case True
      have "skips ext b (n + 0)" using drop by (intro skip_more skip_none) auto
      moreover have "findPacket env ext False b st w = (Inr (n, 0), st, w)"
        using findPacket_first_drop [of ext b, OF drop, of env st w] True by simp
      ultimately show thesis using True by (intro "1.prems"(1) [of n 0]) auto
    next
      case False
      with drop have "length (List.drop n b) < length b" "List.drop n b \<noteq> []" by auto
      with "1.IH" obtain off sz where r:
        "findPacket env ext False (List.drop n b) st w = (Inr (off, sz), st, w)"
        "off + sz \<le> length (List.drop n b)" "skips ext (List.drop n b) off"
        "0 < sz \<longrightarrow> ext (List.drop off (List.drop n b)) = int sz"
        "sz = 0 \<longrightarrow> off = length (List.drop n b) \<or> ext (List.drop off (List.drop n b)) = 0"
        by metis
      have "findPacket env ext False b st w = (Inr (n + off, sz), st, w)"
        using findPacket_first_drop [of ext b, OF drop, of env st w] False r(1) by simp
      moreover have "skips ext b (n + off)" using drop r(3) by (intro skip_more) auto
      ultimately show thesis
        using drop r(2,4,5) by (intro "1.prems"(1) [of "n + off" sz]) (auto simp: add.commute)
    qed
  qed
qed

text \<open>Last-packet mode: the result is the last packet among the segments, and every
  segment has been counted.\<close>

lemma findPacket_last:
  assumes "b \<noteq> []"
  obtains st' w' es where
    "findPacket env ext True b st w = (Inr (last_packet (segments ext b)), st', w')"
    "io_run env w es w'" "quiet es"
    "bad_rx st' = bad_rx st + of_nat (garbage_bytes (segments ext b))"
    "good_rx st' = good_rx st + of_nat (packet_bytes (segments ext b))"
    "tx st' = tx st" "queued_bytes st' = queued_bytes st"
  using assms
proof (induction b arbitrary: thesis st w rule: length_induct)
  case (1 b)
  show thesis
  proof (cases "ext b = 0")
    case True
    then have "segments ext b = []" by (subst segments.simps) simp
    then show thesis
      using findPacket_wait [of ext b, OF True, of env True st w]
      by (intro "1.prems"(1) [of st w "[]"]) auto
  next
    case False
    let ?n = "nat \<bar>ext b\<bar>"
    have bound: "\<bar>ext b\<bar> \<le> int (length b)"
      using ext_lower [OF \<open>b \<noteq> []\<close>] ext_upper [OF \<open>b \<noteq> []\<close>] by simp
    have seg: "segments ext b = ext b # segments ext (drop ?n b)"
      using False bound \<open>b \<noteq> []\<close> by (subst segments.simps) simp
    obtain t w1 where now: "io_now env w = (t, w1)" by fastforce
    define st1 where "st1 = st\<lparr>stamp := t, bad_rx := bad_rx st + of_nat (nat (- ext b)),
      good_rx := good_rx st + of_nat (nat (ext b))\<rparr>"
    have counted: "count_found env (nat (- ext b)) (nat (ext b)) st w = (st1, w1)"
      by (simp add: count_found_def now st1_def)
    note step = findPacket_last_step [of ext b, OF False bound, of env st w, unfolded counted Let_def prod.case]
    have run1: "io_run env w [EvNow t] w1" by (simp add: now)
    show thesis
    proof (cases "?n = length b")
      case True
      then have "segments ext (drop ?n b) = []" by (subst segments.simps) simp
      with seg step True run1 show thesis
        by (intro "1.prems"(1) [of st1 w1 "[EvNow t]"]) (auto simp: st1_def)
    next
      case neq: False
      with bound have "?n < length b" by simp
      then have "length (drop ?n b) < length b" "drop ?n b \<noteq> []" using False by auto
      with "1.IH" obtain st' w' es where r:
        "findPacket env ext True (drop ?n b) st1 w1 = (Inr (last_packet (segments ext (drop ?n b))), st', w')"
        "io_run env w1 es w'" "quiet es"
        "bad_rx st' = bad_rx st1 + of_nat (garbage_bytes (segments ext (drop ?n b)))"
        "good_rx st' = good_rx st1 + of_nat (packet_bytes (segments ext (drop ?n b)))"
        "tx st' = tx st1" "queued_bytes st' = queued_bytes st1"
        by metis
      have "findPacket env ext True b st w = (Inr (last_packet (segments ext b)), st', w')"
        using step neq r(1) seg by (auto split: prod.splits)
      moreover have "io_run env w ([EvNow t] @ es) w'" using run1 r(2) by (rule io_run_appendI)
      ultimately show thesis
        using r(3-7) seg by (intro "1.prems"(1) [of st' w' "[EvNow t] @ es"]) (simp_all add: st1_def)
    qed
  qed
qed

end

end
