(* ===== verification/Framing.thy ===== *)
theory Framing
  imports Packet_Spec
begin

text \<open>
  The abstract framing machine that a reading driver implements. Its state is the queue of
  bytes received and not yet decided; it can receive bytes, drop bytes that a verdict
  rejects and emit a packet that a verdict accepts. \<open>feed ext q bs ps g q'\<close>: from the queue
  \<open>q\<close>, having received \<open>bs\<close>, the machine has emitted the packets \<open>ps\<close>, dropped \<open>g\<close> bytes
  and is left with \<open>q'\<close>.
\<close>

inductive feed ::
  "(byte list \<Rightarrow> int) \<Rightarrow> byte list \<Rightarrow> byte list \<Rightarrow> byte list list \<Rightarrow> nat \<Rightarrow> byte list \<Rightarrow> bool"
  for ext q where
  feed_none: "feed ext q [] [] 0 q"
| feed_bytes: "feed ext q bs ps g q' \<Longrightarrow> feed ext q (bs @ cs) ps g (q' @ cs)"
| feed_drop: "feed ext q bs ps g q' \<Longrightarrow> skips ext q' k \<Longrightarrow> feed ext q bs ps (g + k) (drop k q')"
| feed_packet: "feed ext q bs ps g q' \<Longrightarrow> ext q' = int n \<Longrightarrow> 0 < n \<Longrightarrow> n \<le> length q'
     \<Longrightarrow> feed ext q bs (ps @ [take n q']) g (drop n q')"

text \<open>Runs of the machine compose.\<close>

lemma feed_trans:
  assumes "feed ext q1 cs qs h q2" "feed ext q bs ps g q1"
  shows "feed ext q (bs @ cs) (ps @ qs) (g + h) q2"
  using assms(1)
proof (induction rule: feed.induct)
  case feed_none
  with assms(2) show ?case by simp
next
  case (feed_bytes bs' ps' g' q' cs')
  then show ?case using feed.feed_bytes by (metis append.assoc)
next
  case (feed_drop bs' ps' g' q' k)
  then show ?case using feed.feed_drop by (metis add.assoc)
next
  case (feed_packet bs' ps' g' q' n)
  then show ?case using feed.feed_packet by (metis append.assoc)
qed

lemma feed_receive: "feed ext q bs [] 0 (q @ bs)"
  using feed_bytes [OF feed_none, of ext q bs] by simp

text \<open>No byte is lost or invented: what came in went out, was dropped or is still queued,
  and the packets are pieces of the input in order.\<close>

lemma feed_length:
  "feed ext q bs ps g q' \<Longrightarrow> length q + length bs = g + length (concat ps) + length q'"
proof (induction rule: feed.induct)
  case (feed_drop bs ps g q' k)
  then show ?case using skips_length [of ext q' k] by simp
qed simp_all

lemma subseq_append_drop: "subseq (a @ q) b \<Longrightarrow> subseq (a @ drop k q) b"
proof -
  have "subseq (a @ drop k q) (a @ q)"
    by (intro list_emb_append_mono subseq_order.order_refl suffix_imp_subseq suffix_drop)
  then show "subseq (a @ q) b \<Longrightarrow> subseq (a @ drop k q) b"
    by (rule subseq_order.order_trans)
qed

lemma feed_subseq: "feed ext q bs ps g q' \<Longrightarrow> subseq (concat ps @ q') (q @ bs)"
proof (induction rule: feed.induct)
  case (feed_bytes bs ps g q' cs)
  have "subseq ((concat ps @ q') @ cs) ((q @ bs) @ cs)"
    by (rule list_emb_append_mono [OF feed_bytes.IH subseq_order.order_refl])
  then show ?case by simp
next
  case (feed_drop bs ps g q' k)
  then show ?case by (blast intro: subseq_append_drop)
qed simp_all

lemma feed_packets_nonempty: "feed ext q bs ps g q' \<Longrightarrow> \<forall>p \<in> set ps. p \<noteq> []"
  by (induction rule: feed.induct) auto

lemma feed_suffix: "feed ext q bs ps g q' \<Longrightarrow> suffix q' (q @ bs)"
proof (induction rule: feed.induct)
  case (feed_bytes bs ps g q' cs)
  then show ?case by (metis append.assoc suffix_def)
next
  case (feed_drop bs ps g q' k)
  then show ?case by (meson suffix_drop suffix_order.order_trans)
next
  case (feed_packet bs ps g q' n)
  then show ?case by (meson suffix_drop suffix_order.order_trans)
qed simp

text \<open>
  Reassembly. For verdicts that do not change with later bytes, the emitted packets are the
  packets of the byte sequence itself, whatever the grouping in which it was received.
\<close>

context stable_extractor
begin

lemma feed_packets:
  "feed ext q bs ps g q' \<Longrightarrow> packets ext (q @ bs @ c) = ps @ packets ext (q' @ c)"
proof (induction arbitrary: c rule: feed.induct)
  case (feed_bytes bs ps g q' cs)
  then show ?case by simp
next
  case (feed_drop bs ps g q' k)
  have "packets ext (q' @ c) = packets ext (drop k q' @ c)"
    using packets_step [OF feed_drop.hyps(2), of 0 c] skips_length [OF feed_drop.hyps(2)] by simp
  with feed_drop.IH show ?case by simp
next
  case (feed_packet bs ps g q' n)
  have "packets ext (q' @ c) = take n q' # packets ext (drop n q' @ c)"
    using packets_step [OF skip_none, of n q' c] feed_packet by simp
  with feed_packet.IH show ?case by simp
qed simp

lemma feed_drained:
  assumes "feed ext q bs ps g q'" "q' = [] \<or> ext q' = 0"
  shows "packets ext (q @ bs) = ps"
  using feed_packets [OF assms(1), of "[]"] assms(2) by (auto simp: packets_wait)

end

section \<open>Whole buffers\<close>

context packet_extractor
begin

text \<open>Cutting a buffer at every verdict up to some point is a run of the machine; cutting it
  up to the last packet is what \<open>m_extract_last\<close> does.\<close>

lemma feed_segments:
  "segments ext b = rs @ ts \<Longrightarrow> feed ext b [] (cut rs b) (garbage_bytes rs) (drop (extent rs) b)"
proof (induction rs arbitrary: b)
  case Nil
  then show ?case by (simp add: feed_none)
next
  case (Cons r rs)
  from Cons.prems have r: "b \<noteq> []" "ext b = r" "r \<noteq> 0" "\<bar>r\<bar> \<le> int (length b)"
    and seg: "segments ext (drop (nat \<bar>r\<bar>) b) = rs @ ts"
    by (subst (asm) segments.simps; auto split: if_splits)+
  have tail: "feed ext (drop (nat \<bar>r\<bar>) b) [] (cut rs (drop (nat \<bar>r\<bar>) b)) (garbage_bytes rs)
      (drop (extent rs) (drop (nat \<bar>r\<bar>) b))"
    using seg by (rule Cons.IH)
  show ?case
  proof (cases "0 < r")
    case True
    then have "feed ext b [] ([] @ [take (nat r) b]) 0 (drop (nat r) b)"
      using r by (intro feed_packet [OF feed_none]) auto
    from feed_trans [OF tail, of b "[]" "[take (nat r) b]" 0] this True show ?thesis
      by (simp add: add.commute)
  next
    case False
    then have "skips ext b (nat (- r) + 0)" using r by (intro skip_more skip_none) auto
    then have "feed ext b [] [] (0 + nat (- r)) (drop (nat (- r)) b)"
      by (intro feed_drop [OF feed_none]) simp
    from feed_trans [OF tail, of b "[]" "[]" "nat (- r)"] this False show ?thesis
      by (simp add: add.commute)
  qed
qed

lemma last_packet_decompose:
  obtains (none) "\<forall>r \<in> set rs. r \<le> 0" "snd (last_packet rs) = 0"
  | (some) pre r post where "rs = pre @ r # post" "0 < r" "\<forall>q \<in> set post. q \<le> 0"
      "last_packet rs = (extent pre, nat r)"
proof (cases "\<exists>r \<in> set rs. 0 < r")
  case True
  then obtain pre r post where d: "rs = pre @ r # post" "0 < r" "\<forall>q \<in> set post. \<not> 0 < q"
    using split_list_last_prop [of rs "\<lambda>r. 0 < r"] by blast
  have "snd (last_packet post) = 0"
    using d(3) by (induction post) (auto split: prod.splits)
  then have "last_packet (r # post) = (0, nat r)" using d(2) by (auto split: prod.splits)
  then have "last_packet (pre @ r # post) = (extent pre, nat r)"
    using d(2) by (induction pre) auto
  with d show thesis by (intro some [of pre r post]) auto
next
  case False
  then have "\<forall>r \<in> set rs. r \<le> 0" by auto
  moreover from this have "snd (last_packet rs) = 0"
    by (induction rs) (auto split: prod.splits)
  ultimately show thesis by (rule none)
qed

end

lemma cut_none: "\<forall>r \<in> set rs. r \<le> 0 \<Longrightarrow> cut rs b = []"
  by (induction rs arbitrary: b) auto

lemma packet_bytes_cut: "extent rs \<le> length b \<Longrightarrow> packet_bytes rs = length (concat (cut rs b))"
proof (induction rs arbitrary: b)
  case (Cons r rs)
  then have "packet_bytes rs = length (concat (cut rs (drop (nat \<bar>r\<bar>) b)))" by auto
  with Cons.prems show ?case by (cases "0 < r") auto
qed simp

end
