(* ===== verification/Packet_Queue.thy ===== *)
theory Packet_Queue
  imports Framing
begin

text \<open>
  \<open>doPacketExtraction\<close>, \<open>hasPacket\<close> and \<open>extractPacketFromInternalBuffer\<close> as operations
  on the queue of received bytes, in both extraction modes.
\<close>

section \<open>doPacketExtraction in first-packet mode\<close>

context packet_extractor
begin

lemma doPacketExtraction_first:
  assumes "driver_wf d" "0 < internal_buffer_size d" "\<not> m_extract_last d"
    and "internal_buffer_size d \<le> length buffer"
  obtains off sz d' buffer' w' es where
    "doPacketExtraction env ext buffer d w = (Inr sz, d', buffer', w')"
    "driver_wf d'" "same_config d d'" "io_run env w es w'" "quiet es"
    "off + sz \<le> length (queued d)"
    "queued d' = drop (off + sz) (queued d)"
    "buffer' = take sz (drop off (queued d)) @ drop sz buffer"
    "skips ext (queued d) off"
    "0 < sz \<longrightarrow> ext (drop off (queued d)) = int sz"
    "sz = 0 \<longrightarrow> queued d' = [] \<or> ext (queued d') = 0"
    "bad_rx (m_stats d') = bad_rx (m_stats d) + of_nat off"
    "good_rx (m_stats d') = good_rx (m_stats d) + of_nat sz"
proof -
  have "queued d \<noteq> []" using assms(1,2) by (simp add: queued_empty_iff)
  then obtain off sz where f:
    "findPacket env ext False (queued d) (m_stats d) w = (Inr (off, sz), m_stats d, w)"
    "off + sz \<le> length (queued d)" "skips ext (queued d) off"
    "0 < sz \<longrightarrow> ext (drop off (queued d)) = int sz"
    "sz = 0 \<longrightarrow> off = length (queued d) \<or> ext (drop off (queued d)) = 0"
    by (rule findPacket_first [of _ env "m_stats d" w])
  obtain t w' where now: "io_now env w = (t, w')" by fastforce
  let ?st = "(m_stats d)\<lparr>stamp := t, bad_rx := bad_rx (m_stats d) + of_nat off,
    good_rx := good_rx (m_stats d) + of_nat sz\<rparr>"
  let ?d = "d\<lparr>m_stats := ?st\<rparr>"
  have size: "off + sz \<le> internal_buffer_size d" using f(2) assms(1) by simp
  have "driver_wf ?d" "off + sz \<le> internal_buffer_size ?d" "sz \<le> length buffer"
    using assms(1,4) size by auto
  then obtain d' buffer' where p:
    "pullBytesFromInternal buffer off sz ?d = (Inr (), d', buffer')"
    "driver_wf d'" "queued d' = drop (off + sz) (queued ?d)"
    "buffer' = take sz (drop off (queued ?d)) @ drop sz buffer"
    "d' = ?d\<lparr>internal_buffer := internal_buffer d', internal_buffer_size := internal_buffer_size ?d - (off + sz)\<rparr>"
    by (rule pullBytes_ok)
  have stats: "m_stats d' = ?st" by (subst p(5)) simp
  show thesis
  proof (rule that [of sz d' buffer' w' "[EvNow t]" off])
    show "doPacketExtraction env ext buffer d w = (Inr sz, d', buffer', w')"
      using assms(3) f(1) p(1) by (simp add: doPacketExtraction_def count_found_def now)
    show "same_config d d'" by (subst p(5)) (simp add: same_config_def)
    show "sz = 0 \<longrightarrow> queued d' = [] \<or> ext (queued d') = 0" using f(5) p(3) by auto
  qed (use now p f stats in auto)
qed

section \<open>doPacketExtraction in last-packet mode\<close>

lemma doPacketExtraction_last:
  assumes "driver_wf d" "0 < internal_buffer_size d" "m_extract_last d"
    and "internal_buffer_size d \<le> length buffer"
  obtains off sz d' buffer' w' es where
    "last_packet (segments ext (queued d)) = (off, sz)"
    "doPacketExtraction env ext buffer d w = (Inr sz, d', buffer', w')"
    "driver_wf d'" "same_config d d'" "io_run env w es w'" "quiet es"
    "off + sz \<le> length (queued d)"
    "queued d' = drop (off + sz) (queued d)"
    "buffer' = take sz (drop off (queued d)) @ drop sz buffer"
    "0 < sz \<longrightarrow> ext (drop off (queued d)) = int sz"
    "bad_rx (m_stats d') = bad_rx (m_stats d) + of_nat (garbage_bytes (segments ext (queued d)))"
    "good_rx (m_stats d') = good_rx (m_stats d) + of_nat (packet_bytes (segments ext (queued d)))"
proof -
  have "queued d \<noteq> []" using assms(1,2) by (simp add: queued_empty_iff)
  then obtain st' w' es where f:
    "findPacket env ext True (queued d) (m_stats d) w = (Inr (last_packet (segments ext (queued d))), st', w')"
    "io_run env w es w'" "quiet es"
    "bad_rx st' = bad_rx (m_stats d) + of_nat (garbage_bytes (segments ext (queued d)))"
    "good_rx st' = good_rx (m_stats d) + of_nat (packet_bytes (segments ext (queued d)))"
    "tx st' = tx (m_stats d)"
    by (rule findPacket_last [of _ env "m_stats d" w])
  obtain off sz where l: "last_packet (segments ext (queued d)) = (off, sz)" by fastforce
  have bound: "off + sz \<le> length (queued d)"
    using last_packet_bound [OF l] extent_segments [of ext "queued d"] by (rule le_trans)
  let ?d = "d\<lparr>m_stats := st'\<rparr>"
  have "driver_wf ?d" "off + sz \<le> internal_buffer_size ?d" "sz \<le> length buffer"
    using assms(1,4) bound by auto
  then obtain d' buffer' where p:
    "pullBytesFromInternal buffer off sz ?d = (Inr (), d', buffer')"
    "driver_wf d'" "queued d' = drop (off + sz) (queued ?d)"
    "buffer' = take sz (drop off (queued ?d)) @ drop sz buffer"
    "d' = ?d\<lparr>internal_buffer := internal_buffer d', internal_buffer_size := internal_buffer_size ?d - (off + sz)\<rparr>"
    by (rule pullBytes_ok)
  have stats: "m_stats d' = st'" by (subst p(5)) simp
  show thesis
  proof (rule that [of off sz d' buffer' w' es])
    show "doPacketExtraction env ext buffer d w = (Inr sz, d', buffer', w')"
      using assms(3) f(1) p(1) by (simp add: doPacketExtraction_def l)
    show "same_config d d'" using f(6) by (subst p(5)) (simp add: same_config_def)
    show "0 < sz \<longrightarrow> ext (drop off (queued d)) = int sz"
      using l by (blast intro: last_packet_segments)
  qed (use l bound p f stats in auto)
qed

text \<open>Both modes: no exception, no undefined behaviour.\<close>

lemma doPacketExtraction_total:
  assumes "driver_wf d" "0 < internal_buffer_size d" "internal_buffer_size d \<le> length buffer"
  obtains off sz d' buffer' w' es where
    "doPacketExtraction env ext buffer d w = (Inr sz, d', buffer', w')"
    "driver_wf d'" "same_config d d'" "io_run env w es w'" "quiet es"
    "off + sz \<le> length (queued d)"
    "queued d' = drop (off + sz) (queued d)"
    "buffer' = take sz (drop off (queued d)) @ drop sz buffer"
    "0 < sz \<longrightarrow> ext (drop off (queued d)) = int sz"
proof (cases "m_extract_last d")
  case True
  show thesis by (rule doPacketExtraction_last [OF assms(1,2) True assms(3)]) (rule that)
next
  case False
  show thesis by (rule doPacketExtraction_first [OF assms(1,2) False assms(3)]) (rule that)
qed

end

section \<open>doPacketExtraction runs the framing machine\<close>

lemma last_packet_nonpositive:
  "\<forall>r \<in> set rs. r \<le> 0 \<Longrightarrow>
     last_packet rs = ((case rs of [] \<Rightarrow> 0 | r # _ \<Rightarrow> nat (- r)), 0)"
proof (induction rs)
  case (Cons r rs)
  then have "snd (last_packet rs) = 0" by simp
  with Cons.prems show ?case by (auto split: prod.splits)
qed simp

context packet_extractor
begin

lemma last_packet_feed:
  assumes "last_packet (segments ext b) = (off, sz)"
  obtains ps g where
    "feed ext b [] ps g (drop (off + sz) b)" "ps = packets ext b"
    "packet_bytes (segments ext b) = length (concat ps)"
    "ps = [] \<longrightarrow> sz = 0" "ps \<noteq> [] \<longrightarrow> last ps = take sz (drop off b) \<and> 0 < sz"
proof -
  have pb: "packet_bytes (segments ext b) = length (concat (packets ext b))"
    unfolding packets_def by (rule packet_bytes_cut [OF extent_segments])
  show thesis
  proof (cases rule: last_packet_decompose [of "segments ext b"])
    case none
    then have empty: "packets ext b = []" by (simp add: packets_def cut_none)
    show thesis
    proof (cases "segments ext b")
      case Nil
      with assms have "off = 0" "sz = 0" by auto
      then show thesis using feed_none empty pb by (intro that [of "[]" 0]) auto
    next
      case (Cons r rs)
      with none(1) assms have o: "off = nat (- r)" "sz = 0" "r \<le> 0"
        by (auto simp: last_packet_nonpositive)
      from Cons have "segments ext b = [r] @ rs" by simp
      from feed_segments [OF this] o have "feed ext b [] [] (nat (- r)) (drop off b)" by simp
      then show thesis using o empty pb by (intro that [of "[]" "nat (- r)"]) auto
    qed
  next
    case (some pre r post)
    then have o: "off = extent pre" "sz = nat r" using assms by auto
    from some have "segments ext b = (pre @ [r]) @ post" by simp
    from feed_segments [OF this] some(2) o
    have f: "feed ext b [] (cut (pre @ [r]) b) (garbage_bytes (pre @ [r])) (drop (off + sz) b)"
      by simp
    have p: "packets ext b = cut pre b @ [take sz (drop off b)]"
      using some o by (simp add: packets_def cut_append cut_none)
    with some(2) o have "cut (pre @ [r]) b = packets ext b" by (simp add: cut_append)
    with f p pb o some(2) show thesis
      by (intro that [of "packets ext b" "garbage_bytes (pre @ [r])"]) auto
  qed
qed

lemma doPacketExtraction_feed:
  assumes "driver_wf d" "0 < internal_buffer_size d" "internal_buffer_size d \<le> length buffer"
  obtains ps g sz d' buffer' w' es where
    "doPacketExtraction env ext buffer d w = (Inr sz, d', buffer', w')"
    "driver_wf d'" "same_config d d'" "io_run env w es w'" "quiet es"
    "feed ext (queued d) [] ps g (queued d')" "length buffer' = length buffer"
    "ps = [] \<longrightarrow> sz = 0 \<and> buffer' = buffer"
    "ps \<noteq> [] \<longrightarrow> 0 < sz \<and> sz \<le> internal_buffer_size d \<and> take sz buffer' = last ps"
    "good_rx (m_stats d') = good_rx (m_stats d) + of_nat (length (concat ps))"
    "\<not> m_extract_last d \<longrightarrow> length ps \<le> 1 \<and> bad_rx (m_stats d') = bad_rx (m_stats d) + of_nat g
       \<and> (ps = [] \<longrightarrow> queued d' = [] \<or> ext (queued d') = 0)"
    "m_extract_last d \<longrightarrow> ps = packets ext (queued d)"
proof (cases "m_extract_last d")
  case True
  obtain off sz d' buffer' w' es where r:
    "last_packet (segments ext (queued d)) = (off, sz)"
    "doPacketExtraction env ext buffer d w = (Inr sz, d', buffer', w')"
    "driver_wf d'" "same_config d d'" "io_run env w es w'" "quiet es"
    "off + sz \<le> length (queued d)" "queued d' = drop (off + sz) (queued d)"
    "buffer' = take sz (drop off (queued d)) @ drop sz buffer"
    "good_rx (m_stats d') = good_rx (m_stats d) + of_nat (packet_bytes (segments ext (queued d)))"
    by (rule doPacketExtraction_last [OF assms(1,2) True assms(3)])
  obtain ps g where f: "feed ext (queued d) [] ps g (drop (off + sz) (queued d))"
    "ps = packets ext (queued d)" "packet_bytes (segments ext (queued d)) = length (concat ps)"
    "ps = [] \<longrightarrow> sz = 0" "ps \<noteq> [] \<longrightarrow> last ps = take sz (drop off (queued d)) \<and> 0 < sz"
    using last_packet_feed [OF r(1)] .
  have sz: "sz \<le> internal_buffer_size d" using r(7) assms(1) by simp
  have len: "length buffer' = length buffer" using r(7,9) sz assms(3) by auto
  show thesis
  proof (rule that [of sz d' buffer' w' es ps g])
    show "feed ext (queued d) [] ps g (queued d')" using f(1) r(8) by simp
    show "ps \<noteq> [] \<longrightarrow> 0 < sz \<and> sz \<le> internal_buffer_size d \<and> take sz buffer' = last ps"
      using f(5) r(7,9) sz by auto
  qed (use True r f len in auto)
next
  case False
  obtain off sz d' buffer' w' es where r:
    "doPacketExtraction env ext buffer d w = (Inr sz, d', buffer', w')"
    "driver_wf d'" "same_config d d'" "io_run env w es w'" "quiet es"
    "off + sz \<le> length (queued d)" "queued d' = drop (off + sz) (queued d)"
    "buffer' = take sz (drop off (queued d)) @ drop sz buffer" "skips ext (queued d) off"
    "0 < sz \<longrightarrow> ext (drop off (queued d)) = int sz"
    "sz = 0 \<longrightarrow> queued d' = [] \<or> ext (queued d') = 0"
    "bad_rx (m_stats d') = bad_rx (m_stats d) + of_nat off"
    "good_rx (m_stats d') = good_rx (m_stats d) + of_nat sz"
    by (rule doPacketExtraction_first [OF assms(1,2) False assms(3)])
  have sz: "sz \<le> internal_buffer_size d" using r(6) assms(1) by simp
  have len: "length buffer' = length buffer" using r(6,8) sz assms(3) by auto
  define ps where "ps = (if sz = 0 then [] else [take sz (drop off (queued d))])"
  have d: "feed ext (queued d) [] [] (0 + off) (drop off (queued d))"
    using feed_none r(9) by (rule feed_drop)
  have "feed ext (queued d) [] ps off (queued d')"
  proof (cases "sz = 0")
    case True
    with d r(7) show ?thesis by (simp add: ps_def)
  next
    case sz0: False
    then have "feed ext (queued d) [] ([] @ [take sz (drop off (queued d))]) (0 + off) (drop sz (drop off (queued d)))"
      using r(6,10) by (intro feed_packet [OF d]) auto
    with sz0 r(7) show ?thesis by (simp add: ps_def add.commute)
  qed
  moreover have "length (concat ps) = sz" using r(6) by (auto simp: ps_def)
  moreover have "ps \<noteq> [] \<longrightarrow> take sz buffer' = last ps" using r(6,8) by (auto simp: ps_def)
  ultimately show thesis
    using False r sz len by (intro that [of sz d' buffer' w' es ps off]) (auto simp: ps_def)
qed

end

section \<open>Reading without a stream\<close>

lemma doPacketExtraction_shrinks:
  assumes "doPacketExtraction env ext buffer d w = (Inr sz, d', buffer', w')" "0 < sz"
  shows "internal_buffer_size d' < internal_buffer_size d"
  using assms
  by (auto simp: doPacketExtraction_def pullBytesFromInternal_def Let_def
      split: sum.splits prod.splits if_splits)

function extractFromInternal_loop ::
  "('w, 't) env \<Rightarrow> (byte list \<Rightarrow> int) \<Rightarrow> byte list \<Rightarrow> nat \<Rightarrow> 't driver \<Rightarrow> 'w
     \<Rightarrow> (exn + nat) \<times> 't driver \<times> byte list \<times> 'w" where
  "extractFromInternal_loop env ext buffer result_size d w =
     (if internal_buffer_size d = 0 then (Inr result_size, d, buffer, w)
      else case doPacketExtraction env ext buffer d w of
         (Inl e, s) \<Rightarrow> (Inl e, s)
       | (Inr packet_size, d', buffer', w') \<Rightarrow>
           let result_size' = (if packet_size \<noteq> 0 then packet_size else result_size) in
           if packet_size = 0 \<or> \<not> m_extract_last d' then (Inr result_size', d', buffer', w')
           else extractFromInternal_loop env ext buffer' result_size' d' w')"
  by pat_completeness auto
termination
  by (relation "measure (\<lambda>(env, ext, buffer, r, d, w). internal_buffer_size d)")
    (auto dest!: doPacketExtraction_shrinks [OF sym])

declare extractFromInternal_loop.simps [simp del]

text \<open>The flag of the returned pair (data was read from the device) is always false.\<close>

definition extractPacketFromInternalBuffer ::
  "('w, 't) env \<Rightarrow> (byte list \<Rightarrow> int) \<Rightarrow> byte list \<Rightarrow> 't driver \<Rightarrow> 'w
     \<Rightarrow> (exn + nat \<times> bool) \<times> 't driver \<times> byte list \<times> 'w" where
  "extractPacketFromInternalBuffer env ext buffer d w =
     (case extractFromInternal_loop env ext buffer 0 d w of
        (Inl e, s) \<Rightarrow> (Inl e, s)
      | (Inr n, s) \<Rightarrow> (Inr (n, False), s))"

context packet_extractor
begin

lemma extractFromInternal_loop_total:
  assumes "driver_wf d" "nat (MAX_PACKET_SIZE d) \<le> length buffer"
    and "n \<le> nat (MAX_PACKET_SIZE d)"
  obtains m d' buffer' w' es where
    "extractFromInternal_loop env ext buffer n d w = (Inr m, d', buffer', w')"
    "driver_wf d'" "same_config d d'" "io_run env w es w'" "quiet es"
    "m \<le> nat (MAX_PACKET_SIZE d)" "length buffer' = length buffer"
  using assms
proof (induction "internal_buffer_size d" arbitrary: d buffer n w thesis rule: less_induct)
  case less
  show thesis
  proof (cases "internal_buffer_size d = 0")
    case True
    then show thesis
      by (intro less.prems(1) [of n d buffer w "[]"])
        (use less.prems in \<open>auto simp: extractFromInternal_loop.simps\<close>)
  next
    case False
    have le: "internal_buffer_size d \<le> nat (MAX_PACKET_SIZE d)"
      using less.prems(2) by (simp add: driver_wf_def)
    have pre: "0 < internal_buffer_size d" "internal_buffer_size d \<le> length buffer"
      using False le less.prems(3) by auto
    obtain off sz d1 buffer1 w1 es where s:
      "doPacketExtraction env ext buffer d w = (Inr sz, d1, buffer1, w1)"
      "driver_wf d1" "same_config d d1" "io_run env w es w1" "quiet es"
      "off + sz \<le> length (queued d)" "queued d1 = drop (off + sz) (queued d)"
      "buffer1 = take sz (drop off (queued d)) @ drop sz buffer"
      by (rule doPacketExtraction_total [OF less.prems(2) pre, of env w])
    have sz: "sz \<le> nat (MAX_PACKET_SIZE d)" using s(6) le less.prems(2) by simp
    have len: "length buffer1 = length buffer" using s(6,8) sz less.prems(3) by auto
    show thesis
    proof (cases "sz = 0 \<or> \<not> m_extract_last d1")
      case True
      then show thesis
        by (intro less.prems(1) [of "if sz \<noteq> 0 then sz else n" d1 buffer1 w1 es])
          (use False s sz len less.prems(4) in \<open>auto simp: extractFromInternal_loop.simps\<close>)
    next
      case more: False
      then have "internal_buffer_size d1 < internal_buffer_size d"
        using doPacketExtraction_shrinks [OF s(1)] by simp
      note smaller = this
      have big: "nat (MAX_PACKET_SIZE d1) \<le> length buffer1" "sz \<le> nat (MAX_PACKET_SIZE d1)"
        using len sz less.prems(3) same_configD(1) [OF s(3)] by simp_all
      obtain m d' buffer' w' fs where r:
        "extractFromInternal_loop env ext buffer1 sz d1 w1 = (Inr m, d', buffer', w')"
        "driver_wf d'" "same_config d1 d'" "io_run env w1 fs w'" "quiet fs"
        "m \<le> nat (MAX_PACKET_SIZE d1)" "length buffer' = length buffer1"
        by (rule less.hyps [OF smaller _ s(2) big, of w1])
      show thesis
      proof (rule less.prems(1) [of m d' buffer' w' "es @ fs"])
        show "extractFromInternal_loop env ext buffer n d w = (Inr m, d', buffer', w')"
          using False s(1) more r(1)
          by (subst extractFromInternal_loop.simps) (simp add: Let_def)
        show "same_config d d'" using s(3) r(3) by (rule same_config_trans)
        show "io_run env w (es @ fs) w'" using s(4) r(4) by (rule io_run_appendI)
      qed (use s r len same_configD(1) [OF s(3)] in auto)
    qed
  qed
qed

end

end
