(* ===== verification/Driver_Read.thy ===== *)
theory Driver_Read
  imports Packet_Queue "HOL-Library.Monad_Syntax"
begin

text \<open>
  The reading side of \<^verbatim>\<open>src/src/Driver.cpp\<close>: \<open>readPacketInternal\<close>, the overloads of
  \<open>readPacket\<close>, and \<open>readRaw\<close>. Their loops run as long as the environment keeps
  answering, so each is a \<^verbatim>\<open>partial_function (option)\<close>: \<open>None\<close> is "does not return".
  Every result carries the driver, the caller's array and the world as they stand when the
  call returns or throws.
\<close>

section \<open>readPacketInternal\<close>

partial_function (option) readInternal_loop ::
  "('w, 't) env \<Rightarrow> (byte list \<Rightarrow> int) \<Rightarrow> ptr \<Rightarrow> bool \<Rightarrow> nat \<Rightarrow> byte list \<Rightarrow> 't driver \<Rightarrow> 'w
     \<Rightarrow> ((exn + nat \<times> bool) \<times> 't driver \<times> byte list \<times> 'w) option" where
  "readInternal_loop env ext p received_something packet_size buffer d w =
     (case io_read env p (nat (MAX_PACKET_SIZE d - int (internal_buffer_size d))) w of
        (Inl e, w1) \<Rightarrow> Some (Inl e, d, buffer, w1)
      | (Inr bs, w1) \<Rightarrow>
          if bs = [] then Some (Inr (packet_size, received_something), d, buffer, w1)
          else
            (case mem_store (internal_buffer d) (internal_buffer_size d) bs of
               Inl e \<Rightarrow> Some (Inl e, d, buffer, w1)
             | Inr ib \<Rightarrow>
                 let w2 = notify_read env (m_listeners d) bs w1;
                     d1 = d\<lparr>internal_buffer := ib,
                            internal_buffer_size := internal_buffer_size d + length bs\<rparr> in
                 (case doPacketExtraction env ext buffer d1 w2 of
                    (Inl e, d2, buffer', w3) \<Rightarrow> Some (Inl e, d2, buffer', w3)
                  | (Inr new_packet, d2, buffer', w3) \<Rightarrow>
                      if new_packet \<noteq> 0 \<and> \<not> m_extract_last d2
                      then Some (Inr (new_packet, True), d2, buffer', w3)
                      else
                        let packet_size' = (if new_packet \<noteq> 0 then new_packet else packet_size) in
                        if int (internal_buffer_size d2) = MAX_PACKET_SIZE d2
                        then Some (Inl LengthError, d2, buffer', w3)
                        else readInternal_loop env ext p True packet_size' buffer' d2 w3)))"

definition readPacketInternal ::
  "('w, 't) env \<Rightarrow> (byte list \<Rightarrow> int) \<Rightarrow> byte list \<Rightarrow> int \<Rightarrow> 't driver \<Rightarrow> 'w
     \<Rightarrow> ((exn + nat \<times> bool) \<times> 't driver \<times> byte list \<times> 'w) option" where
  "readPacketInternal env ext buffer out_buffer_size d w =
     (if out_buffer_size < MAX_PACKET_SIZE d then Some (Inl LengthError, d, buffer, w)
      else
        (case (if 0 < internal_buffer_size d then doPacketExtraction env ext buffer d w
               else (Inr 0, d, buffer, w)) of
           (Inl e, s) \<Rightarrow> Some (Inl e, s)
         | (Inr packet_size, d1, buffer', w1) \<Rightarrow>
             if packet_size \<noteq> 0 \<and> \<not> m_extract_last d1
             then Some (Inr (packet_size, False), d1, buffer', w1)
             else
               (case m_stream d1 of
                  None \<Rightarrow> Some (Inl UndefinedBehaviour, d1, buffer', w1)
                | Some p \<Rightarrow> readInternal_loop env ext p False packet_size buffer' d1 w1)))"

section \<open>readPacket\<close>

partial_function (option) readPacket_loop ::
  "('w, 't::linordered_ab_group_add) env \<Rightarrow> (byte list \<Rightarrow> int) \<Rightarrow> ptr \<Rightarrow> int \<Rightarrow> 't \<Rightarrow> 't
     \<Rightarrow> timeout_type \<Rightarrow> 't \<Rightarrow> byte list \<Rightarrow> 't driver \<Rightarrow> 'w
     \<Rightarrow> ((exn + nat) \<times> 't driver \<times> byte list \<times> 'w) option" where
  "readPacket_loop env ext p buffer_size packet_timeout start_time timeout_type deadline buffer d w =
     Option.bind (readPacketInternal env ext buffer buffer_size d w) (\<lambda>r. case r of
        (Inl e, s) \<Rightarrow> Some (Inl e, s)
      | (Inr (packet_size, read_something), d1, buffer1, w1) \<Rightarrow>
          if 0 < packet_size then Some (Inr packet_size, d1, buffer1, w1)
          else if packet_timeout = 0 then Some (Inl (TimeoutError FIRST_BYTE), d1, buffer1, w1)
          else
            let first_data = (timeout_type = FIRST_BYTE \<and> read_something);
                deadline' = (if first_data then start_time + packet_timeout else deadline);
                timeout_type' = (if first_data then PACKET else timeout_type) in
            (case io_now env w1 of (now, w2) \<Rightarrow>
               if deadline' < now then Some (Inl (TimeoutError timeout_type'), d1, buffer1, w2)
               else
                 (case io_waitRead env p (deadline' - now) w2 of
                    (Inl e, w3) \<Rightarrow> Some (Inl e, d1, buffer1, w3)
                  | (Inr readable, w3) \<Rightarrow>
                      if \<not> readable
                      then Some (Inl (TimeoutError timeout_type'), d1, buffer1, snd (io_now env w3))
                      else readPacket_loop env ext p buffer_size packet_timeout start_time
                             timeout_type' deadline' buffer1 d1 w3)))"

definition readPacket ::
  "('w, 't::linordered_ab_group_add) env \<Rightarrow> (byte list \<Rightarrow> int) \<Rightarrow> byte list \<Rightarrow> int \<Rightarrow> 't \<Rightarrow> 't
     \<Rightarrow> 't driver \<Rightarrow> 'w \<Rightarrow> ((exn + nat) \<times> 't driver \<times> byte list \<times> 'w) option" where
  "readPacket env ext buffer buffer_size packet_timeout fb_timeout d w =
     (if buffer_size < MAX_PACKET_SIZE d then Some (Inl LengthError, d, buffer, w)
      else case m_stream d of
        None \<Rightarrow>
          (case extractPacketFromInternalBuffer env ext buffer d w of
             (Inl e, s) \<Rightarrow> Some (Inl e, s)
           | (Inr (n, _), s) \<Rightarrow>
               if n \<noteq> 0 then Some (Inr n, s) else Some (Inl (TimeoutError PACKET), s))
      | Some p \<Rightarrow>
          let first_byte_timeout = min packet_timeout fb_timeout;
              (start_time, w1) = io_now env w in
          readPacket_loop env ext p buffer_size packet_timeout start_time FIRST_BYTE
            (start_time + first_byte_timeout) buffer d w1)"

text \<open>The overloads; \<open>fromMilliseconds\<close> is \<^verbatim>\<open>base::Time::fromMilliseconds\<close>.\<close>

definition readPacket_default ::
  "('w, 't::linordered_ab_group_add) env \<Rightarrow> (byte list \<Rightarrow> int) \<Rightarrow> byte list \<Rightarrow> int
     \<Rightarrow> 't driver \<Rightarrow> 'w \<Rightarrow> ((exn + nat) \<times> 't driver \<times> byte list \<times> 'w) option" where
  "readPacket_default env ext buffer buffer_size d w =
     readPacket env ext buffer buffer_size (getReadTimeout d) (getReadTimeout d) d w"

definition readPacket_timeout ::
  "('w, 't::linordered_ab_group_add) env \<Rightarrow> (byte list \<Rightarrow> int) \<Rightarrow> byte list \<Rightarrow> int \<Rightarrow> 't
     \<Rightarrow> 't driver \<Rightarrow> 'w \<Rightarrow> ((exn + nat) \<times> 't driver \<times> byte list \<times> 'w) option" where
  "readPacket_timeout env ext buffer buffer_size packet_timeout d w =
     readPacket env ext buffer buffer_size packet_timeout packet_timeout d w"

definition readPacket_ms ::
  "(int \<Rightarrow> 't) \<Rightarrow> ('w, 't::linordered_ab_group_add) env \<Rightarrow> (byte list \<Rightarrow> int) \<Rightarrow> byte list \<Rightarrow> int
     \<Rightarrow> int \<Rightarrow> int \<Rightarrow> 't driver \<Rightarrow> 'w \<Rightarrow> ((exn + nat) \<times> 't driver \<times> byte list \<times> 'w) option" where
  "readPacket_ms fromMilliseconds env ext buffer buffer_size packet_timeout first_byte_timeout d w =
     (let first_byte_timeout' =
        (if first_byte_timeout = - 1 then packet_timeout else first_byte_timeout)
      in readPacket env ext buffer buffer_size
           (fromMilliseconds packet_timeout) (fromMilliseconds first_byte_timeout') d w)"

section \<open>readRaw\<close>

text \<open>The driver itself does not change in the loop.\<close>

partial_function (option) readRaw_loop ::
  "('w, 't::linordered_ab_group_add) env \<Rightarrow> ptr \<Rightarrow> ptr list \<Rightarrow> int \<Rightarrow> 't \<Rightarrow> 't
     \<Rightarrow> nat \<Rightarrow> 't \<Rightarrow> 't \<Rightarrow> bool \<Rightarrow> 't \<Rightarrow> byte list \<Rightarrow> 'w
     \<Rightarrow> ((exn + nat) \<times> byte list \<times> 'w) option" where
  "readRaw_loop env p listeners out_buffer_size packet_timeout inter_byte_timeout
     buffer_fill global_deadline last_char received_bytes now buffer w =
     (if int buffer_fill < out_buffer_size \<and> now \<le> global_deadline then
        let deadline = min global_deadline (last_char + inter_byte_timeout) in
        (case io_waitRead env p (deadline - now) w of
           (Inl e, w1) \<Rightarrow> Some (Inl e, buffer, w1)
         | (Inr readable, w1) \<Rightarrow>
             if \<not> readable then Some (Inr buffer_fill, buffer, w1)
             else
             (case io_read env p (nat (out_buffer_size - int buffer_fill)) w1 of
                (Inl e, w2) \<Rightarrow> Some (Inl e, buffer, w2)
              | (Inr bs, w2) \<Rightarrow>
                  (case mem_store buffer buffer_fill bs of
                     Inl e \<Rightarrow> Some (Inl e, buffer, w2)
                   | Inr buffer' \<Rightarrow>
                       (case io_now env w2 of (now', w3) \<Rightarrow>
                       if bs \<noteq> [] then
                         readRaw_loop env p listeners out_buffer_size packet_timeout
                           inter_byte_timeout (buffer_fill + length bs)
                           (if \<not> received_bytes then now' + packet_timeout else global_deadline)
                           now' True now' buffer' (notify_read env listeners bs w3)
                       else
                         readRaw_loop env p listeners out_buffer_size packet_timeout
                           inter_byte_timeout buffer_fill global_deadline last_char
                           received_bytes now' buffer' w3))))
      else Some (Inr buffer_fill, buffer, w))"

definition readRaw ::
  "('w, 't::linordered_ab_group_add) env \<Rightarrow> byte list \<Rightarrow> int \<Rightarrow> 't \<Rightarrow> 't \<Rightarrow> 't
     \<Rightarrow> 't driver \<Rightarrow> 'w \<Rightarrow> ((exn + nat) \<times> 't driver \<times> byte list \<times> 'w) option" where
  "readRaw env buffer out_buffer_size packet_timeout fb_timeout ib_timeout d w =
     (case m_stream d of
        None \<Rightarrow> Some (Inl RuntimeError, d, buffer, w)
      | Some p \<Rightarrow>
          if out_buffer_size < 0 then Some (Inl UndefinedBehaviour, d, buffer, w)
          else
            let buffer_fill = min (internal_buffer_size d) (nat out_buffer_size) in
            (case pullBytesFromInternal buffer 0 buffer_fill d of
               (Inl e, d1, buffer1) \<Rightarrow> Some (Inl e, d1, buffer1, w)
             | (Inr _, d1, buffer1) \<Rightarrow>
                 let first_byte_timeout = min packet_timeout fb_timeout;
                     inter_byte_timeout =
                       (if ib_timeout = 0 then packet_timeout else ib_timeout);
                     (now, w1) = io_now env w in
                 map_option (\<lambda>(r, buffer2, w2). (r, d1, buffer2, w2))
                   (readRaw_loop env p (m_listeners d1) out_buffer_size packet_timeout
                      inter_byte_timeout buffer_fill (now + first_byte_timeout)
                      (now + packet_timeout) False now buffer1 w1)))"

definition readRaw_timeout ::
  "('w, 't::linordered_ab_group_add) env \<Rightarrow> byte list \<Rightarrow> int \<Rightarrow> 't
     \<Rightarrow> 't driver \<Rightarrow> 'w \<Rightarrow> ((exn + nat) \<times> 't driver \<times> byte list \<times> 'w) option" where
  "readRaw_timeout env buffer out_buffer_size timeout d w =
     readRaw env buffer out_buffer_size timeout timeout 0 d w"

definition readRaw_default ::
  "('w, 't::linordered_ab_group_add) env \<Rightarrow> byte list \<Rightarrow> int
     \<Rightarrow> 't driver \<Rightarrow> 'w \<Rightarrow> ((exn + nat) \<times> 't driver \<times> byte list \<times> 'w) option" where
  "readRaw_default env buffer out_buffer_size d w =
     readRaw_timeout env buffer out_buffer_size (getReadTimeout d) d w"

end
