(* ===== verification/Driver_Read_Correct.thy ===== *)
theory Driver_Read_Correct
  imports Driver_Read
begin

text \<open>
  What the reading operations of \<^verbatim>\<open>Driver_Read\<close> guarantee, for any stream that keeps the
  \<open>io_contract\<close> and any subclass that keeps the \<open>packet_extractor\<close> contract. A call is
  described by the events it caused (\<open>io_run\<close>) and by a run of the framing machine
  (\<open>feed\<close>) from the bytes queued before to the bytes queued after.
\<close>

locale driver_env = io_contract env + packet_extractor ext
  for env :: "('w, 't::linordered_ab_group_add) env" and ext

section \<open>The postcondition of a reading call\<close>

definition reads_as ::
  "(byte list \<Rightarrow> int) \<Rightarrow> ptr \<Rightarrow> 't driver \<Rightarrow> 't event list \<Rightarrow> byte list list \<Rightarrow> 't driver \<Rightarrow> bool" where
  "reads_as ext p d es ps d' \<longleftrightarrow>
     driver_wf d' \<and> same_config d d'
     \<and> (\<exists>g. feed ext (queued d) (bytes_read p es) ps g (queued d')
          \<and> (\<not> m_extract_last d \<longrightarrow> bad_rx (m_stats d') = bad_rx (m_stats d) + of_nat g))
     \<and> good_rx (m_stats d') = good_rx (m_stats d) + of_nat (length (concat ps))
     \<and> (\<forall>l \<in> set (m_listeners d). listener_read l es = bytes_read p es)
     \<and> reads_from p es"

lemma reads_asD:
  assumes "reads_as ext p d es ps d'"
  shows "driver_wf d'" "same_config d d'"
    "good_rx (m_stats d') = good_rx (m_stats d) + of_nat (length (concat ps))"
    "l \<in> set (m_listeners d) \<Longrightarrow> listener_read l es = bytes_read p es"
    "reads_from p es"
  using assms by (auto simp: reads_as_def)

lemma reads_asE:
  assumes "reads_as ext p d es ps d'"
  obtains g where "feed ext (queued d) (bytes_read p es) ps g (queued d')"
    "\<not> m_extract_last d \<longrightarrow> bad_rx (m_stats d') = bad_rx (m_stats d) + of_nat g"
  using assms by (auto simp: reads_as_def)

lemma reads_as_refl: "driver_wf d \<Longrightarrow> quiet es \<Longrightarrow> reads_as ext p d es [] d"
  by (auto simp: reads_as_def quiet_traffic quiet_reads_from intro!: exI [of _ 0] feed_none)

lemma reads_as_trans:
  assumes "reads_as ext p d es ps d1" "reads_as ext p d1 fs qs d2"
  shows "reads_as ext p d (es @ fs) (ps @ qs) d2"
proof -
  obtain g where g: "feed ext (queued d) (bytes_read p es) ps g (queued d1)"
    "\<not> m_extract_last d \<longrightarrow> bad_rx (m_stats d1) = bad_rx (m_stats d) + of_nat g"
    using assms(1) by (rule reads_asE)
  obtain h where h: "feed ext (queued d1) (bytes_read p fs) qs h (queued d2)"
    "\<not> m_extract_last d1 \<longrightarrow> bad_rx (m_stats d2) = bad_rx (m_stats d1) + of_nat h"
    using assms(2) by (rule reads_asE)
  note c = reads_asD(2) [OF assms(1)]
  have "feed ext (queued d) (bytes_read p (es @ fs)) (ps @ qs) (g + h) (queued d2)"
    using feed_trans [OF h(1) g(1)] by simp
  moreover have "\<not> m_extract_last d \<longrightarrow> bad_rx (m_stats d2) = bad_rx (m_stats d) + of_nat (g + h)"
    using g(2) h(2) same_configD(4) [OF c] by (simp add: add.assoc)
  moreover have "same_config d d2"
    using c reads_asD(2) [OF assms(2)] by (rule same_config_trans)
  moreover have "good_rx (m_stats d2) = good_rx (m_stats d) + of_nat (length (concat (ps @ qs)))"
    using reads_asD(3) [OF assms(1)] reads_asD(3) [OF assms(2)] by (simp add: add.assoc)
  moreover have "\<forall>l \<in> set (m_listeners d). listener_read l (es @ fs) = bytes_read p (es @ fs)"
    using reads_asD(4) [OF assms(1)] reads_asD(4) [OF assms(2)] same_configD(3) [OF c] by simp
  ultimately show ?thesis
    using reads_asD(1) [OF assms(2)] reads_asD(5) [OF assms(1)] reads_asD(5) [OF assms(2)]
    by (auto simp: reads_as_def)
qed

text \<open>Only \<open>readPacket\<close> and \<open>readRaw\<close> wait on the stream, and none of them writes.\<close>

fun is_wait :: "'t event \<Rightarrow> bool" where
  "is_wait (EvWaitRead p t r) = True"
| "is_wait _ = False"

definition nowait :: "'t event list \<Rightarrow> bool" where
  "nowait es \<longleftrightarrow> (\<forall>e \<in> set es. \<not> is_wait e \<and> \<not> is_write e)"

lemma nowait_simps [simp]:
  "nowait []" "nowait (e # es) \<longleftrightarrow> \<not> is_wait e \<and> \<not> is_write e \<and> nowait es"
  "nowait (es @ fs) \<longleftrightarrow> nowait es \<and> nowait fs"
  "nowait (map (\<lambda>l. EvReadData l bs) ls)"
  by (auto simp: nowait_def)

lemma quiet_nowait: "quiet es \<Longrightarrow> nowait es"
  by (auto simp: quiet_def nowait_def)

text \<open>The caller's array starts with the last packet emitted, and \<open>n\<close> is its size.\<close>

definition delivers :: "nat \<Rightarrow> byte list list \<Rightarrow> nat \<Rightarrow> byte list \<Rightarrow> bool" where
  "delivers m ps n buffer \<longleftrightarrow> n \<le> m
     \<and> (if ps = [] then n = 0 else 0 < n \<and> take n buffer = last ps)"

lemma delivers_Nil [simp]: "delivers m [] n buffer \<longleftrightarrow> n = 0"
  by (auto simp: delivers_def)

lemma delivers_append:
  "delivers m ps n buffer \<Longrightarrow> qs = [] \<longrightarrow> buffer' = buffer \<and> k = n
     \<Longrightarrow> qs \<noteq> [] \<longrightarrow> 0 < k \<and> k \<le> m \<and> take k buffer' = last qs \<Longrightarrow> delivers m (ps @ qs) k buffer'"
  by (cases "qs = []") (auto simp: delivers_def)

text \<open>Nothing in the queue is decided: the driver needs more bytes.\<close>

definition undecided :: "(byte list \<Rightarrow> int) \<Rightarrow> 't driver \<Rightarrow> bool" where
  "undecided ext d \<longleftrightarrow> queued d = [] \<or> ext (queued d) = 0"

context driver_env
begin

lemma extraction_reads:
  assumes "driver_wf d" "0 < internal_buffer_size d" "nat (MAX_PACKET_SIZE d) \<le> length buffer"
    and "delivers (nat (MAX_PACKET_SIZE d)) ps0 n buffer"
  obtains ps sz d' buffer' w' es where
    "doPacketExtraction env ext buffer d w = (Inr sz, d', buffer', w')"
    "io_run env w es w'" "quiet es" "reads_as ext p d es ps d'" "length buffer' = length buffer"
    "delivers (nat (MAX_PACKET_SIZE d)) (ps0 @ ps) (if sz \<noteq> 0 then sz else n) buffer'"
    "ps = [] \<longleftrightarrow> sz = 0"
    "\<not> m_extract_last d \<longrightarrow> length ps \<le> 1 \<and> (ps = [] \<longrightarrow> undecided ext d')"
    "m_extract_last d \<longrightarrow> ps = packets ext (queued d)"
proof -
  have size: "internal_buffer_size d \<le> nat (MAX_PACKET_SIZE d)"
    using assms(1) by (simp add: driver_wf_def)
  with assms(3) have "internal_buffer_size d \<le> length buffer" by simp
  then obtain ps g sz d' buffer' w' es where r:
    "doPacketExtraction env ext buffer d w = (Inr sz, d', buffer', w')"
    "driver_wf d'" "same_config d d'" "io_run env w es w'" "quiet es"
    "feed ext (queued d) [] ps g (queued d')" "length buffer' = length buffer"
    "ps = [] \<longrightarrow> sz = 0 \<and> buffer' = buffer"
    "ps \<noteq> [] \<longrightarrow> 0 < sz \<and> sz \<le> internal_buffer_size d \<and> take sz buffer' = last ps"
    "good_rx (m_stats d') = good_rx (m_stats d) + of_nat (length (concat ps))"
    "\<not> m_extract_last d \<longrightarrow> length ps \<le> 1 \<and> bad_rx (m_stats d') = bad_rx (m_stats d) + of_nat g
       \<and> (ps = [] \<longrightarrow> queued d' = [] \<or> ext (queued d') = 0)"
    "m_extract_last d \<longrightarrow> ps = packets ext (queued d)"
    by (rule doPacketExtraction_feed [OF assms(1,2), of buffer env w])
  show thesis
  proof (rule that [of sz d' buffer' w' es ps])
    show "reads_as ext p d es ps d'"
      using r(2,3,6,10,11) quiet_traffic [OF r(5)] quiet_reads_from [OF r(5)] by (auto simp: reads_as_def)
    show "delivers (nat (MAX_PACKET_SIZE d)) (ps0 @ ps) (if sz \<noteq> 0 then sz else n) buffer'"
      by (rule delivers_append [OF assms(4)]) (use r(8,9) size in auto)
  qed (use r in \<open>auto simp: undecided_def\<close>)
qed

text \<open>Appending what one read delivered to the internal buffer.\<close>

lemma receive_reads:
  assumes "driver_wf d" and len: "length bs \<le> nat (MAX_PACKET_SIZE d - int (internal_buffer_size d))"
    and "io_read env p k w = (Inr bs, w1)"
  obtains ib where
    "mem_store (internal_buffer d) (internal_buffer_size d) bs = Inr ib"
    "reads_as ext p d (EvRead p k (Inr bs) # map (\<lambda>l. EvReadData l bs) (m_listeners d)) []
       (d\<lparr>internal_buffer := ib, internal_buffer_size := internal_buffer_size d + length bs\<rparr>)"
    "queued (d\<lparr>internal_buffer := ib, internal_buffer_size := internal_buffer_size d + length bs\<rparr>)
       = queued d @ bs"
    "io_run env w (EvRead p k (Inr bs) # map (\<lambda>l. EvReadData l bs) (m_listeners d))
       (notify_read env (m_listeners d) bs w1)"
proof -
  have fits: "internal_buffer_size d + length bs \<le> length (internal_buffer d)"
    using assms(1) len by (auto simp: driver_wf_def)
  then obtain ib where ib: "mem_store (internal_buffer d) (internal_buffer_size d) bs = Inr ib"
    by (simp add: mem_store_def)
  let ?d = "d\<lparr>internal_buffer := ib, internal_buffer_size := internal_buffer_size d + length bs\<rparr>"
  have q: "queued ?d = queued d @ bs"
    using mem_store_take [OF ib] by (simp add: queued_def)
  have "driver_wf ?d"
    using assms(1) fits mem_store_length [OF ib] by (simp add: driver_wf_def)
  moreover have "feed ext (queued d) bs [] 0 (queued ?d)"
    unfolding q by (rule feed_receive)
  moreover have "distinct (m_listeners d)" using assms(1) by (simp add: driver_wf_def)
  ultimately have "reads_as ext p d (EvRead p k (Inr bs) # map (\<lambda>l. EvReadData l bs) (m_listeners d)) [] ?d"
    by (auto simp: reads_as_def notify_shown intro!: exI [of _ 0])
  moreover have "io_run env w (EvRead p k (Inr bs) # map (\<lambda>l. EvReadData l bs) (m_listeners d))
      (notify_read env (m_listeners d) bs w1)"
    using assms(3) notify_read_run by auto
  ultimately show thesis using ib q by (intro that) auto
qed

end

section \<open>readPacketInternal\<close>

text \<open>What one call, or the rest of its loop, may end in. \<open>ps0\<close> are the packets of the call
  so far, \<open>rs\<close> whether it has already received something.\<close>

definition internal_post ::
  "(byte list \<Rightarrow> int) \<Rightarrow> ptr \<Rightarrow> byte list list \<Rightarrow> bool \<Rightarrow> 't driver \<Rightarrow> 't event list \<Rightarrow> byte list list
     \<Rightarrow> exn + nat \<times> bool \<Rightarrow> 't driver \<Rightarrow> byte list \<Rightarrow> bool" where
  "internal_post ext p ps0 rs d es ps res d' buffer' \<longleftrightarrow>
     (case res of
        Inr (m, rs') \<Rightarrow>
          delivers (nat (MAX_PACKET_SIZE d)) (ps0 @ ps) m buffer'
          \<and> rs' = (rs \<or> bytes_read p es \<noteq> [])
          \<and> (\<not> m_extract_last d \<longrightarrow> length ps \<le> 1 \<and> (undecided ext d \<longrightarrow> m = 0 \<longrightarrow> undecided ext d'))
      | Inl e \<Rightarrow>
          (e = LengthError \<and> int (internal_buffer_size d') = MAX_PACKET_SIZE d'
           \<or> (\<exists>k. EvRead p k (Inl e) \<in> set es))
          \<and> (\<not> m_extract_last d \<longrightarrow> ps = []))"

text \<open>When the loop may be entered, and what a returning run of it achieves.\<close>

definition loop_pre :: "byte list list \<Rightarrow> nat \<Rightarrow> byte list \<Rightarrow> 't driver \<Rightarrow> bool" where
  "loop_pre ps0 n buffer d \<longleftrightarrow> driver_wf d \<and> nat (MAX_PACKET_SIZE d) \<le> length buffer
     \<and> delivers (nat (MAX_PACKET_SIZE d)) ps0 n buffer \<and> (\<not> m_extract_last d \<longrightarrow> ps0 = [])"

definition loop_ok ::
  "('w, 't) env \<Rightarrow> (byte list \<Rightarrow> int) \<Rightarrow> ptr \<Rightarrow> byte list list \<Rightarrow> bool \<Rightarrow> byte list \<Rightarrow> 't driver \<Rightarrow> 'w
     \<Rightarrow> (exn + nat \<times> bool) \<times> 't driver \<times> byte list \<times> 'w \<Rightarrow> bool" where
  "loop_ok env ext p ps0 rs buffer d w r \<longleftrightarrow> (case r of (res, d', buffer', w') \<Rightarrow>
     \<exists>es ps. io_run env w es w' \<and> nowait es \<and> reads_as ext p d es ps d'
       \<and> length buffer' = length buffer \<and> internal_post ext p ps0 rs d es ps res d' buffer')"

context driver_env
begin

text \<open>A round that goes on, then the rest of the loop.\<close>

lemma internal_post_compose:
  assumes "reads_as ext p d es ps d2" "bytes_read p es \<noteq> []"
    and "\<not> m_extract_last d \<longrightarrow> ps = [] \<and> undecided ext d2"
    and "internal_post ext p (ps0 @ ps) True d2 fs qs res d' buffer'"
  shows "internal_post ext p ps0 rs d (es @ fs) (ps @ qs) res d' buffer'"
  using assms same_configD [OF reads_asD(2) [OF assms(1)]]
  by (auto simp: internal_post_def split: sum.splits)

text \<open>One round of the loop that received something.\<close>

lemma round_reads:
  assumes "driver_wf d" "nat (MAX_PACKET_SIZE d) \<le> length buffer"
    and "delivers (nat (MAX_PACKET_SIZE d)) ps0 n buffer"
    and "io_read env p (nat (MAX_PACKET_SIZE d - int (internal_buffer_size d))) w = (Inr bs, w1)"
    and "bs \<noteq> []"
  obtains ib ps sz d2 buffer' w3 es where
    "mem_store (internal_buffer d) (internal_buffer_size d) bs = Inr ib"
    "doPacketExtraction env ext buffer
       (d\<lparr>internal_buffer := ib, internal_buffer_size := internal_buffer_size d + length bs\<rparr>)
       (notify_read env (m_listeners d) bs w1) = (Inr sz, d2, buffer', w3)"
    "io_run env w es w3" "reads_as ext p d es ps d2" "length buffer' = length buffer"
    "bytes_read p es = bs" "nowait es"
    "delivers (nat (MAX_PACKET_SIZE d)) (ps0 @ ps) (if sz \<noteq> 0 then sz else n) buffer'"
    "ps = [] \<longleftrightarrow> sz = 0"
    "\<not> m_extract_last d \<longrightarrow> length ps \<le> 1 \<and> (ps = [] \<longrightarrow> undecided ext d2)"
    "m_extract_last d \<longrightarrow> ps = packets ext (queued d @ bs)"
proof -
  obtain ib where ib:
    "mem_store (internal_buffer d) (internal_buffer_size d) bs = Inr ib"
    "reads_as ext p d (EvRead p (nat (MAX_PACKET_SIZE d - int (internal_buffer_size d))) (Inr bs)
        # map (\<lambda>l. EvReadData l bs) (m_listeners d)) []
       (d\<lparr>internal_buffer := ib, internal_buffer_size := internal_buffer_size d + length bs\<rparr>)"
    "queued (d\<lparr>internal_buffer := ib, internal_buffer_size := internal_buffer_size d + length bs\<rparr>)
       = queued d @ bs"
    "io_run env w (EvRead p (nat (MAX_PACKET_SIZE d - int (internal_buffer_size d))) (Inr bs)
        # map (\<lambda>l. EvReadData l bs) (m_listeners d)) (notify_read env (m_listeners d) bs w1)"
    by (rule receive_reads [OF assms(1) read_bound [OF assms(4)] assms(4)])
  let ?d1 = "d\<lparr>internal_buffer := ib, internal_buffer_size := internal_buffer_size d + length bs\<rparr>"
  have pre: "driver_wf ?d1" "0 < internal_buffer_size ?d1"
    "nat (MAX_PACKET_SIZE ?d1) \<le> length buffer" "delivers (nat (MAX_PACKET_SIZE ?d1)) ps0 n buffer"
    using reads_asD(1) [OF ib(2)] assms by simp_all
  obtain ps sz d2 buffer' w3 es where r:
    "doPacketExtraction env ext buffer ?d1 (notify_read env (m_listeners d) bs w1) = (Inr sz, d2, buffer', w3)"
    "io_run env (notify_read env (m_listeners d) bs w1) es w3" "quiet es" "reads_as ext p ?d1 es ps d2"
    "length buffer' = length buffer"
    "delivers (nat (MAX_PACKET_SIZE ?d1)) (ps0 @ ps) (if sz \<noteq> 0 then sz else n) buffer'"
    "ps = [] \<longleftrightarrow> sz = 0"
    "\<not> m_extract_last ?d1 \<longrightarrow> length ps \<le> 1 \<and> (ps = [] \<longrightarrow> undecided ext d2)"
    "m_extract_last ?d1 \<longrightarrow> ps = packets ext (queued ?d1)"
    by (rule extraction_reads [OF pre])
  note run = io_run_appendI [OF ib(4) r(2)] and reads = reads_as_trans [OF ib(2) r(4)]
  show thesis
    by (rule that [OF ib(1) r(1) run]) (use reads r ib(3) quiet_traffic [OF r(3)] quiet_nowait [OF r(3)] in auto)
qed

lemma loop_ok_throw:
  assumes "loop_pre ps0 n buffer d" "io_read env p k w = (Inl e, w1)"
  shows "loop_ok env ext p ps0 rs buffer d w (Inl e, d, buffer, w1)"
  unfolding loop_ok_def prod.case
  by (rule exI [of _ "[EvRead p k (Inl e)]"], rule exI [of _ "[]"])
    (use assms in \<open>auto simp: loop_pre_def internal_post_def reads_as_def intro!: exI [of _ 0] feed_none\<close>)

lemma loop_ok_dry:
  assumes "loop_pre ps0 n buffer d" "io_read env p k w = (Inr [], w1)"
  shows "loop_ok env ext p ps0 rs buffer d w (Inr (n, rs), d, buffer, w1)"
  unfolding loop_ok_def prod.case
  by (rule exI [of _ "[EvRead p k (Inr [])]"], rule exI [of _ "[]"])
    (use assms in \<open>auto simp: loop_pre_def internal_post_def reads_as_def intro!: exI [of _ 0] feed_none\<close>)

lemma loop_ok_more:
  assumes "io_run env w es w3" "nowait es" "reads_as ext p d es ps d2" "length buffer2 = length buffer"
    and "bytes_read p es \<noteq> []" "\<not> m_extract_last d \<longrightarrow> ps = [] \<and> undecided ext d2"
    and "loop_ok env ext p (ps0 @ ps) True buffer2 d2 w3 r"
  shows "loop_ok env ext p ps0 rs buffer d w r"
proof -
  obtain res d' buffer' w' where r: "r = (res, d', buffer', w')" by (cases r)
  with assms(7) obtain fs qs where "io_run env w3 fs w'" "nowait fs" "reads_as ext p d2 fs qs d'"
    "length buffer' = length buffer2" "internal_post ext p (ps0 @ ps) True d2 fs qs res d' buffer'"
    by (auto simp: loop_ok_def)
  with assms(1-6) have "io_run env w (es @ fs) w' \<and> nowait (es @ fs) \<and> reads_as ext p d (es @ fs) (ps @ qs) d'
    \<and> length buffer' = length buffer \<and> internal_post ext p ps0 rs d (es @ fs) (ps @ qs) res d' buffer'"
    by (auto intro: io_run_appendI reads_as_trans internal_post_compose)
  then show ?thesis unfolding r loop_ok_def prod.case by blast
qed

text \<open>The body of the loop, over any continuation \<open>f\<close> that is correct.\<close>

lemma loop_ok_round:
  assumes pre: "loop_pre ps0 n buffer d"
    and rd: "io_read env p (nat (MAX_PACKET_SIZE d - int (internal_buffer_size d))) w = (Inr bs, w1)"
    and "bs \<noteq> []"
    and f: "\<And>ps0 n buffer d w r. f True n buffer d w = Some r \<Longrightarrow> loop_pre ps0 n buffer d
      \<Longrightarrow> loop_ok env ext p ps0 True buffer d w r"
    and eq: "(case mem_store (internal_buffer d) (internal_buffer_size d) bs of
        Inl e \<Rightarrow> Some (Inl e, d, buffer, w1)
      | Inr ib \<Rightarrow>
          let w2 = notify_read env (m_listeners d) bs w1;
              d1 = d\<lparr>internal_buffer := ib, internal_buffer_size := internal_buffer_size d + length bs\<rparr> in
          (case doPacketExtraction env ext buffer d1 w2 of
             (Inl e, d2, buffer', w3) \<Rightarrow> Some (Inl e, d2, buffer', w3)
           | (Inr new_packet, d2, buffer', w3) \<Rightarrow>
               if new_packet \<noteq> 0 \<and> \<not> m_extract_last d2
               then Some (Inr (new_packet, True), d2, buffer', w3)
               else
                 let packet_size' = (if new_packet \<noteq> 0 then new_packet else n) in
                 if int (internal_buffer_size d2) = MAX_PACKET_SIZE d2
                 then Some (Inl LengthError, d2, buffer', w3)
                 else f True packet_size' buffer' d2 w3)) = Some r"
  shows "loop_ok env ext p ps0 rs buffer d w r"
proof -
  have pre': "driver_wf d" "nat (MAX_PACKET_SIZE d) \<le> length buffer"
    "delivers (nat (MAX_PACKET_SIZE d)) ps0 n buffer" "\<not> m_extract_last d \<longrightarrow> ps0 = []"
    using pre by (simp_all add: loop_pre_def)
  obtain ib ps sz d2 buffer2 w3 es where b:
    "mem_store (internal_buffer d) (internal_buffer_size d) bs = Inr ib"
    "doPacketExtraction env ext buffer
       (d\<lparr>internal_buffer := ib, internal_buffer_size := internal_buffer_size d + length bs\<rparr>)
       (notify_read env (m_listeners d) bs w1) = (Inr sz, d2, buffer2, w3)"
    "io_run env w es w3" "reads_as ext p d es ps d2" "length buffer2 = length buffer"
    "bytes_read p es = bs" "nowait es"
    "delivers (nat (MAX_PACKET_SIZE d)) (ps0 @ ps) (if sz \<noteq> 0 then sz else n) buffer2"
    "ps = [] \<longleftrightarrow> sz = 0"
    "\<not> m_extract_last d \<longrightarrow> length ps \<le> 1 \<and> (ps = [] \<longrightarrow> undecided ext d2)"
    by (rule round_reads [OF pre'(1-3) rd \<open>bs \<noteq> []\<close>])
  have cfg: "m_extract_last d2 = m_extract_last d" "MAX_PACKET_SIZE d2 = MAX_PACKET_SIZE d"
    using same_configD [OF reads_asD(2) [OF b(4)]] by simp_all
  have body: "(if sz \<noteq> 0 \<and> \<not> m_extract_last d then Some (Inr (sz, True), d2, buffer2, w3)
    else if int (internal_buffer_size d2) = MAX_PACKET_SIZE d2 then Some (Inl LengthError, d2, buffer2, w3)
    else f True (if sz \<noteq> 0 then sz else n) buffer2 d2 w3) = Some r"
    using eq unfolding b(1) sum.case Let_def b(2) prod.case cfg(1) .
  consider (ret) "sz \<noteq> 0 \<and> \<not> m_extract_last d" "r = (Inr (sz, True), d2, buffer2, w3)"
    | (full) "\<not> (sz \<noteq> 0 \<and> \<not> m_extract_last d)" "int (internal_buffer_size d2) = MAX_PACKET_SIZE d2"
        "r = (Inl LengthError, d2, buffer2, w3)"
    | (more) "\<not> (sz \<noteq> 0 \<and> \<not> m_extract_last d)"
        "f True (if sz \<noteq> 0 then sz else n) buffer2 d2 w3 = Some r"
    using body by (metis option.inject)
  then show ?thesis
  proof cases
    case more
    with b pre' cfg have "loop_pre (ps0 @ ps) (if sz \<noteq> 0 then sz else n) buffer2 d2"
      using reads_asD(1) [OF b(4)] by (auto simp: loop_pre_def)
    note rest = f [OF more(2) this]
    show ?thesis
      by (rule loop_ok_more [OF b(3) _ b(4,5) _ _ rest]) (use b \<open>bs \<noteq> []\<close> more in auto)
  qed (use b cfg \<open>bs \<noteq> []\<close> in \<open>auto simp: loop_ok_def internal_post_def intro!: exI [of _ es] exI [of _ ps]\<close>)
qed

lemma readInternal_loop_correct:
  assumes "readInternal_loop env ext p rs n buffer d w = Some r" "loop_pre ps0 n buffer d"
  shows "loop_ok env ext p ps0 rs buffer d w r"
proof -
  let ?P = "\<lambda>env' ext' p' rs n buffer d w r. \<forall>ps0. env' = env \<longrightarrow> ext' = ext \<longrightarrow> p' = p \<longrightarrow>
    loop_pre ps0 n buffer d \<longrightarrow> loop_ok env ext p ps0 rs buffer d w r"
  have "?P env ext p rs n buffer d w r"
  proof (rule readInternal_loop.raw_induct [where P = ?P, OF _ assms(1)], intro allI impI, goal_cases)
    case (1 f env' ext' p' rs n buffer d w r ps0)
    let ?k = "nat (MAX_PACKET_SIZE d - int (internal_buffer_size d))"
    obtain rr w1 where rd: "io_read env p ?k w = (rr, w1)" by fastforce
    consider e where "rr = Inl e" | "rr = Inr []" | bs where "rr = Inr bs" "bs \<noteq> []"
      by (cases rr) auto
    then show ?case
    proof cases
      case (3 bs)
      note rd = rd [unfolded 3(1)]
      show ?thesis
        by (rule loop_ok_round [OF 1(6) rd 3(2), of "f env ext p"])
          (use 1 rd 3(2) in auto)
    qed (use 1 rd in \<open>auto intro: loop_ok_throw loop_ok_dry\<close>)
  qed
  with assms(2) show ?thesis by blast
qed

end

text \<open>\<open>readPacketInternal\<close> itself: what the stream had has been read and cut.\<close>

definition internal_ok ::
  "('w, 't) env \<Rightarrow> (byte list \<Rightarrow> int) \<Rightarrow> ptr \<Rightarrow> byte list \<Rightarrow> 't driver \<Rightarrow> 'w
     \<Rightarrow> (exn + nat \<times> bool) \<times> 't driver \<times> byte list \<times> 'w \<Rightarrow> bool" where
  "internal_ok env ext p buffer d w r \<longleftrightarrow> (case r of (res, d', buffer', w') \<Rightarrow>
     \<exists>es ps. io_run env w es w' \<and> nowait es \<and> reads_as ext p d es ps d'
       \<and> length buffer' = length buffer
       \<and> (case res of
            Inr (m, rs) \<Rightarrow> delivers (nat (MAX_PACKET_SIZE d)) ps m buffer'
              \<and> rs = (bytes_read p es \<noteq> [])
              \<and> (\<not> m_extract_last d \<longrightarrow> length ps \<le> 1 \<and> (m = 0 \<longrightarrow> undecided ext d'))
          | Inl e \<Rightarrow>
              (e = LengthError \<and> int (internal_buffer_size d') = MAX_PACKET_SIZE d'
               \<or> (\<exists>k. EvRead p k (Inl e) \<in> set es))
              \<and> (\<not> m_extract_last d \<longrightarrow> ps = [])))"

context driver_env
begin

lemma internal_ok_loop:
  assumes "io_run env w es w1" "quiet es" "reads_as ext p d es ps d1" "length buffer1 = length buffer"
    and "\<not> m_extract_last d \<longrightarrow> ps = [] \<and> undecided ext d1"
    and "loop_ok env ext p ps False buffer1 d1 w1 r"
  shows "internal_ok env ext p buffer d w r"
proof -
  obtain res d' buffer' w' where r: "r = (res, d', buffer', w')" by (cases r)
  with assms(6) obtain fs qs where l: "io_run env w1 fs w'" "nowait fs" "reads_as ext p d1 fs qs d'"
    "length buffer' = length buffer1" "internal_post ext p ps False d1 fs qs res d' buffer'"
    by (auto simp: loop_ok_def)
  note cfg = same_configD [OF reads_asD(2) [OF assms(3)]]
  have "io_run env w (es @ fs) w'" using assms(1) l(1) by (rule io_run_appendI)
  moreover have "reads_as ext p d (es @ fs) (ps @ qs) d'" using assms(3) l(3) by (rule reads_as_trans)
  ultimately show ?thesis
    unfolding r internal_ok_def prod.case
    by (intro exI [of _ "es @ fs"] exI [of _ "ps @ qs"])
      (use l assms cfg quiet_traffic [OF assms(2)] quiet_nowait [OF assms(2)] in
        \<open>auto simp: internal_post_def split: sum.splits\<close>)
qed

lemma readPacketInternal_correct:
  assumes run: "readPacketInternal env ext buffer bufsize d w = Some r"
    and wf: "driver_wf d" and p: "m_stream d = Some p"
    and big: "MAX_PACKET_SIZE d \<le> bufsize" "nat (MAX_PACKET_SIZE d) \<le> length buffer"
  shows "internal_ok env ext p buffer d w r"
proof (cases "internal_buffer_size d = 0")
  case True
  with run p big have "readInternal_loop env ext p False 0 buffer d w = Some r"
    by (auto simp: readPacketInternal_def)
  then have loop: "loop_ok env ext p [] False buffer d w r"
    using wf big by (intro readInternal_loop_correct) (auto simp: loop_pre_def)
  have "undecided ext d" using True by (simp add: undecided_def queued_def)
  then show ?thesis
    by (intro internal_ok_loop [OF _ _ _ _ _ loop, of w "[]" d]) (use wf in \<open>auto intro: reads_as_refl\<close>)
next
  case False
  obtain ps sz d1 buffer1 w1 es where e:
    "doPacketExtraction env ext buffer d w = (Inr sz, d1, buffer1, w1)"
    "io_run env w es w1" "quiet es" "reads_as ext p d es ps d1" "length buffer1 = length buffer"
    "delivers (nat (MAX_PACKET_SIZE d)) ps (if sz \<noteq> 0 then sz else 0) buffer1"
    "ps = [] \<longleftrightarrow> sz = 0"
    "\<not> m_extract_last d \<longrightarrow> length ps \<le> 1 \<and> (ps = [] \<longrightarrow> undecided ext d1)"
    by (rule extraction_reads [of d buffer "[]" 0 w p]) (use wf big False in auto)
  note cfg = same_configD [OF reads_asD(2) [OF e(4)]]
  show ?thesis
  proof (cases "sz \<noteq> 0 \<and> \<not> m_extract_last d1")
    case True
    with run big False e(1) have "r = (Inr (sz, False), d1, buffer1, w1)"
      by (auto simp: readPacketInternal_def)
    with True e cfg quiet_traffic [OF e(3)] quiet_nowait [OF e(3)] show ?thesis
      unfolding internal_ok_def by (auto intro!: exI [of _ es] exI [of _ ps])
  next
    case go: False
    with run big False e(1) p cfg have "readInternal_loop env ext p False sz buffer1 d1 w1 = Some r"
      by (auto simp: readPacketInternal_def)
    moreover have "loop_pre ps sz buffer1 d1"
      using e cfg big go reads_asD(1) [OF e(4)] by (auto simp: loop_pre_def split: if_splits)
    ultimately have loop: "loop_ok env ext p ps False buffer1 d1 w1 r"
      by (rule readInternal_loop_correct)
    show ?thesis
      by (rule internal_ok_loop [OF e(2-5) _ loop]) (use e(7,8) go cfg in auto)
  qed
qed

end

end
