(* ===== verification/Read_Packet_Correct.thy ===== *)
theory Read_Packet_Correct
  imports Driver_Read_Correct
begin

text \<open>
  Correctness of \<open>readPacket\<close>: what it returns, which exception it throws and why, and
  how long it waits.
\<close>

section \<open>Waiting\<close>

text \<open>Every wait on the stream is for a non-negative time that ends, counted from the last
  reading of the clock, no later than \<open>limit\<close>.\<close>

fun waits_within :: "'t::linordered_ab_group_add \<Rightarrow> 't \<Rightarrow> 't event list \<Rightarrow> bool" where
  "waits_within limit now [] = True"
| "waits_within limit now (EvNow t # es) = waits_within limit t es"
| "waits_within limit now (EvWaitRead p t r # es) =
     (0 \<le> t \<and> now + t \<le> limit \<and> waits_within limit now es)"
| "waits_within limit now (_ # es) = waits_within limit now es"

lemma waits_within_append:
  "waits_within limit now es \<Longrightarrow> \<forall>t. waits_within limit t fs \<Longrightarrow> waits_within limit now (es @ fs)"
  by (induction limit now es rule: waits_within.induct) auto

lemma waits_within_nowait: "nowait es \<Longrightarrow> waits_within limit now es"
proof (induction es arbitrary: now)
  case (Cons e es)
  then show ?case by (cases e) auto
qed simp

section \<open>What readPacket may end in\<close>

definition stream_threw :: "ptr \<Rightarrow> exn \<Rightarrow> 't event list \<Rightarrow> bool" where
  "stream_threw p e es \<longleftrightarrow>
     (\<exists>k. EvRead p k (Inl e) \<in> set es) \<or> (\<exists>t. EvWaitRead p t (Inl e) \<in> set es)"

lemma stream_threw_append [simp]:
  "stream_threw p e (es @ fs) \<longleftrightarrow> stream_threw p e es \<or> stream_threw p e fs"
  by (auto simp: stream_threw_def)

text \<open>A timeout is due: no waiting was allowed, the stream reported a wait that ended without
  data, or the clock was read past the instant \<open>lo\<close>.\<close>

definition expired :: "ptr \<Rightarrow> 't::linordered_ab_group_add \<Rightarrow> 't \<Rightarrow> 't event list \<Rightarrow> bool" where
  "expired p packet_timeout lo es \<longleftrightarrow> packet_timeout = 0
     \<or> (\<exists>t. EvWaitRead p t (Inr False) \<in> set es) \<or> (\<exists>t. EvNow t \<in> set es \<and> lo < t)"

lemma expired_append [simp]:
  "expired p pt lo es \<Longrightarrow> expired p pt lo (fs @ es)"
  by (auto simp: expired_def)

text \<open>Why a call throws; \<open>tt\<close> is the kind of timeout it was waiting for at its start, \<open>lo\<close> the
  deadline for the first byte, \<open>limit\<close> the deadline for the packet.\<close>

definition throw_reason ::
  "(byte list \<Rightarrow> int) \<Rightarrow> ptr \<Rightarrow> 't::linordered_ab_group_add \<Rightarrow> 't \<Rightarrow> 't \<Rightarrow> timeout_type \<Rightarrow> 't event list
     \<Rightarrow> byte list list \<Rightarrow> exn \<Rightarrow> 't driver \<Rightarrow> bool" where
  "throw_reason ext p pt lo limit tt es ps e d' \<longleftrightarrow>
     e = TimeoutError FIRST_BYTE \<and> ps = [] \<and> expired p pt lo es
       \<and> (pt = 0 \<or> tt = FIRST_BYTE \<and> bytes_read p es = [])
       \<and> (\<not> m_extract_last d' \<longrightarrow> undecided ext d')
     \<or> e = TimeoutError PACKET \<and> ps = [] \<and> expired p pt limit es
       \<and> (tt = PACKET \<or> bytes_read p es \<noteq> [])
       \<and> (\<not> m_extract_last d' \<longrightarrow> undecided ext d')
     \<or> e = LengthError \<and> int (internal_buffer_size d') = MAX_PACKET_SIZE d'
     \<or> stream_threw p e es"

definition packet_post ::
  "(byte list \<Rightarrow> int) \<Rightarrow> ptr \<Rightarrow> 't::linordered_ab_group_add \<Rightarrow> 't \<Rightarrow> 't \<Rightarrow> timeout_type \<Rightarrow> 't driver
     \<Rightarrow> 't event list \<Rightarrow> byte list list \<Rightarrow> exn + nat \<Rightarrow> 't driver \<Rightarrow> byte list \<Rightarrow> bool" where
  "packet_post ext p pt lo limit tt d es ps res d' buffer' \<longleftrightarrow>
     (case res of
        Inr n \<Rightarrow> ps \<noteq> [] \<and> delivers (nat (MAX_PACKET_SIZE d)) ps n buffer'
          \<and> (\<not> m_extract_last d \<longrightarrow> length ps = 1)
      | Inl e \<Rightarrow> throw_reason ext p pt lo limit tt es ps e d' \<and> (\<not> m_extract_last d \<longrightarrow> ps = []))"

definition packet_ok ::
  "('w, 't) env \<Rightarrow> (byte list \<Rightarrow> int) \<Rightarrow> ptr \<Rightarrow> 't::linordered_ab_group_add \<Rightarrow> 't \<Rightarrow> 't
     \<Rightarrow> timeout_type \<Rightarrow> byte list \<Rightarrow> 't driver \<Rightarrow> 'w
     \<Rightarrow> (exn + nat) \<times> 't driver \<times> byte list \<times> 'w \<Rightarrow> bool" where
  "packet_ok env ext p pt lo limit tt buffer d w r \<longleftrightarrow> (case r of (res, d', buffer', w') \<Rightarrow>
     \<exists>es ps. io_run env w es w' \<and> reads_as ext p d es ps d' \<and> length buffer' = length buffer
       \<and> (\<forall>t. waits_within limit t es) \<and> packet_post ext p pt lo limit tt d es ps res d' buffer')"

text \<open>When the loop may be entered.\<close>

definition packet_pre ::
  "ptr \<Rightarrow> int \<Rightarrow> 't::linordered_ab_group_add \<Rightarrow> 't \<Rightarrow> 't \<Rightarrow> 't \<Rightarrow> timeout_type \<Rightarrow> 't
     \<Rightarrow> byte list \<Rightarrow> 't driver \<Rightarrow> bool" where
  "packet_pre p bufsize pt start lo limit tt deadline buffer d \<longleftrightarrow>
     driver_wf d \<and> m_stream d = Some p \<and> MAX_PACKET_SIZE d \<le> bufsize
     \<and> nat (MAX_PACKET_SIZE d) \<le> length buffer \<and> tt \<noteq> NONE
     \<and> lo \<le> deadline \<and> deadline \<le> limit \<and> limit = start + pt \<and> (tt = PACKET \<longrightarrow> deadline = limit)"

text \<open>Events of the clock and of waits that move no data.\<close>

definition idle_events :: "ptr \<Rightarrow> 't::linordered_ab_group_add \<Rightarrow> 't event list \<Rightarrow> bool" where
  "idle_events p limit fs \<longleftrightarrow> bytes_read p fs = [] \<and> reads_from p fs
     \<and> (\<forall>l. listener_read l fs = []) \<and> (\<forall>t. waits_within limit t fs)"

context driver_env
begin

text \<open>One pass of \<open>readPacketInternal\<close> that neither returned a packet nor threw, then the
  events \<open>fs\<close> of the clock and the wait.\<close>

lemma packet_post_timeout:
  assumes "reads_as ext p d es [] d1" "nowait es" "tt \<noteq> NONE" "bytes_read p fs = []"
    and "tt' = (if tt = FIRST_BYTE \<and> bytes_read p es \<noteq> [] then PACKET else tt)"
    and "expired p pt (if tt' = PACKET then limit else lo) fs"
    and "\<not> m_extract_last d1 \<longrightarrow> undecided ext d1"
  shows "packet_post ext p pt lo limit tt d (es @ fs) [] (Inl (TimeoutError tt')) d1 buffer'"
  using assms by (cases tt) (auto simp: packet_post_def throw_reason_def)

lemma packet_post_later:
  assumes "reads_as ext p d es [] d1" "nowait es" "bytes_read p fs = []"
    and "tt' = (if tt = FIRST_BYTE \<and> bytes_read p es \<noteq> [] then PACKET else tt)"
    and "packet_post ext p pt lo limit tt' d1 gs ps res d' buffer'"
  shows "packet_post ext p pt lo limit tt d (es @ fs @ gs) ps res d' buffer'"
  using assms(5) same_configD [OF reads_asD(2) [OF assms(1)]] assms(3,4)
  by (auto simp: packet_post_def throw_reason_def split: sum.splits if_splits)

lemma reads_as_idle:
  assumes "driver_wf d" "bytes_read p fs = []" "reads_from p fs" "\<forall>l. listener_read l fs = []"
  shows "reads_as ext p d fs [] d"
  using assms by (auto simp: reads_as_def intro!: exI [of _ 0] feed_none)

lemma packet_ok_stop:
  assumes "io_run env w es w1" "nowait es" "reads_as ext p d es [] d1" "length buffer1 = length buffer"
    and "io_run env w1 fs w2" "idle_events p limit fs"
    and "packet_post ext p pt lo limit tt d (es @ fs) [] (Inl e) d1 buffer1"
  shows "packet_ok env ext p pt lo limit tt buffer d w (Inl e, d1, buffer1, w2)"
proof -
  have "\<forall>t. waits_within limit t (es @ fs)"
    using assms(2,6) by (auto simp: idle_events_def intro: waits_within_append waits_within_nowait)
  moreover have "reads_as ext p d1 fs [] d1"
    using assms(6) reads_asD(1) [OF assms(3)] by (intro reads_as_idle) (auto simp: idle_events_def)
  from reads_as_trans [OF assms(3) this] have "reads_as ext p d (es @ fs) [] d1" by simp
  ultimately show ?thesis
    using assms io_run_appendI [OF assms(1,5)] unfolding packet_ok_def by blast
qed

lemma packet_ok_go:
  assumes "io_run env w es w1" "nowait es" "reads_as ext p d es [] d1" "length buffer1 = length buffer"
    and "io_run env w1 fs w2" "idle_events p limit fs"
    and "tt' = (if tt = FIRST_BYTE \<and> bytes_read p es \<noteq> [] then PACKET else tt)"
    and "packet_ok env ext p pt lo limit tt' buffer1 d1 w2 r"
  shows "packet_ok env ext p pt lo limit tt buffer d w r"
proof -
  obtain res d' buffer' w' where r: "r = (res, d', buffer', w')" by (cases r)
  with assms(8) obtain gs ps where g: "io_run env w2 gs w'" "reads_as ext p d1 gs ps d'"
    "length buffer' = length buffer1" "\<forall>t. waits_within limit t gs"
    "packet_post ext p pt lo limit tt' d1 gs ps res d' buffer'"
    by (auto simp: packet_ok_def)
  have "\<forall>t. waits_within limit t (es @ fs @ gs)"
    using waits_within_nowait [OF assms(2)] assms(6) g(4)
    by (metis idle_events_def waits_within_append)
  moreover have "reads_as ext p d1 fs [] d1"
    using assms(6) reads_asD(1) [OF assms(3)] by (intro reads_as_idle) (auto simp: idle_events_def)
  from reads_as_trans [OF assms(3) reads_as_trans [OF this g(2)]]
  have "reads_as ext p d (es @ fs @ gs) ps d'" by simp
  moreover have "packet_post ext p pt lo limit tt d (es @ fs @ gs) ps res d' buffer'"
    by (rule packet_post_later [OF assms(3,2) _ assms(7) g(5)]) (use assms(6) in \<open>simp add: idle_events_def\<close>)
  ultimately show ?thesis
    using assms(4) g(3) io_run_appendI [OF assms(1) io_run_appendI [OF assms(5) g(1)]]
    unfolding r packet_ok_def prod.case by (metis (no_types))
qed

text \<open>The part of the loop body after \<open>readPacketInternal\<close> has returned without a packet.\<close>

lemma packet_ok_wait:
  fixes packet_timeout start limit :: 't
  assumes es: "io_run env w es w1" "nowait es" "reads_as ext p d es [] d1" "length buffer1 = length buffer"
    and pre: "packet_pre p bufsize packet_timeout start lo limit tt deadline buffer d"
    and nz: "packet_timeout \<noteq> 0" and und: "\<not> m_extract_last d1 \<longrightarrow> undecided ext d1"
    and tt': "first_data = (tt = FIRST_BYTE \<and> bytes_read p es \<noteq> [])"
      "deadline' = (if first_data then start + packet_timeout else deadline)"
      "tt' = (if first_data then PACKET else tt)"
    and f: "\<And>w. f tt' deadline' buffer1 d1 w = Some r \<Longrightarrow>
      packet_pre p bufsize packet_timeout start lo limit tt' deadline' buffer1 d1 \<Longrightarrow>
      packet_ok env ext p packet_timeout lo limit tt' buffer1 d1 w r"
    and eq: "(case io_now env w1 of (now, w2) \<Rightarrow>
       if deadline' < now then Some (Inl (TimeoutError tt'), d1, buffer1, w2)
       else
         (case io_waitRead env p (deadline' - now) w2 of
            (Inl e, w3) \<Rightarrow> Some (Inl e, d1, buffer1, w3)
          | (Inr readable, w3) \<Rightarrow>
              if \<not> readable
              then Some (Inl (TimeoutError tt'), d1, buffer1, snd (io_now env w3))
              else f tt' deadline' buffer1 d1 w3)) = Some r"
  shows "packet_ok env ext p packet_timeout lo limit tt buffer d w r"
proof -
  obtain now w2 where now: "io_now env w1 = (now, w2)" by fastforce
  obtain rr w3 where wait: "io_waitRead env p (deadline' - now) w2 = (rr, w3)" by fastforce
  have tt: "tt \<noteq> NONE" "lo \<le> deadline'" "deadline' \<le> limit"
    using pre tt' by (auto simp: packet_pre_def)
  have wf: "driver_wf d1" using es(3) by (rule reads_asD(1))
  note tt'' = tt'(3) [unfolded tt'(1)]
  consider (late) "deadline' < now" | (threw) e where "\<not> deadline' < now" "rr = Inl e"
    | (idle) "\<not> deadline' < now" "rr = Inr False" | (ready) "\<not> deadline' < now" "rr = Inr True"
    by (cases rr) auto
  then show ?thesis
  proof cases
    case late
    have "packet_post ext p packet_timeout lo limit tt d (es @ [EvNow now]) [] (Inl (TimeoutError tt')) d1 buffer1"
      by (rule packet_post_timeout [OF es(3,2) tt(1) _ tt'' _ und]) (use tt late pre tt' in \<open>auto simp: expired_def packet_pre_def\<close>)
    from packet_ok_stop [OF es _ _ this, of w2] eq now late show ?thesis
      by (auto simp: idle_events_def)
  next
    case (threw e)
    let ?fs = "[EvNow now, EvWaitRead p (deadline' - now) (Inl e)]"
    have "packet_post ext p packet_timeout lo limit tt d (es @ ?fs) [] (Inl e) d1 buffer1"
      by (auto simp: packet_post_def throw_reason_def stream_threw_def)
    from packet_ok_stop [OF es _ _ this, of w3] eq now wait threw tt show ?thesis
      by (auto simp: idle_events_def)
  next
    case idle
    obtain t4 w4 where now4: "io_now env w3 = (t4, w4)" by fastforce
    let ?fs = "[EvNow now, EvWaitRead p (deadline' - now) (Inr False), EvNow t4]"
    have "packet_post ext p packet_timeout lo limit tt d (es @ ?fs) [] (Inl (TimeoutError tt')) d1 buffer1"
      by (rule packet_post_timeout [OF es(3,2) tt(1) _ tt'' _ und]) (auto simp: expired_def)
    from packet_ok_stop [OF es _ _ this, of w4] eq now wait idle now4 tt show ?thesis
      by (auto simp: idle_events_def)
  next
    case ready
    let ?fs = "[EvNow now, EvWaitRead p (deadline' - now) (Inr True)]"
    have run: "io_run env w1 ?fs w3" "idle_events p limit ?fs"
      using now wait ready tt by (auto simp: idle_events_def)
    have "packet_pre p bufsize packet_timeout start lo limit tt' deadline' buffer1 d1"
      using pre tt' tt es(4) wf same_configD [OF reads_asD(2) [OF es(3)]] by (auto simp: packet_pre_def)
    moreover have "f tt' deadline' buffer1 d1 w3 = Some r" using eq now wait ready by simp
    ultimately have "packet_ok env ext p packet_timeout lo limit tt' buffer1 d1 w3 r" by (intro f)
    with es run tt'' show ?thesis by (rule packet_ok_go)
  qed
qed

section \<open>The loop and readPacket\<close>

lemma packet_ok_threw:
  assumes "io_run env w es w1" "nowait es" "reads_as ext p d es ps d1" "length buffer1 = length buffer"
    and "e = LengthError \<and> int (internal_buffer_size d1) = MAX_PACKET_SIZE d1 \<or> stream_threw p e es"
    and "\<not> m_extract_last d \<longrightarrow> ps = []"
  shows "packet_ok env ext p pt lo limit tt buffer d w (Inl e, d1, buffer1, w1)"
  unfolding packet_ok_def prod.case
  by (rule exI [of _ es], rule exI [of _ ps])
    (use assms waits_within_nowait [OF assms(2)] in \<open>auto simp: packet_post_def throw_reason_def\<close>)

lemma packet_ok_return:
  assumes "io_run env w es w1" "nowait es" "reads_as ext p d es ps d1" "length buffer1 = length buffer"
    and "delivers (nat (MAX_PACKET_SIZE d)) ps n buffer1" "0 < n" "\<not> m_extract_last d \<longrightarrow> length ps \<le> 1"
  shows "packet_ok env ext p pt lo limit tt buffer d w (Inr n, d1, buffer1, w1)"
proof -
  have "ps \<noteq> []" using assms(5,6) by (auto simp: delivers_def)
  moreover from this assms(7) have "\<not> m_extract_last d \<longrightarrow> length ps = 1" by (cases ps) auto
  ultimately show ?thesis
    unfolding packet_ok_def prod.case
    by (intro exI [of _ es] exI [of _ ps])
      (use assms waits_within_nowait [OF assms(2)] in \<open>auto simp: packet_post_def\<close>)
qed

lemma readPacket_loop_correct:
  assumes "readPacket_loop env ext p bufsize pt start tt deadline buffer d w = Some r"
    and "packet_pre p bufsize pt start lo limit tt deadline buffer d"
  shows "packet_ok env ext p pt lo limit tt buffer d w r"
proof -
  let ?P = "\<lambda>env' ext' p' bufsize' pt' start' tt deadline buffer d w r.
    env' = env \<longrightarrow> ext' = ext \<longrightarrow> p' = p \<longrightarrow> bufsize' = bufsize \<longrightarrow> pt' = pt \<longrightarrow> start' = start \<longrightarrow>
    packet_pre p bufsize pt start lo limit tt deadline buffer d \<longrightarrow>
    packet_ok env ext p pt lo limit tt buffer d w r"
  have "?P env ext p bufsize pt start tt deadline buffer d w r"
  proof (rule readPacket_loop.raw_induct [where P = ?P, OF _ assms(1)], intro impI, goal_cases)
    case (1 f env' ext' p' bufsize' pt' start' tt deadline buffer d w r)
    note [simp] = 1(3-8)
    have pre: "driver_wf d" "m_stream d = Some p" "MAX_PACKET_SIZE d \<le> bufsize"
      "nat (MAX_PACKET_SIZE d) \<le> length buffer"
      using 1(9) by (simp_all add: packet_pre_def)
    from 1(2) obtain res d1 buffer1 w1 where int:
      "readPacketInternal env ext buffer bufsize d w = Some (res, d1, buffer1, w1)"
      by (auto simp: bind_eq_Some_conv)
    from readPacketInternal_correct [OF this pre] obtain es ps where i:
      "io_run env w es w1" "nowait es" "reads_as ext p d es ps d1" "length buffer1 = length buffer"
      and res: "case res of
            Inr (m, rs) \<Rightarrow> delivers (nat (MAX_PACKET_SIZE d)) ps m buffer1
              \<and> rs = (bytes_read p es \<noteq> [])
              \<and> (\<not> m_extract_last d \<longrightarrow> length ps \<le> 1 \<and> (m = 0 \<longrightarrow> undecided ext d1))
          | Inl e \<Rightarrow>
              (e = LengthError \<and> int (internal_buffer_size d1) = MAX_PACKET_SIZE d1
               \<or> (\<exists>k. EvRead p k (Inl e) \<in> set es))
              \<and> (\<not> m_extract_last d \<longrightarrow> ps = [])"
      unfolding internal_ok_def prod.case by blast
    consider e where "res = Inl e" | n rs where "res = Inr (n, rs)" "0 < n"
      | rs where "res = Inr (0, rs)" by (metis old.sum.exhaust neq0_conv surj_pair)
    then show ?case
    proof cases
      case (1 e)
      with res \<open>_ = Some r\<close> int show ?thesis
        by (auto simp: stream_threw_def intro!: packet_ok_threw [OF i])
    next
      case (2 n rs)
      with res \<open>_ = Some r\<close> int show ?thesis
        by (auto intro!: packet_ok_return [OF i])
    next
      case (3 rs)
      then have ps: "ps = []" and rs: "rs = (bytes_read p es \<noteq> [])"
        using res by (auto simp: delivers_def split: if_splits)
      note i = i [unfolded ps]
      have und: "\<not> m_extract_last d1 \<longrightarrow> undecided ext d1"
        using res 3 same_configD(4) [OF reads_asD(2) [OF i(3)]] by auto
      show ?thesis
      proof (cases "pt = 0")
        case True
        have "packet_post ext p pt lo limit tt d (es @ []) [] (Inl (TimeoutError FIRST_BYTE)) d1 buffer1"
          using True und by (auto simp: packet_post_def throw_reason_def expired_def)
        from packet_ok_stop [OF i _ _ this, of w1] True \<open>_ = Some r\<close> int 3 show ?thesis
          by (auto simp: idle_events_def)
      next
        case False
        let ?first = "tt = FIRST_BYTE \<and> bytes_read p es \<noteq> []"
        show ?thesis
        proof (rule packet_ok_wait [OF i 1(9) False und refl refl refl, of "\<lambda>tt dl b d w. f env ext p bufsize pt start tt dl b d w" r])
          fix w
          assume "f env ext p bufsize pt start (if ?first then PACKET else tt)
              (if ?first then start + pt else deadline) buffer1 d1 w = Some r"
            and "packet_pre p bufsize pt start lo limit (if ?first then PACKET else tt)
              (if ?first then start + pt else deadline) buffer1 d1"
          then show "packet_ok env ext p pt lo limit (if ?first then PACKET else tt) buffer1 d1 w r"
            using 1(1) by auto
        qed (use False 1(2) [unfolded 1(3-8) int 3(1) rs Option.bind.simps prod.case sum.case Let_def]
            in simp)
      qed
    qed
  qed
  with assms(2) show ?thesis by blast
qed

lemma readPacket_meets_spec:
  assumes run: "readPacket env ext buffer bufsize pt fb d w = Some r"
    and d: "driver_wf d" "m_stream d = Some p"
    and big: "MAX_PACKET_SIZE d \<le> bufsize" "nat (MAX_PACKET_SIZE d) \<le> length buffer"
    and now: "io_now env w = (t0, w1)"
  shows "packet_ok env ext p pt (t0 + min pt fb) (t0 + pt) FIRST_BYTE buffer d w1 r"
proof (rule readPacket_loop_correct)
  show "readPacket_loop env ext p bufsize pt t0 FIRST_BYTE (t0 + min pt fb) buffer d w1 = Some r"
    using run d(2) big(1) now by (auto simp: readPacket_def Let_def)
qed (use d big in \<open>auto simp: packet_pre_def\<close>)

end

end
