(* ===== verification/Test_Stream.thy ===== *)
theory Test_Stream
  imports Iodrivers_Prelude
begin

text \<open>
  \<^verbatim>\<open>src/src/TestStream.cpp\<close>: the stream that stands in for a device, with its mock mode
  (expected requests and canned replies), and \<^verbatim>\<open>src/src/IOListener.cpp\<close>: the listener
  that records the traffic. Both are plain states with one function per method.
\<close>

section \<open>TestStream\<close>

record test_stream =
  to_driver :: "byte list"
  from_driver :: "byte list"
  expectations :: "byte list list"
  replies :: "byte list list"
  m_mock_mode :: bool
  m_eof :: bool

definition TestStream_init :: test_stream where
  "TestStream_init = \<lparr>to_driver = [], from_driver = [], expectations = [], replies = [],
     m_mock_mode = False, m_eof = False\<rparr>"

definition pushDataToDriver :: "byte list \<Rightarrow> test_stream \<Rightarrow> test_stream" where
  "pushDataToDriver data s = s\<lparr>to_driver := to_driver s @ data\<rparr>"

definition readDataFromDriver :: "test_stream \<Rightarrow> byte list \<times> test_stream" where
  "readDataFromDriver s = (from_driver s, s\<lparr>from_driver := []\<rparr>)"

text \<open>Neither wait looks at its timeout.\<close>

definition TestStream_waitRead :: "'t \<Rightarrow> test_stream \<Rightarrow> bool" where
  "TestStream_waitRead timeout s = (to_driver s \<noteq> [])"

definition TestStream_waitWrite :: "'t \<Rightarrow> test_stream \<Rightarrow> bool" where
  "TestStream_waitWrite timeout s = True"

definition EXPECT_REPLY :: "byte list \<Rightarrow> byte list \<Rightarrow> test_stream \<Rightarrow> (exn + unit) \<times> test_stream" where
  "EXPECT_REPLY expectation reply s =
     (if \<not> m_mock_mode s then (Inl MockContextException, s)
      else (Inr (), s\<lparr>expectations := expectations s @ [expectation],
                      replies := replies s @ [reply]\<rparr>))"

definition TestStream_read :: "nat \<Rightarrow> test_stream \<Rightarrow> byte list \<times> test_stream" where
  "TestStream_read buffer_size s =
     (let read_size = min (length (to_driver s)) buffer_size
      in (take read_size (to_driver s), s\<lparr>to_driver := drop read_size (to_driver s)\<rparr>))"

text \<open>\<^verbatim>\<open>front\<close> of an empty list of replies is undefined; \<open>test_stream_wf\<close> excludes it.\<close>

definition TestStream_write :: "byte list \<Rightarrow> test_stream \<Rightarrow> (exn + nat) \<times> test_stream" where
  "TestStream_write buffer s =
     (let s1 = s\<lparr>from_driver := from_driver s @ buffer\<rparr> in
      if m_mock_mode s then
        (case expectations s1 of
           [] \<Rightarrow> (Inl RuntimeError, s1)
         | e # es \<Rightarrow>
             if from_driver s1 = e then
               (case replies s1 of
                  [] \<Rightarrow> (Inl UndefinedBehaviour, s1)
                | r # rs \<Rightarrow>
                    (Inr (length buffer),
                     s1\<lparr>to_driver := to_driver s1 @ r, from_driver := [],
                        expectations := es, replies := rs\<rparr>))
             else (Inl InvalidArgument, s1\<lparr>expectations := [], replies := []\<rparr>))
      else (Inr (length buffer), s1))"

definition TestStream_clear :: "test_stream \<Rightarrow> test_stream" where
  "TestStream_clear s = s\<lparr>to_driver := []\<rparr>"

definition clearExpectations :: "test_stream \<Rightarrow> test_stream" where
  "clearExpectations s = s\<lparr>expectations := [], replies := []\<rparr>"

definition expectationsAreEmpty :: "test_stream \<Rightarrow> bool" where
  "expectationsAreEmpty s = (expectations s = [])"

definition setMockMode :: "bool \<Rightarrow> test_stream \<Rightarrow> test_stream" where
  "setMockMode mode s = s\<lparr>m_mock_mode := mode, from_driver := []\<rparr>"

definition TestStream_eof :: "test_stream \<Rightarrow> bool" where
  "TestStream_eof s = m_eof s"

definition setEOF :: "bool \<Rightarrow> test_stream \<Rightarrow> test_stream" where
  "setEOF flag s = s\<lparr>m_eof := flag\<rparr>"

subsection \<open>Invariant\<close>

definition test_stream_wf :: "test_stream \<Rightarrow> bool" where
  "test_stream_wf s \<longleftrightarrow> length (expectations s) = length (replies s)"

lemma test_stream_wf_ops:
  "test_stream_wf TestStream_init"
  "test_stream_wf s \<Longrightarrow> test_stream_wf (pushDataToDriver data s)"
  "test_stream_wf s \<Longrightarrow> test_stream_wf (snd (readDataFromDriver s))"
  "test_stream_wf s \<Longrightarrow> test_stream_wf (snd (EXPECT_REPLY e r s))"
  "test_stream_wf s \<Longrightarrow> test_stream_wf (snd (TestStream_read n s))"
  "test_stream_wf s \<Longrightarrow> test_stream_wf (TestStream_clear s)"
  "test_stream_wf s \<Longrightarrow> test_stream_wf (clearExpectations s)"
  "test_stream_wf s \<Longrightarrow> test_stream_wf (setMockMode m s)"
  "test_stream_wf s \<Longrightarrow> test_stream_wf (setEOF b s)"
  by (simp_all add: test_stream_wf_def TestStream_init_def pushDataToDriver_def
      readDataFromDriver_def EXPECT_REPLY_def TestStream_read_def TestStream_clear_def
      clearExpectations_def setMockMode_def setEOF_def Let_def)

lemma test_stream_wf_write:
  "test_stream_wf s \<Longrightarrow> test_stream_wf (snd (TestStream_write bs s))"
  by (auto simp: test_stream_wf_def TestStream_write_def Let_def split: list.splits)

lemma TestStream_write_defined:
  "test_stream_wf s \<Longrightarrow> fst (TestStream_write bs s) \<noteq> Inl UndefinedBehaviour"
  by (auto simp: test_stream_wf_def TestStream_write_def Let_def split: list.splits)

subsection \<open>Behaviour\<close>

lemma TestStream_read_split:
  "TestStream_read n s = (bs, s') \<Longrightarrow>
     to_driver s = bs @ to_driver s' \<and> length bs = min (length (to_driver s)) n
     \<and> (bs = [] \<longleftrightarrow> n = 0 \<or> \<not> TestStream_waitRead t s)"
  by (auto simp: TestStream_read_def TestStream_waitRead_def Let_def min_def split: if_splits)

lemma TestStream_write_plain:
  "\<not> m_mock_mode s \<Longrightarrow>
     TestStream_write bs s = (Inr (length bs), s\<lparr>from_driver := from_driver s @ bs\<rparr>)"
  by (simp add: TestStream_write_def Let_def)

lemma TestStream_write_bound: "TestStream_write bs s = (Inr c, s') \<Longrightarrow> c = length bs"
  by (auto simp: TestStream_write_def Let_def split: if_splits list.splits)

text \<open>
  The mock protocol, over a whole conversation: the requests written one after the other are
  accepted exactly when they are the first expectations, in order; the canned replies are
  then queued for the driver in the same order.
\<close>

fun write_all :: "byte list list \<Rightarrow> test_stream \<Rightarrow> (exn + unit) \<times> test_stream" where
  "write_all [] s = (Inr (), s)"
| "write_all (m # ms) s =
     (case TestStream_write m s of (Inl e, s') \<Rightarrow> (Inl e, s') | (Inr _, s') \<Rightarrow> write_all ms s')"

lemma write_all_accepts:
  assumes "m_mock_mode s" "from_driver s = []" "test_stream_wf s"
    and "expectations s = ms @ es"
  shows "write_all ms s =
    (Inr (), s\<lparr>to_driver := to_driver s @ concat (take (length ms) (replies s)),
               expectations := es, replies := drop (length ms) (replies s)\<rparr>)"
  using assms
proof (induction ms arbitrary: s)
  case Nil
  then show ?case by simp
next
  case (Cons m ms)
  from Cons.prems obtain r rs where r: "replies s = r # rs" "length rs = length (ms @ es)"
    by (cases "replies s") (auto simp: test_stream_wf_def)
  let ?s = "s\<lparr>to_driver := to_driver s @ r, expectations := ms @ es, replies := rs\<rparr>"
  have "TestStream_write m s = (Inr (length m), ?s)"
    using Cons.prems r by (simp add: TestStream_write_def Let_def)
  moreover have "write_all ms ?s = (Inr (), ?s\<lparr>to_driver := to_driver ?s @ concat (take (length ms) (replies ?s)),
      expectations := es, replies := drop (length ms) (replies ?s)\<rparr>)"
    using Cons.prems r by (intro Cons.IH) (auto simp: test_stream_wf_def)
  ultimately show ?case using r by simp
qed

lemma write_all_rejects:
  assumes "m_mock_mode s" "from_driver s = []" "test_stream_wf s"
    and "write_all ms s = (Inr (), s')"
  shows "\<exists>es. expectations s = ms @ es \<and> from_driver s' = [] \<and> expectations s' = es"
  using assms
proof (induction ms arbitrary: s)
  case Nil
  then show ?case by simp
next
  case (Cons m ms)
  obtain es where es: "expectations s = m # es"
    using Cons.prems(1,2,4)
    by (auto simp: TestStream_write_def Let_def split: list.splits if_splits)
  from this Cons.prems(3) obtain r rs where r: "replies s = r # rs" "length rs = length es"
    by (cases "replies s") (auto simp: test_stream_wf_def)
  let ?s = "s\<lparr>to_driver := to_driver s @ r, expectations := es, replies := rs\<rparr>"
  have w: "TestStream_write m s = (Inr (length m), ?s)"
    using Cons.prems es r by (simp add: TestStream_write_def Let_def)
  with Cons.prems(4) have "write_all ms ?s = (Inr (), s')" by simp
  from Cons.IH [OF _ _ _ this] Cons.prems es r show ?case
    by (simp add: test_stream_wf_def)
qed

section \<open>BufferListener\<close>

record buffer_listener =
  m_writeBuffer :: "byte list"
  m_readBuffer :: "byte list"

definition BufferListener_init :: buffer_listener where
  "BufferListener_init = \<lparr>m_writeBuffer = [], m_readBuffer = []\<rparr>"

definition flushRead :: "buffer_listener \<Rightarrow> byte list \<times> buffer_listener" where
  "flushRead b = (m_readBuffer b, b\<lparr>m_readBuffer := []\<rparr>)"

definition flushWrite :: "buffer_listener \<Rightarrow> byte list \<times> buffer_listener" where
  "flushWrite b = (m_writeBuffer b, b\<lparr>m_writeBuffer := []\<rparr>)"

definition writeData :: "byte list \<Rightarrow> buffer_listener \<Rightarrow> buffer_listener" where
  "writeData data b = b\<lparr>m_writeBuffer := m_writeBuffer b @ data\<rparr>"

definition readData :: "byte list \<Rightarrow> buffer_listener \<Rightarrow> buffer_listener" where
  "readData data b = b\<lparr>m_readBuffer := m_readBuffer b @ data\<rparr>"

end
