(* ===== verification/Test_World.thy ===== *)
theory Test_World
  imports Driver_Read_Correct Test_Stream
begin

text \<open>
  A world in which the calls of \<^verbatim>\<open>Stream_Interface\<close> are answered by the objects of
  \<^verbatim>\<open>Test_Stream\<close>: a heap of \<^verbatim>\<open>TestStream\<close>s, a heap of \<^verbatim>\<open>BufferListener\<close>s and a clock.
  The contracts are interpreted on it, whatever the clock does; \<open>live_env\<close> on a clock that
  ticks.
\<close>

section \<open>The world\<close>

record 'c world =
  w_streams :: "ptr \<Rightarrow> test_stream option"
  w_listeners :: "ptr \<Rightarrow> buffer_listener option"
  w_clock :: 'c

text \<open>A call through a pointer to no object is undefined.\<close>

definition on_stream ::
  "(test_stream \<Rightarrow> (exn + 'a) \<times> test_stream) \<Rightarrow> ptr \<Rightarrow> 'c world \<Rightarrow> (exn + 'a) \<times> 'c world" where
  "on_stream f p w =
     (case w_streams w p of
        None \<Rightarrow> (Inl UndefinedBehaviour, w)
      | Some s \<Rightarrow> (case f s of (r, s') \<Rightarrow> (r, w\<lparr>w_streams := (w_streams w)(p \<mapsto> s')\<rparr>)))"

definition on_listener ::
  "(buffer_listener \<Rightarrow> buffer_listener) \<Rightarrow> ptr \<Rightarrow> 'c world \<Rightarrow> 'c world" where
  "on_listener f l w = w\<lparr>w_listeners := (w_listeners w)(l := map_option f (w_listeners w l))\<rparr>"

definition tick :: "('c \<Rightarrow> 'x \<times> 'c) \<Rightarrow> 'c world \<Rightarrow> 'x \<times> 'c world" where
  "tick f w = (case f (w_clock w) of (x, c) \<Rightarrow> (x, w\<lparr>w_clock := c\<rparr>))"

definition test_env :: "('c \<Rightarrow> 't \<times> 'c) \<Rightarrow> ('c \<Rightarrow> timeval \<times> 'c) \<Rightarrow> ('c world, 't) env" where
  "test_env now timeofday = \<lparr>
     io_now = tick now,
     io_gettimeofday = tick timeofday,
     io_waitRead = (\<lambda>p t. on_stream (\<lambda>s. (Inr (TestStream_waitRead t s), s)) p),
     io_waitWrite = (\<lambda>p t. on_stream (\<lambda>s. (Inr (TestStream_waitWrite t s), s)) p),
     io_read = (\<lambda>p n. on_stream (\<lambda>s. (case TestStream_read n s of (bs, s') \<Rightarrow> (Inr bs, s'))) p),
     io_write = (\<lambda>p bs. on_stream (TestStream_write bs) p),
     io_clear = (\<lambda>p w. w\<lparr>w_streams := (w_streams w)(p := map_option TestStream_clear (w_streams w p))\<rparr>),
     io_eof = (\<lambda>p w. case w_streams w p of None \<Rightarrow> False | Some s \<Rightarrow> TestStream_eof s),
     io_getFileDescriptor = (\<lambda>p w. - 1),
     io_delete = (\<lambda>p w. w\<lparr>w_streams := (w_streams w)(p := None)\<rparr>),
     li_readData = (\<lambda>l bs. on_listener (readData bs) l),
     li_writeData = (\<lambda>l bs. on_listener (writeData bs) l),
     li_delete = (\<lambda>l w. w\<lparr>w_listeners := (w_listeners w)(l := None)\<rparr>)\<rparr>"

lemma test_env_sel [simp]:
  "io_now (test_env now tod) = tick now"
  "io_gettimeofday (test_env now tod) = tick tod"
  "io_waitRead (test_env now tod) p t = on_stream (\<lambda>s. (Inr (TestStream_waitRead t s), s)) p"
  "io_waitWrite (test_env now tod) p t = on_stream (\<lambda>s. (Inr (TestStream_waitWrite t s), s)) p"
  "io_read (test_env now tod) p n =
     on_stream (\<lambda>s. (case TestStream_read n s of (bs, s') \<Rightarrow> (Inr bs, s'))) p"
  "io_write (test_env now tod) p bs = on_stream (TestStream_write bs) p"
  "li_readData (test_env now tod) l bs = on_listener (readData bs) l"
  "li_writeData (test_env now tod) l bs = on_listener (writeData bs) l"
  by (simp_all add: test_env_def)

section \<open>The contracts hold\<close>

text \<open>The bytes still waiting in a stream.\<close>

definition available :: "ptr \<Rightarrow> 'c world \<Rightarrow> nat" where
  "available p w = (case w_streams w p of None \<Rightarrow> 0 | Some s \<Rightarrow> length (to_driver s))"

lemma available_update [simp]:
  "available p (on_listener f l w) = available p w"
  "available p (w\<lparr>w_clock := c\<rparr>) = available p w"
  by (simp_all add: available_def on_listener_def)

interpretation test: finite_source "test_env now tod" available
  for now :: "'c \<Rightarrow> 't::linordered_ab_group_add \<times> 'c" and tod
proof
  fix p n w bs w'
  assume "io_read (test_env now tod) p n w = (Inr bs, w')"
  then show "length bs \<le> n"
    by (auto simp: on_stream_def TestStream_read_def Let_def split: option.splits prod.splits)
next
  fix p bs w c w'
  assume "io_write (test_env now tod) p bs w = (Inr c, w')"
  then show "c \<le> length bs"
    by (auto simp: on_stream_def split: option.splits prod.splits dest!: TestStream_write_bound)
next
  fix w e w' p
  assume *: "io_step (test_env now tod) w e w'" "\<not> is_write e"
  show "available p w' + length (read_by p e) \<le> available p w"
    using * by (cases "(p, e)" rule: read_by.cases)
      (auto simp: tick_def on_stream_def available_def TestStream_read_def Let_def on_listener_def
        split: option.splits prod.splits if_splits)
qed

text \<open>A clock that advances by one microsecond each time it is read.\<close>

definition ticking :: "int \<Rightarrow> int \<times> int" where
  "ticking c = (c, c + 1)"

definition ticking_timeval :: "int \<Rightarrow> timeval \<times> int" where
  "ticking_timeval c = (\<lparr>tv_sec = c div 1000000, tv_usec = c mod 1000000\<rparr>, c + 1)"

abbreviation clock_env :: "(int world, int) env" where
  "clock_env \<equiv> test_env ticking ticking_timeval"

definition readings :: "int \<Rightarrow> int world \<Rightarrow> nat" where
  "readings d w = nat (d + 1 - w_clock w)"

lemma readings_update [simp]:
  "readings d (on_listener f l w) = readings d w"
  "readings d (w\<lparr>w_streams := m\<rparr>) = readings d w"
  by (simp_all add: readings_def on_listener_def)

interpretation ticking: live_env clock_env available readings
proof
  fix w t w' d
  assume "io_now clock_env w = (t, w')" "t \<le> d"
  then show "readings d w' < readings d w"
    by (auto simp: tick_def ticking_def readings_def)
next
  fix w e w' d
  assume "io_step clock_env w e w'"
  then show "readings d w' \<le> readings d w"
    by (cases e)
      (auto simp: tick_def ticking_def ticking_timeval_def readings_def on_stream_def on_listener_def
        split: option.splits prod.splits)
qed

text \<open>The contracts as facts, for the theorems that name them.\<close>

lemma test_contracts:
  "io_contract (test_env now tod)" "finite_source (test_env now tod) available"
  "live_env clock_env available readings" "moving_clock clock_env readings"
  by unfold_locales

end
