(* ===== verification/Extractors.thy ===== *)
theory Extractors
  imports Test_World
begin

text \<open>
  The subclasses of \<^verbatim>\<open>Driver\<close> that the repository itself contains, each by its
  \<^verbatim>\<open>extractPacket\<close>: \<open>RawIODriver\<close> of \<^verbatim>\<open>src/src/MainCat.cpp\<close> and
  \<^verbatim>\<open>src/src/MainForwarder.cpp\<close>, \<open>DriverTest\<close> of \<^verbatim>\<open>src/test/test_Driver.cpp\<close>,
  \<open>PacketForwardDriver\<close> of \<^verbatim>\<open>src/test/test_Forward.cpp\<close>, the drivers of
  \<^verbatim>\<open>src/test/test_TestStream.cpp\<close>. They keep the contracts, so the theorems about
  reading apply to them.
\<close>

definition RawIODriver_extractPacket :: "byte list \<Rightarrow> int" where
  "RawIODriver_extractPacket buffer = 0"

text \<open>The class of the same name in \<^verbatim>\<open>src/src/MainForwarder.cpp\<close>.\<close>

definition ForwarderDriver_extractPacket :: "byte list \<Rightarrow> int" where
  "ForwarderDriver_extractPacket buffer = 0"

definition DriverTest_extractPacket :: "byte list \<Rightarrow> int" where
  "DriverTest_extractPacket buffer =
     (if buffer ! 0 \<noteq> 0 then - 1
      else if length buffer < 4 then 0
      else if buffer ! 3 = 0 then 4
      else - 4)"

fun PacketForward_scan :: "nat \<Rightarrow> byte list \<Rightarrow> int" where
  "PacketForward_scan i [] = 0"
| "PacketForward_scan i (b # bs) = (if b = 0 then int i + 1 else PacketForward_scan (i + 1) bs)"

definition PacketForwardDriver_extractPacket :: "byte list \<Rightarrow> int" where
  "PacketForwardDriver_extractPacket buffer = PacketForward_scan 0 buffer"

text \<open>This one takes all there is: the contract holds, but a verdict changes with the bytes
  that follow.\<close>

definition WholeBuffer_extractPacket :: "byte list \<Rightarrow> int" where
  "WholeBuffer_extractPacket buffer = int (length buffer)"

definition DriverClassName_extractPacket :: "byte list \<Rightarrow> int" where
  "DriverClassName_extractPacket buffer = min (int (length buffer)) 1"

lemma PacketForward_scan_append:
  "PacketForward_scan i b \<noteq> 0 \<Longrightarrow> PacketForward_scan i (b @ c) = PacketForward_scan i b"
  by (induction i b rule: PacketForward_scan.induct) auto

lemma PacketForward_scan_bounds:
  "0 \<le> PacketForward_scan i b" "PacketForward_scan i b \<le> int (i + length b)"
  by (induction i b rule: PacketForward_scan.induct) auto

interpretation raw: stable_extractor RawIODriver_extractPacket
  by unfold_locales (auto simp: RawIODriver_extractPacket_def)

interpretation forwarder: stable_extractor ForwarderDriver_extractPacket
  by unfold_locales (auto simp: ForwarderDriver_extractPacket_def)

interpretation driver_test: stable_extractor DriverTest_extractPacket
proof
  fix b c :: "byte list"
  assume "b \<noteq> []"
  then have len: "1 \<le> length b" by (cases b) auto
  then show "- int (length b) \<le> DriverTest_extractPacket b" "DriverTest_extractPacket b \<le> int (length b)"
    by (auto simp: DriverTest_extractPacket_def)
  assume "DriverTest_extractPacket b \<noteq> 0"
  with len show "DriverTest_extractPacket (b @ c) = DriverTest_extractPacket b"
    by (auto simp: DriverTest_extractPacket_def nth_append split: if_splits)
qed

interpretation packet_forward: stable_extractor PacketForwardDriver_extractPacket
  by unfold_locales
    (use PacketForward_scan_bounds [of 0] in
      \<open>auto simp: PacketForwardDriver_extractPacket_def PacketForward_scan_append
        intro: order_trans [of _ 0]\<close>)

interpretation whole_buffer: packet_extractor WholeBuffer_extractPacket
  by unfold_locales (auto simp: WholeBuffer_extractPacket_def)

interpretation class_name: stable_extractor DriverClassName_extractPacket
proof
  fix b c :: "byte list"
  assume "b \<noteq> []"
  then have "1 \<le> length b" by (cases b) auto
  then show "- int (length b) \<le> DriverClassName_extractPacket b"
    "DriverClassName_extractPacket b \<le> int (length b)"
    "DriverClassName_extractPacket (b @ c) = DriverClassName_extractPacket b"
    by (auto simp: DriverClassName_extractPacket_def min_def)
qed

text \<open>A driver of the tests, talking to a test stream: the setting of the witnesses.\<close>

interpretation test_driver: driver_env clock_env DriverTest_extractPacket
  by unfold_locales

lemma WholeBuffer_unstable:
  "WholeBuffer_extractPacket [1] = 1 \<and> WholeBuffer_extractPacket ([1] @ [2]) = 2"
  by (simp add: WholeBuffer_extractPacket_def)

lemma extractor_contracts:
  "packet_extractor RawIODriver_extractPacket" "stable_extractor RawIODriver_extractPacket"
  "packet_extractor DriverTest_extractPacket" "stable_extractor DriverTest_extractPacket"
  "packet_extractor PacketForwardDriver_extractPacket"
  "stable_extractor PacketForwardDriver_extractPacket"
  "packet_extractor WholeBuffer_extractPacket"
  by unfold_locales

end
