(* ===== verification/Read_Session.thy ===== *)
theory Read_Session
  imports Read_Packet_Correct Extractors
begin

text \<open>
  Several calls of \<open>readPacket\<close> in a row, on the same driver and stream: whatever the
  timeouts, the chunks in which the bytes arrive and the exceptions in between, the packets
  returned are the packets of the byte sequence, in order. And one call: what its result
  says about the bytes.
\<close>

section \<open>A client that reads\<close>

record 't read_call =
  rc_buffer :: "byte list"
  rc_size :: int
  rc_timeout :: 't
  rc_first_byte :: 't

text \<open>The results, each packet as the bytes the caller finds in its array.\<close>

fun read_calls ::
  "('w, 't::linordered_ab_group_add) env \<Rightarrow> (byte list \<Rightarrow> int) \<Rightarrow> 't read_call list \<Rightarrow> 't driver \<Rightarrow> 'w
     \<Rightarrow> ((exn + byte list) list \<times> 't driver \<times> 'w) option" where
  "read_calls env ext [] d w = Some ([], d, w)"
| "read_calls env ext (c # cs) d w =
     Option.bind (readPacket env ext (rc_buffer c) (rc_size c) (rc_timeout c) (rc_first_byte c) d w)
       (\<lambda>(r, d1, b1, w1). map_option (\<lambda>(rs, s). (map_sum id (\<lambda>n. take n b1) r # rs, s))
          (read_calls env ext cs d1 w1))"

definition good_packets :: "(exn + byte list) list \<Rightarrow> byte list list" where
  "good_packets rs = concat (map (\<lambda>r. case r of Inl e \<Rightarrow> [] | Inr p \<Rightarrow> [p]) rs)"

lemma good_packets_simps [simp]:
  "good_packets [] = []" "good_packets (Inl e # rs) = good_packets rs"
  "good_packets (Inr p # rs) = p # good_packets rs"
  by (simp_all add: good_packets_def)

definition call_ok :: "'t driver \<Rightarrow> 't read_call \<Rightarrow> bool" where
  "call_ok d c \<longleftrightarrow> MAX_PACKET_SIZE d \<le> rc_size c \<and> nat (MAX_PACKET_SIZE d) \<le> length (rc_buffer c)"

section \<open>One call\<close>

context driver_env
begin

lemma readPacket_reads:
  assumes run: "readPacket env ext buffer bufsize pt fb d w = Some (res, d', buffer', w')"
    and d: "driver_wf d" "m_stream d = Some p"
    and big: "MAX_PACKET_SIZE d \<le> bufsize" "nat (MAX_PACKET_SIZE d) \<le> length buffer"
  obtains t0 es ps where
    "io_run env w (EvNow t0 # es) w'" "reads_as ext p d es ps d'" "length buffer' = length buffer"
    "\<forall>t. waits_within (t0 + pt) t es"
    "packet_post ext p pt (t0 + min pt fb) (t0 + pt) FIRST_BYTE d es ps res d' buffer'"
proof -
  obtain t0 w1 where now: "io_now env w = (t0, w1)" by fastforce
  from readPacket_meets_spec [OF run d big now] obtain es ps where
    "io_run env w1 es w'" "reads_as ext p d es ps d'" "length buffer' = length buffer"
    "\<forall>t. waits_within (t0 + pt) t es"
    "packet_post ext p pt (t0 + min pt fb) (t0 + pt) FIRST_BYTE d es ps res d' buffer'"
    unfolding packet_ok_def prod.case by blast
  with now show thesis by (intro that [of t0 es ps]) auto
qed

text \<open>In the default mode a call emits the packet it returns, or nothing.\<close>

lemma readPacket_one:
  assumes run: "readPacket env ext buffer bufsize pt fb d w = Some (res, d', buffer', w')"
    and d: "driver_wf d" "m_stream d = Some p" "\<not> m_extract_last d"
    and big: "MAX_PACKET_SIZE d \<le> bufsize" "nat (MAX_PACKET_SIZE d) \<le> length buffer"
  obtains es where "io_run env w es w'"
    "reads_as ext p d es (good_packets [map_sum id (\<lambda>n. take n buffer') res]) d'"
    "length buffer' = length buffer"
    "\<forall>n. res = Inr n \<longrightarrow> 0 < n \<and> n \<le> nat (MAX_PACKET_SIZE d)"
proof -
  obtain t0 es ps where r: "io_run env w (EvNow t0 # es) w'" "reads_as ext p d es ps d'"
    "length buffer' = length buffer"
    "packet_post ext p pt (t0 + min pt fb) (t0 + pt) FIRST_BYTE d es ps res d' buffer'"
    by (rule readPacket_reads [OF run d(1,2) big])
  have ps: "ps = good_packets [map_sum id (\<lambda>n. take n buffer') res]
    \<and> (\<forall>n. res = Inr n \<longrightarrow> 0 < n \<and> n \<le> nat (MAX_PACKET_SIZE d))"
  proof (cases res)
    case (Inl e)
    with r(4) d(3) show ?thesis by (simp add: packet_post_def)
  next
    case (Inr n)
    with r(4) d(3) obtain x where "ps = [x]" "delivers (nat (MAX_PACKET_SIZE d)) [x] n buffer'"
      by (cases ps) (auto simp: packet_post_def)
    with Inr show ?thesis by (simp add: delivers_def)
  qed
  have "reads_as ext p d (EvNow t0 # es) ps d'"
    using r(2) by (simp add: reads_as_def)
  with r ps show thesis by (intro that [of "EvNow t0 # es"]) auto
qed

section \<open>The whole session\<close>

lemma read_calls_reads:
  assumes "read_calls env ext cs d w = Some (rs, d', w')"
    and "driver_wf d" "m_stream d = Some p" "\<not> m_extract_last d" "\<forall>c \<in> set cs. call_ok d c"
  shows "\<exists>es. io_run env w es w' \<and> reads_as ext p d es (good_packets rs) d'"
  using assms
proof (induction cs arbitrary: d w rs)
  case Nil
  then show ?case by (auto intro!: exI [of _ "[]"] reads_as_refl)
next
  case (Cons c cs)
  from Cons.prems(1) obtain r d1 b1 w1 rs1 where s:
    "readPacket env ext (rc_buffer c) (rc_size c) (rc_timeout c) (rc_first_byte c) d w = Some (r, d1, b1, w1)"
    "read_calls env ext cs d1 w1 = Some (rs1, d', w')" "rs = map_sum id (\<lambda>n. take n b1) r # rs1"
    by (auto simp: bind_eq_Some_conv)
  have ok: "call_ok d c" using Cons.prems(5) by simp
  then have big: "MAX_PACKET_SIZE d \<le> rc_size c" "nat (MAX_PACKET_SIZE d) \<le> length (rc_buffer c)"
    by (simp_all add: call_ok_def)
  obtain es where e: "io_run env w es w1"
    "reads_as ext p d es (good_packets [map_sum id (\<lambda>n. take n b1) r]) d1"
    by (rule readPacket_one [OF s(1) Cons.prems(2-4) big])
  note cfg = same_configD [OF reads_asD(2) [OF e(2)]]
  have "\<forall>c \<in> set cs. call_ok d1 c" using Cons.prems(5) cfg by (auto simp: call_ok_def)
  with s(2) reads_asD(1) [OF e(2)] Cons.prems(3,4) cfg obtain fs where
    f: "io_run env w1 fs w'" "reads_as ext p d1 fs (good_packets rs1) d'"
    using Cons.IH [of d1 w1 rs1] by auto
  have "good_packets rs = good_packets [map_sum id (\<lambda>n. take n b1) r] @ good_packets rs1"
    using s(3) by (simp add: good_packets_def)
  with reads_as_trans [OF e(2) f(2)] io_run_appendI [OF e(1) f(1)] show ?case by auto
qed

end

text \<open>Reassembly needs verdicts that do not change.\<close>

context stable_extractor
begin

lemma reads_as_packets:
  assumes "reads_as ext p d es ps d'"
  shows "packets ext (queued d @ bytes_read p es @ c) = ps @ packets ext (queued d' @ c)"
  using assms by (rule reads_asE) (rule feed_packets)

end

end
