(* ===== verification/Read_Termination.thy ===== *)
theory Read_Termination
  imports Read_Session
begin

text \<open>
  The reading loops return. \<open>readPacketInternal\<close> reads until the stream has nothing more, so
  it needs a source that runs dry; \<open>readPacket\<close> waits until a deadline, so it needs a clock
  that moves.
\<close>

locale finite_driver = driver_env env ext + draining_source env drains avail
  for env :: "('w, 't::linordered_ab_group_add) env" and ext and drains and avail

locale live_driver = finite_driver env ext drains avail + moving_clock env steps
  for env :: "('w, 't::linordered_ab_group_add) env" and ext and drains and avail and steps

interpretation test_finite: finite_driver "test_env now tod" DriverTest_extractPacket "\<lambda>_ _. True" available
  for now :: "'c \<Rightarrow> 't::linordered_ab_group_add \<times> 'c" and tod
  by unfold_locales

interpretation test_live: live_driver clock_env DriverTest_extractPacket "\<lambda>_ _. True" available readings
  by unfold_locales

lemma live_driver_everywhere:
  assumes "driver_env env ext" "live_env env avail steps"
  shows "live_driver env ext (\<lambda>_ _. True) avail steps"
  using assms finite_source.every_place by (auto simp: live_env_def intro!: live_driver.intro finite_driver.intro)

context finite_driver
begin

lemma nowait_avail: "io_run env w es w' \<Longrightarrow> nowait es \<Longrightarrow> drains p w \<Longrightarrow>
    avail p w' + length (bytes_read p es) \<le> avail p w"
  by (rule run_left) (auto simp: nowait_def)

lemma readInternal_loop_returns:
  assumes "driver_wf d" "nat (MAX_PACKET_SIZE d) \<le> length buffer"
    and "delivers (nat (MAX_PACKET_SIZE d)) ps0 n buffer" "drains p w"
  shows "\<exists>r. readInternal_loop env ext p rs n buffer d w = Some r"
  using assms
proof (induction "avail p w" arbitrary: w rs n buffer d ps0 rule: less_induct)
  case less
  let ?k = "nat (MAX_PACKET_SIZE d - int (internal_buffer_size d))"
  obtain rr w1 where rd: "io_read env p ?k w = (rr, w1)" by fastforce
  consider e where "rr = Inl e" | "rr = Inr []" | bs where "rr = Inr bs" "bs \<noteq> []"
    by (cases rr) auto
  then show ?case
  proof cases
    case (3 bs)
    note rd = rd [unfolded 3(1)]
    obtain ib ps sz d2 buffer2 w3 es where b:
      "mem_store (internal_buffer d) (internal_buffer_size d) bs = Inr ib"
      "doPacketExtraction env ext buffer
         (d\<lparr>internal_buffer := ib, internal_buffer_size := internal_buffer_size d + length bs\<rparr>)
         (notify_read env (m_listeners d) bs w1) = (Inr sz, d2, buffer2, w3)"
      "io_run env w es w3" "reads_as ext p d es ps d2" "length buffer2 = length buffer"
      "bytes_read p es = bs" "nowait es"
      "delivers (nat (MAX_PACKET_SIZE d)) (ps0 @ ps) (if sz \<noteq> 0 then sz else n) buffer2"
      by (rule round_reads [OF less.prems(1-3) rd 3(2)])
    have max: "MAX_PACKET_SIZE d2 = MAX_PACKET_SIZE d"
      using same_configD(1) [OF reads_asD(2) [OF b(4)]] .
    have "avail p w3 < avail p w"
      using nowait_avail [OF b(3,7) less.prems(4)] b(6) 3(2) by (cases bs) auto
    then have "\<exists>r. readInternal_loop env ext p True (if sz \<noteq> 0 then sz else n) buffer2 d2 w3 = Some r"
      by (rule less.hyps [where ?ps0.0 = "ps0 @ ps"])
        (use reads_asD(1) [OF b(4)] less.prems(2) b(5,8) max run_drains [OF b(3) less.prems(4)] in auto)
    then show ?thesis
      by (subst readInternal_loop.simps) (use rd 3(2) b(1,2) in \<open>auto simp: Let_def\<close>)
  qed (subst readInternal_loop.simps; use rd in simp)+
qed

lemma readPacketInternal_returns:
  assumes "driver_wf d" "m_stream d = Some p" "nat (MAX_PACKET_SIZE d) \<le> length buffer" "drains p w"
  shows "\<exists>r. readPacketInternal env ext buffer bufsize d w = Some r"
proof (cases "bufsize < MAX_PACKET_SIZE d")
  case False
  show ?thesis
  proof (cases "internal_buffer_size d = 0")
    case True
    have "\<exists>r. readInternal_loop env ext p False 0 buffer d w = Some r"
      by (rule readInternal_loop_returns [where ?ps0.0 = "[]"]) (use assms in auto)
    with True False assms(2) show ?thesis by (auto simp: readPacketInternal_def)
  next
    case filled: False
    obtain ps sz d1 buffer1 w1 es where e:
      "doPacketExtraction env ext buffer d w = (Inr sz, d1, buffer1, w1)"
      "reads_as ext p d es ps d1" "length buffer1 = length buffer"
      "delivers (nat (MAX_PACKET_SIZE d)) ps (if sz \<noteq> 0 then sz else 0) buffer1" "io_run env w es w1"
      by (rule extraction_reads [of d buffer "[]" 0 w p]) (use assms filled in auto)
    note cfg = same_configD [OF reads_asD(2) [OF e(2)]]
    have "\<exists>r. readInternal_loop env ext p False sz buffer1 d1 w1 = Some r"
      by (rule readInternal_loop_returns [where ?ps0.0 = ps])
        (use reads_asD(1) [OF e(2)] cfg assms(2,3) e run_drains [OF e(5) assms(4)] in \<open>auto split: if_splits\<close>)
    with filled False e(1) cfg assms(2) show ?thesis by (auto simp: readPacketInternal_def)
  qed
qed (simp add: readPacketInternal_def)

end

context live_driver
begin

lemma readPacket_loop_returns:
  assumes "packet_pre p bufsize pt start lo limit tt deadline buffer d" "drains p w"
  shows "\<exists>r. readPacket_loop env ext p bufsize pt start tt deadline buffer d w = Some r"
  using assms
proof (induction "steps limit w" arbitrary: w tt deadline buffer d rule: less_induct)
  case less
  have pre: "driver_wf d" "m_stream d = Some p" "MAX_PACKET_SIZE d \<le> bufsize"
    "nat (MAX_PACKET_SIZE d) \<le> length buffer"
    using less.prems(1) by (simp_all add: packet_pre_def)
  obtain res d1 buffer1 w1 where int:
    "readPacketInternal env ext buffer bufsize d w = Some (res, d1, buffer1, w1)"
    using readPacketInternal_returns [OF pre(1,2,4) less.prems(2), of bufsize] by (metis prod_cases4)
  from readPacketInternal_correct [OF int pre] obtain es ps where i:
    "io_run env w es w1" "reads_as ext p d es ps d1" "length buffer1 = length buffer"
    unfolding internal_ok_def prod.case by blast
  note cfg = same_configD [OF reads_asD(2) [OF i(2)]]
  show ?case
  proof (cases "\<exists>rs. res = Inr (0, rs) \<and> pt \<noteq> 0")
    case True
    then obtain rs where rs: "res = Inr (0, rs)" "pt \<noteq> 0" by auto
    define first where "first \<longleftrightarrow> tt = FIRST_BYTE \<and> rs"
    define dl where "dl = (if first then start + pt else deadline)"
    define tt' where "tt' = (if first then PACKET else tt)"
    have dl: "lo \<le> dl" "dl \<le> limit"
      using less.prems(1) by (auto simp: packet_pre_def dl_def)
    obtain now w2 where now: "io_now env w1 = (now, w2)" by fastforce
    obtain rr w3 where wait: "io_waitRead env p (dl - now) w2 = (rr, w3)" by fastforce
    have more: "\<exists>r. readPacket_loop env ext p bufsize pt start tt' dl buffer1 d1 w3 = Some r"
      if "\<not> dl < now"
    proof (rule less.hyps)
      have "steps limit w2 < steps limit w1"
        using now_steps [OF now] that dl by simp
      moreover have "steps limit w3 \<le> steps limit w2"
        using step_steps [of w2 "EvWaitRead p (dl - now) rr" w3] wait by simp
      ultimately show "steps limit w3 < steps limit w"
        using run_steps [OF i(1), of limit] by simp
      show "packet_pre p bufsize pt start lo limit tt' dl buffer1 d1"
        using less.prems(1) reads_asD(1) [OF i(2)] cfg i(3)
        by (auto simp: packet_pre_def dl_def tt'_def)
      have "io_run env w (es @ [EvNow now, EvWaitRead p (dl - now) rr]) w3"
        using i(1) now wait by (auto simp: io_run_append)
      from run_drains [OF this less.prems(2)] show "drains p w3" .
    qed
    show ?thesis
      by (subst readPacket_loop.simps, cases first)
        (use int rs now wait more in \<open>auto simp: Let_def first_def dl_def tt'_def split: sum.splits\<close>)
  next
    case False
    then show ?thesis
      by (subst readPacket_loop.simps) (use int in \<open>auto split: sum.splits\<close>)
  qed
qed

lemma readPacket_returns_with_stream:
  assumes "driver_wf d" "m_stream d = Some p" "nat (MAX_PACKET_SIZE d) \<le> length buffer" "drains p w"
  shows "\<exists>r. readPacket env ext buffer bufsize pt fb d w = Some r"
proof (cases "bufsize < MAX_PACKET_SIZE d")
  case False
  obtain t0 w1 where now: "io_now env w = (t0, w1)" by fastforce
  have "\<exists>r. readPacket_loop env ext p bufsize pt t0 FIRST_BYTE (t0 + min pt fb) buffer d w1 = Some r"
    by (rule readPacket_loop_returns [where lo = "t0 + min pt fb" and limit = "t0 + pt"])
      (use assms False now step_drains [OF assms(4), of "EvNow t0" w1] in \<open>auto simp: packet_pre_def\<close>)
  with now False assms(2) show ?thesis by (auto simp: readPacket_def Let_def)
qed (simp add: readPacket_def)

end

end
