(* ===== verification/Driver_Reading.thy ===== *)
theory Driver_Reading
  imports Read_Termination
begin

text \<open>
  The properties of the reading side of \<open>Driver\<close>, over every stream and every subclass that
  keep the contracts, each followed by a run on the objects of \<open>Test_World\<close> with the
  \<open>DriverTest\<close> subclass of \<^verbatim>\<open>src/test/test_Driver.cpp\<close>.
\<close>

section \<open>A driver, a stream and a listener to evaluate on\<close>

definition demo_driver :: "bool \<Rightarrow> int driver" where
  "demo_driver extract_last =
     addListener (Ptr 2)
       (fst (setMainStream clock_env (Some (Ptr 1)) (projr (Driver_init (\<lambda>_. 0) 8 extract_last))
          \<lparr>w_streams = \<lambda>_. None, w_listeners = \<lambda>_. None, w_clock = 0\<rparr>))"

definition demo_world :: "byte list \<Rightarrow> int world" where
  "demo_world bs =
     \<lparr>w_streams = (\<lambda>_. None)(Ptr 1 \<mapsto> pushDataToDriver bs TestStream_init),
      w_listeners = (\<lambda>_. None)(Ptr 2 \<mapsto> BufferListener_init), w_clock = 100\<rparr>"

abbreviation demo_read where
  "demo_read bs timeout \<equiv> readPacket clock_env DriverTest_extractPacket (replicate 8 0) 8
     timeout timeout (demo_driver False) (demo_world bs)"

lemma demo_wf:
  "driver_wf (demo_driver b)" "m_stream (demo_driver b) = Some (Ptr 1)"
  "m_extract_last (demo_driver b) = b" "MAX_PACKET_SIZE (demo_driver b) = 8"
  "queued (demo_driver b) = []" "m_listeners (demo_driver b) = [Ptr 2]"
  by (simp_all add: demo_driver_def Driver_init_def setMainStream_def addListener_def driver_wf_def
      queued_def)

declare readPacket_loop.simps [code] readInternal_loop.simps [code] readRaw_loop.simps [code]

lemma returned_ex:
  "(case x of None \<Rightarrow> False | Some (r, d, b, w) \<Rightarrow> P r d b w) \<Longrightarrow>
     \<exists>r d b w. x = Some (r, d, b, w) \<and> P r d b w"
  by (cases x) auto

section \<open>One call\<close>

text \<open>C1 \<open>readPacket\<close> on an open driver, however it ends. The events of the call are a run of
  the framing machine from the bytes queued before to the bytes queued after: no byte is
  lost, reordered or invented, what is dropped was rejected by \<open>extractPacket\<close>, each listener
  has been shown exactly the bytes read, nothing was written, and \<open>good_rx\<close>/\<open>bad_rx\<close> count
  what was emitted and dropped. On return the caller's array starts with the (newest) packet
  emitted; on a throw nothing was emitted in the default mode, a timeout was due, with the
  kind that the arrival of data decides, or the buffer is full, or the stream threw: in
  particular nothing undefined happens. Every wait is for a non-negative time that ends
  before the packet deadline.\<close>

theorem readPacket_correct:
  assumes "io_contract env" "packet_extractor ext"
    and "driver_wf d" "m_stream d = Some p"
    and "MAX_PACKET_SIZE d \<le> bufsize" "nat (MAX_PACKET_SIZE d) \<le> length buffer"
    and "readPacket env ext buffer bufsize pt fb d w = Some (res, d', buffer', w')"
  shows "\<exists>t0 es ps. io_run env w (EvNow t0 # es) w'
    \<and> reads_as ext p d es ps d' \<and> length buffer' = length buffer
    \<and> (\<forall>t. waits_within (t0 + pt) t es)
    \<and> packet_post ext p pt (t0 + min pt fb) (t0 + pt) FIRST_BYTE d es ps res d' buffer'"
  by (rule driver_env.readPacket_reads [OF driver_env.intro [OF assms(1,2)] assms(7,3-6)]) blast

lemma readPacket_correct_witness:
  "\<exists>d' buffer' w'. demo_read [7, 0, 1, 2, 0, 5] 10 = Some (Inr 4, d', buffer', w')
     \<and> take 4 buffer' = [0, 1, 2, 0] \<and> queued d' = [5]
     \<and> (\<exists>t0 es ps. io_run clock_env (demo_world [7, 0, 1, 2, 0, 5]) (EvNow t0 # es) w'
       \<and> reads_as DriverTest_extractPacket (Ptr 1) (demo_driver False) es ps d'
       \<and> packet_post DriverTest_extractPacket (Ptr 1) 10 (t0 + min 10 10) (t0 + 10) FIRST_BYTE
           (demo_driver False) es ps (Inr 4) d' buffer')"
proof -
  have "case demo_read [7, 0, 1, 2, 0, 5] 10 of None \<Rightarrow> False
      | Some (r, d', b', w') \<Rightarrow> r = Inr 4 \<and> take 4 b' = [0, 1, 2, 0] \<and> queued d' = [5]"
    by code_simp
  from returned_ex [OF this] obtain d' b' w' where
    r: "demo_read [7, 0, 1, 2, 0, 5] 10 = Some (Inr 4, d', b', w')"
    "take 4 b' = [0, 1, 2, 0]" "queued d' = [5]" by blast
  from readPacket_correct [OF test_contracts(1) extractor_contracts(3) _ _ _ _ r(1),
      of "Ptr 1"] r
  show ?thesis by (auto simp: demo_wf)
qed

text \<open>C2 A call of \<open>readPacket\<close> on an open driver returns: whatever the stream does, if what it
  holds is finite and the clock moves.\<close>

theorem readPacket_returns:
  assumes "io_contract env" "packet_extractor ext" "live_env env avail steps"
    and "driver_wf d" "m_stream d = Some p" "nat (MAX_PACKET_SIZE d) \<le> length buffer"
  shows "\<exists>res d' buffer' w'.
    readPacket env ext buffer bufsize pt fb d w = Some (res, d', buffer', w')"
proof -
  have "live_driver env ext (\<lambda>_ _. True) avail steps"
    using assms(1-3) by (intro live_driver_everywhere driver_env.intro)
  from live_driver.readPacket_returns_with_stream [OF this assms(4-6) TrueI, of bufsize pt fb w]
  show ?thesis by (metis prod_cases4)
qed

lemma readPacket_returns_witness:
  "\<exists>res d' buffer' w'. demo_read [7, 0, 1] 10 = Some (res, d', buffer', w')"
  by (rule readPacket_returns [OF test_contracts(1) extractor_contracts(3)
        test_contracts(3), of _ "Ptr 1"]) (auto simp: demo_wf)

text \<open>C3 A timeout is honest: if the verdicts of \<open>extractPacket\<close> do not change with later bytes,
  a call that throws a \<open>TimeoutError\<close> in the default mode has seen no complete packet, neither
  in the bytes that were queued nor in the bytes it read.\<close>

theorem readPacket_timeout_honest:
  assumes "io_contract env" "stable_extractor ext"
    and "driver_wf d" "m_stream d = Some p" "\<not> m_extract_last d"
    and "MAX_PACKET_SIZE d \<le> bufsize" "nat (MAX_PACKET_SIZE d) \<le> length buffer"
    and "readPacket env ext buffer bufsize pt fb d w = Some (Inl (TimeoutError tt), d', buffer', w')"
  shows "\<exists>es. io_run env w es w' \<and> (stream_threw p (TimeoutError tt) es
    \<or> packets ext (queued d @ bytes_read p es) = [] \<and> undecided ext d')"
proof -
  have ext: "packet_extractor ext" using assms(2) by (simp add: stable_extractor_def)
  obtain t0 es ps where r: "io_run env w (EvNow t0 # es) w'" "reads_as ext p d es ps d'"
    "packet_post ext p pt (t0 + min pt fb) (t0 + pt) FIRST_BYTE d es ps (Inl (TimeoutError tt)) d' buffer'"
    by (rule driver_env.readPacket_reads [OF driver_env.intro [OF assms(1) ext] assms(8,3,4,6,7)])
  have ps: "ps = []" using r(3) assms(5) by (simp add: packet_post_def)
  note cfg = same_configD(4) [OF reads_asD(2) [OF r(2)]]
  have "stream_threw p (TimeoutError tt) (EvNow t0 # es) \<or> undecided ext d'"
    using r(3) cfg assms(5) by (auto simp: packet_post_def throw_reason_def stream_threw_def)
  moreover have "packets ext (queued d @ bytes_read p (EvNow t0 # es)) = []" if "undecided ext d'"
    using stable_extractor.reads_as_packets [OF assms(2) r(2), of "[]"] ps that
    by (auto simp: undecided_def packets_wait)
  ultimately show ?thesis using r(1) by blast
qed

lemma readPacket_timeout_honest_witness:
  "\<exists>d' buffer' w' es. demo_read [7, 0, 1, 2, 9, 0] 10
       = Some (Inl (TimeoutError PACKET), d', buffer', w')
     \<and> queued d' = [0] \<and> io_run clock_env (demo_world [7, 0, 1, 2, 9, 0]) es w'
     \<and> (stream_threw (Ptr 1) (TimeoutError PACKET) es
        \<or> packets DriverTest_extractPacket (bytes_read (Ptr 1) es) = []
          \<and> undecided DriverTest_extractPacket d')"
proof -
  have "case demo_read [7, 0, 1, 2, 9, 0] 10 of None \<Rightarrow> False
      | Some (r, d', b', w') \<Rightarrow> r = Inl (TimeoutError PACKET) \<and> queued d' = [0]"
    by code_simp
  from returned_ex [OF this] obtain d' b' w' where
    r: "demo_read [7, 0, 1, 2, 9, 0] 10 = Some (Inl (TimeoutError PACKET), d', b', w')"
    "queued d' = [0]" by blast
  from readPacket_timeout_honest [OF test_contracts(1) extractor_contracts(4) _ _ _ _ _ r(1),
      of "Ptr 1"] r
  show ?thesis by (auto simp: demo_wf)
qed

section \<open>A sequence of calls\<close>

text \<open>C4 Reassembly. Call \<open>readPacket\<close> any number of times, with any timeouts, on a stream that
  delivers its bytes in any chunks, through any timeouts and exceptions: the packets returned
  are, in order and without gap or repetition, the first packets of the byte sequence that
  was queued and received, and the packets of what is left in the queue are the next ones,
  whatever bytes \<open>c\<close> arrive later. The counter \<open>good_rx\<close> is the number of bytes returned, and
  every listener has been shown exactly the bytes received.\<close>

theorem readPacket_reassembles:
  assumes "io_contract env" "stable_extractor ext"
    and "driver_wf d" "m_stream d = Some p" "\<not> m_extract_last d"
    and "list_all (call_ok d) cs"
    and "read_calls env ext cs d w = Some (rs, d', w')"
  shows "\<exists>es. io_run env w es w'
    \<and> (\<forall>c. packets ext (queued d @ bytes_read p es @ c) = good_packets rs @ packets ext (queued d' @ c))
    \<and> good_rx (m_stats d') = good_rx (m_stats d) + of_nat (length (concat (good_packets rs)))
    \<and> (\<forall>l \<in> set (m_listeners d). listener_read l es = bytes_read p es)"
proof -
  have ext: "packet_extractor ext" using assms(2) by (simp add: stable_extractor_def)
  have "\<forall>c \<in> set cs. call_ok d c" using assms(6) by (simp add: list_all_iff)
  from driver_env.read_calls_reads [OF driver_env.intro [OF assms(1) ext] assms(7,3,4,5) this]
  obtain es where e: "io_run env w es w'" "reads_as ext p d es (good_packets rs) d'" by blast
  with stable_extractor.reads_as_packets [OF assms(2) e(2)] show ?thesis
    by (blast dest: reads_asD)
qed

definition demo_calls :: "int read_call list" where
  "demo_calls = replicate 3 \<lparr>rc_buffer = replicate 8 0, rc_size = 8, rc_timeout = 10, rc_first_byte = 5\<rparr>"

lemma readPacket_reassembles_witness:
  "\<exists>rs d' w' es. read_calls clock_env DriverTest_extractPacket demo_calls (demo_driver False)
       (demo_world [0, 1, 2, 0, 7, 0, 3, 4, 0, 0]) = Some (rs, d', w')
     \<and> rs = [Inr [0, 1, 2, 0], Inr [0, 3, 4, 0], Inl (TimeoutError FIRST_BYTE)] \<and> queued d' = [0]
     \<and> io_run clock_env (demo_world [0, 1, 2, 0, 7, 0, 3, 4, 0, 0]) es w'
     \<and> (\<forall>c. packets DriverTest_extractPacket (bytes_read (Ptr 1) es @ c)
            = good_packets rs @ packets DriverTest_extractPacket (queued d' @ c))"
proof -
  let ?r = "read_calls clock_env DriverTest_extractPacket demo_calls (demo_driver False)
       (demo_world [0, 1, 2, 0, 7, 0, 3, 4, 0, 0])"
  let ?rs = "[Inr [0, 1, 2, 0], Inr [0, 3, 4, 0], Inl (TimeoutError FIRST_BYTE)]"
  have "case ?r of None \<Rightarrow> False | Some (rs, d', w') \<Rightarrow> rs = ?rs \<and> queued d' = [0]"
    by code_simp
  then obtain d' w' where r: "?r = Some (?rs, d', w')" "queued d' = [0]"
    by (cases ?r) auto
  from readPacket_reassembles [OF test_contracts(1) extractor_contracts(4) _ _ _ _ r(1), of "Ptr 1"] r
  show ?thesis by (auto simp: demo_wf demo_calls_def call_ok_def list_all_iff)
qed

section \<open>Extraction\<close>

text \<open>C5 \<open>doPacketExtraction\<close> in the default mode drops what \<open>extractPacket\<close> rejects, takes the
  first packet if there is one and leaves the rest queued. It does not throw and does not
  leave its arrays; without a packet nothing decided is left in the queue.\<close>

theorem doPacketExtraction_first_packet:
  assumes "packet_extractor ext" "driver_wf d" "0 < internal_buffer_size d" "\<not> m_extract_last d"
    and "internal_buffer_size d \<le> length buffer"
  shows "\<exists>off sz d' buffer' w'. doPacketExtraction env ext buffer d w = (Inr sz, d', buffer', w')
    \<and> driver_wf d' \<and> skips ext (queued d) off
    \<and> queued d = take off (queued d) @ take sz buffer' @ queued d'
    \<and> (0 < sz \<longrightarrow> ext (take sz buffer' @ queued d') = int sz)
    \<and> (sz = 0 \<longrightarrow> buffer' = buffer \<and> undecided ext d')
    \<and> bad_rx (m_stats d') = bad_rx (m_stats d) + of_nat off
    \<and> good_rx (m_stats d') = good_rx (m_stats d) + of_nat sz"
proof -
  obtain off sz d' buffer' w' es where r:
    "doPacketExtraction env ext buffer d w = (Inr sz, d', buffer', w')"
    "driver_wf d'" "same_config d d'" "io_run env w es w'" "quiet es"
    "off + sz \<le> length (queued d)" "queued d' = drop (off + sz) (queued d)"
    "buffer' = take sz (drop off (queued d)) @ drop sz buffer" "skips ext (queued d) off"
    "0 < sz \<longrightarrow> ext (drop off (queued d)) = int sz"
    "sz = 0 \<longrightarrow> queued d' = [] \<or> ext (queued d') = 0"
    "bad_rx (m_stats d') = bad_rx (m_stats d) + of_nat off"
    "good_rx (m_stats d') = good_rx (m_stats d) + of_nat sz"
    by (rule packet_extractor.doPacketExtraction_first [OF assms(1-5)])
  have "queued d' = drop sz (drop off (queued d))" using r(7) by (simp add: add.commute)
  then have "take sz buffer' @ queued d' = drop off (queued d)"
    using r(6,8) by (simp del: drop_drop)
  then show ?thesis
    using r by (intro exI [of _ off] exI [of _ sz] exI [of _ d'] exI [of _ buffer'] exI [of _ w'])
      (auto simp: undecided_def)
qed

definition demo_queue :: "bool \<Rightarrow> byte list \<Rightarrow> int driver" where
  "demo_queue extract_last bs = (demo_driver extract_last)
     \<lparr>internal_buffer := bs @ replicate (8 - length bs) 0, internal_buffer_size := length bs\<rparr>"

lemma demo_queue_wf:
  "length bs \<le> 8 \<Longrightarrow> driver_wf (demo_queue b bs)" "internal_buffer_size (demo_queue b bs) = length bs"
  "m_extract_last (demo_queue b bs) = b" "MAX_PACKET_SIZE (demo_queue b bs) = 8"
  "queued (demo_queue b bs) = bs" "m_listeners (demo_queue b bs) = [Ptr 2]"
  "m_stream (demo_queue b bs) = Some (Ptr 1)"
  using demo_wf [of b] by (auto simp: demo_queue_def queued_def driver_wf_def)

lemma doPacketExtraction_first_packet_witness:
  "\<exists>off sz d' buffer' w'. doPacketExtraction clock_env DriverTest_extractPacket (replicate 8 0)
      (demo_queue False [7, 0, 1, 2, 0, 5]) (demo_world []) = (Inr sz, d', buffer', w')
    \<and> [7, 0, 1, 2, 0, 5] = take off [7, 0, 1, 2, 0, 5] @ take sz buffer' @ queued d'"
  using doPacketExtraction_first_packet [OF extractor_contracts(3),
      of "demo_queue False [7, 0, 1, 2, 0, 5]" "replicate 8 0" clock_env "demo_world []"]
  by (auto simp: demo_queue_wf)

text \<open>C6 In \<open>m_extract_last\<close> mode \<open>doPacketExtraction\<close> hands out the last of the packets in the
  queue and counts them all; with stable verdicts no packet is left behind it.\<close>

theorem doPacketExtraction_last_packet:
  assumes "stable_extractor ext" "driver_wf d" "0 < internal_buffer_size d" "m_extract_last d"
    and "internal_buffer_size d \<le> length buffer"
  shows "\<exists>sz d' buffer' w'. doPacketExtraction env ext buffer d w = (Inr sz, d', buffer', w')
    \<and> driver_wf d' \<and> suffix (queued d') (queued d)
    \<and> (if packets ext (queued d) = [] then sz = 0 \<and> buffer' = buffer
       else 0 < sz \<and> take sz buffer' = last (packets ext (queued d)))
    \<and> packets ext (queued d') = []
    \<and> good_rx (m_stats d') = good_rx (m_stats d) + of_nat (length (concat (packets ext (queued d))))"
proof -
  have ext: "packet_extractor ext" using assms(1) by (simp add: stable_extractor_def)
  obtain ps g sz d' buffer' w' es where r:
    "doPacketExtraction env ext buffer d w = (Inr sz, d', buffer', w')"
    "driver_wf d'" "same_config d d'" "io_run env w es w'" "quiet es"
    "feed ext (queued d) [] ps g (queued d')" "length buffer' = length buffer"
    "ps = [] \<longrightarrow> sz = 0 \<and> buffer' = buffer"
    "ps \<noteq> [] \<longrightarrow> 0 < sz \<and> sz \<le> internal_buffer_size d \<and> take sz buffer' = last ps"
    "good_rx (m_stats d') = good_rx (m_stats d) + of_nat (length (concat ps))"
    "m_extract_last d \<longrightarrow> ps = packets ext (queued d)"
    by (rule packet_extractor.doPacketExtraction_feed [OF ext assms(2,3,5)])
  have "packets ext (queued d) = ps @ packets ext (queued d')"
    using stable_extractor.feed_packets [OF assms(1) r(6), of "[]"] by simp
  moreover have "suffix (queued d') (queued d)" using feed_suffix [OF r(6)] by simp
  ultimately show ?thesis using r assms(4) by auto
qed

lemma doPacketExtraction_last_packet_witness:
  "\<exists>sz d' buffer' w'. doPacketExtraction clock_env PacketForwardDriver_extractPacket (replicate 8 0)
      (demo_queue True [1, 0, 2, 3, 0, 4]) (demo_world []) = (Inr sz, d', buffer', w')
    \<and> take sz buffer' = [2, 3, 0] \<and> packets PacketForwardDriver_extractPacket (queued d') = []"
proof -
  have "packets PacketForwardDriver_extractPacket [1, 0, 2, 3, 0, 4] = [[1, 0], [2, 3, 0]]"
    by code_simp
  then show ?thesis
    using doPacketExtraction_last_packet [OF extractor_contracts(6),
        of "demo_queue True [1, 0, 2, 3, 0, 4]" "replicate 8 0" clock_env "demo_world []"]
    by (auto simp: demo_queue_wf)
qed

end
