(* ===== verification/Read_Raw_Correct.thy ===== *)
theory Read_Raw_Correct
  imports Read_Termination
begin

text \<open>
  \<open>readRaw\<close>: the queue first, then the stream, straight into the caller's array. What it
  returns, why it stops early, and that it stops.
\<close>

definition clock_read :: "'t \<Rightarrow> 't \<Rightarrow> 't event list \<Rightarrow> bool" where
  "clock_read now t es \<longleftrightarrow> t = now \<or> EvNow t \<in> set es"

text \<open>The clock has passed the deadline \<open>gd\<close>, or the one that the first byte sets.\<close>

definition overdue :: "'t::linordered_ab_group_add \<Rightarrow> 't \<Rightarrow> bool \<Rightarrow> 't \<Rightarrow> 't event list \<Rightarrow> bool" where
  "overdue pt gd received now es \<longleftrightarrow>
     (\<exists>t. clock_read now t es \<and> gd < t)
     \<or> (\<not> received \<and> (\<exists>t1 t. EvNow t1 \<in> set es \<and> EvNow t \<in> set es \<and> t1 + pt < t))"

definition raw_post ::
  "ptr \<Rightarrow> int \<Rightarrow> 't::linordered_ab_group_add \<Rightarrow> 't \<Rightarrow> bool \<Rightarrow> 't \<Rightarrow> nat \<Rightarrow> byte list \<Rightarrow> 't event list
     \<Rightarrow> exn + nat \<Rightarrow> byte list \<Rightarrow> bool" where
  "raw_post p size0 pt gd received now fill buffer es res buffer' \<longleftrightarrow>
     (case res of
        Inr n \<Rightarrow> n = fill + length (bytes_read p es) \<and> int n \<le> size0
          \<and> take n buffer' = take fill buffer @ bytes_read p es
          \<and> (int n < size0 \<longrightarrow>
               (\<exists>t. EvWaitRead p t (Inr False) \<in> set es) \<or> overdue pt gd received now es)
      | Inl e \<Rightarrow> stream_threw p e es)"

definition raw_ok ::
  "('w, 't) env \<Rightarrow> ptr \<Rightarrow> ptr list \<Rightarrow> int \<Rightarrow> 't::linordered_ab_group_add \<Rightarrow> 't \<Rightarrow> bool \<Rightarrow> 't \<Rightarrow> nat
     \<Rightarrow> byte list \<Rightarrow> 'w \<Rightarrow> (exn + nat) \<times> byte list \<times> 'w \<Rightarrow> bool" where
  "raw_ok env p ls size0 pt gd received now fill buffer w r \<longleftrightarrow> (case r of (res, buffer', w') \<Rightarrow>
     \<exists>es. io_run env w es w' \<and> reads_from p es
       \<and> (\<forall>l \<in> set ls. listener_read l es = bytes_read p es) \<and> length buffer' = length buffer
       \<and> raw_post p size0 pt gd received now fill buffer es res buffer')"

lemma raw_ok_go:
  assumes "io_run env w es w1" "reads_from p es"
    and "\<forall>l \<in> set ls. listener_read l es = bytes_read p es" "bytes_read p es = bs"
    and "length buffer1 = length buffer" "take (fill + length bs) buffer1 = take fill buffer @ bs"
    and "raw_ok env p ls size0 pt gd1 received1 now1 (fill + length bs) buffer1 w1 r"
    and "EvNow now1 \<in> set es"
    and "gd1 = gd \<and> received1 = received \<or> \<not> received \<and> gd1 = now1 + pt \<and> received1"
  shows "raw_ok env p ls size0 pt gd received now fill buffer w r"
proof -
  obtain res buffer' w' where r: "r = (res, buffer', w')" by (cases r)
  with assms(7) obtain fs where f: "io_run env w1 fs w'" "reads_from p fs"
    "\<forall>l \<in> set ls. listener_read l fs = bytes_read p fs" "length buffer' = length buffer1"
    "raw_post p size0 pt gd1 received1 now1 (fill + length bs) buffer1 fs res buffer'"
    by (auto simp: raw_ok_def)
  have over: "overdue pt gd received now (es @ fs)" if "overdue pt gd1 received1 now1 fs"
    using that assms(8,9) by (fastforce simp: overdue_def clock_read_def)
  have "raw_post p size0 pt gd received now fill buffer (es @ fs) res buffer'"
    using f(5) assms(4,6) over by (auto simp: raw_post_def split: sum.splits)
  then show ?thesis
    unfolding r raw_ok_def prod.case
    by (intro exI [of _ "es @ fs"]) (use assms f in \<open>auto intro: io_run_appendI\<close>)
qed

lemma raw_ok_stop:
  assumes "io_run env w es w1" "reads_from p es" "bytes_read p es = []"
    and "\<forall>l. listener_read l es = []" "raw_post p size0 pt gd received now fill buffer es res buffer"
  shows "raw_ok env p ls size0 pt gd received now fill buffer w (res, buffer, w1)"
  using assms by (auto simp: raw_ok_def)

context io_contract
begin

lemma readRaw_loop_correct:
  assumes "readRaw_loop env p ls size0 pt ib fill gd lc received now buffer w = Some r"
    and "distinct ls" "int fill \<le> size0" "size0 \<le> int (length buffer)"
  shows "raw_ok env p ls size0 pt gd received now fill buffer w r"
proof -
  let ?P = "\<lambda>env' p' ls' size' pt' ib' fill gd lc received now buffer w r.
    env' = env \<longrightarrow> p' = p \<longrightarrow> ls' = ls \<longrightarrow> size' = size0 \<longrightarrow> pt' = pt \<longrightarrow> ib' = ib \<longrightarrow>
    int fill \<le> size0 \<longrightarrow> size0 \<le> int (length buffer) \<longrightarrow>
    raw_ok env p ls size0 pt gd received now fill buffer w r"
  have "?P env p ls size0 pt ib fill gd lc received now buffer w r"
  proof (rule readRaw_loop.raw_induct [where P = ?P, OF _ assms(1)], intro impI, goal_cases)
    case (1 f env' p' ls' size' pt' ib' fill gd lc received now buffer w r)
    note eqs = 1(3-8)
    note body = 1(2) [unfolded eqs Let_def]
    show ?case
    proof (cases "int fill < size0 \<and> now \<le> gd")
      case False
      with body have "r = (Inr fill, buffer, w)" by auto
      with False 1(9) show ?thesis
        by (auto intro!: raw_ok_stop [where es = "[]"] simp: raw_post_def overdue_def clock_read_def)
    next
      case True
      let ?t = "min gd (lc + ib) - now"
      obtain rr w1 where wait: "io_waitRead env p ?t w = (rr, w1)" by fastforce
      consider e where "rr = Inl e" | "rr = Inr False" | "rr = Inr True" by (cases rr) auto
      then show ?thesis
      proof cases
        case (1 e)
        with body True wait show ?thesis
          by (auto intro!: raw_ok_stop [where es = "[EvWaitRead p ?t rr]"]
              simp: raw_post_def stream_threw_def)
      next
        case 2
        with body True wait 1(9) show ?thesis
          by (auto intro!: raw_ok_stop [where es = "[EvWaitRead p ?t rr]"] simp: raw_post_def)
      next
        case 3
        let ?k = "nat (size0 - int fill)"
        obtain rs w2 where rd: "io_read env p ?k w1 = (rs, w2)" by fastforce
        show ?thesis
        proof (cases rs)
          case (Inl e)
          with body True wait 3 rd show ?thesis
            by (auto intro!: raw_ok_stop [where es = "[EvWaitRead p ?t rr, EvRead p ?k rs]"]
                simp: raw_post_def stream_threw_def)
        next
          case (Inr bs)
          have len: "int (fill + length bs) \<le> size0"
            using read_bound [of p ?k w1 bs w2] rd Inr True by auto
          then have fits: "fill + length bs \<le> length buffer" using 1(10) by simp
          obtain buffer1 where st: "mem_store buffer fill bs = Inr buffer1"
            "length buffer1 = length buffer" "take (fill + length bs) buffer1 = take fill buffer @ bs"
            using fits mem_store_length mem_store_take by (metis mem_store_ok)
          obtain now1 w3 where now1: "io_now env w2 = (now1, w3)" by fastforce
          let ?es = "[EvWaitRead p ?t rr, EvRead p ?k rs, EvNow now1]"
          have run: "io_run env w ?es w3" using wait rd now1 by simp
          show ?thesis
          proof (cases "bs = []")
            case True': True
            have "f env p ls size0 pt ib fill gd lc received now1 buffer1 w3 = Some r"
              using body True wait 3 rd Inr st(1) now1 True' by simp
            then have "raw_ok env p ls size0 pt gd received now1 fill buffer1 w3 r"
              using 1(1,9,10) st(2) eqs by auto
            then show ?thesis
              by (intro raw_ok_go [OF run, where bs = "[]"]) (use Inr True' st in auto)
          next
            case False
            let ?gd = "if \<not> received then now1 + pt else gd"
            let ?w4 = "notify_read env ls bs w3"
            have "f env p ls size0 pt ib (fill + length bs) ?gd now1 True now1 buffer1 ?w4 = Some r"
              using body True wait 3 rd Inr st(1) now1 False by simp
            then have rest: "raw_ok env p ls size0 pt ?gd True now1 (fill + length bs) buffer1 ?w4 r"
              using 1(1,10) len st(2) eqs by auto
            have run4: "io_run env w (?es @ map (\<lambda>l. EvReadData l bs) ls) ?w4"
              using run notify_read_run by (rule io_run_appendI)
            show ?thesis
              by (rule raw_ok_go [OF run4 _ _ _ st(2,3) rest])
                (use Inr assms(2) in \<open>auto simp: notify_shown\<close>)
          qed
        qed
      qed
    qed
  qed
  with assms(3,4) show ?thesis by blast
qed

lemma readRaw_runs:
  assumes "driver_wf d" "m_stream d = Some p"
    and "0 \<le> n" "n \<le> int (length buffer)"
    and "readRaw env buffer n pt fb ib d w = Some (res, d', buffer', w')"
  shows "\<exists>t0 es k. k = min (internal_buffer_size d) (nat n)
    \<and> io_run env w (EvNow t0 # es) w' \<and> reads_from p es
    \<and> length buffer' = length buffer \<and> driver_wf d' \<and> queued d' = drop k (queued d) \<and> same_config d d' \<and> m_stats d' = m_stats d
    \<and> (\<forall>l \<in> set (m_listeners d). listener_read l es = bytes_read p es)
    \<and> (case res of
         Inr m \<Rightarrow> m = k + length (bytes_read p es) \<and> int m \<le> n
           \<and> take m buffer' = take k (queued d) @ bytes_read p es
           \<and> (int m < n \<longrightarrow> (\<exists>t. EvWaitRead p t (Inr False) \<in> set es)
               \<or> overdue pt (t0 + min pt fb) False t0 es)
       | Inl e \<Rightarrow> stream_threw p e es)"
proof -
  let ?k = "min (internal_buffer_size d) (nat n)"
  obtain t0 w1 where now: "io_now env w = (t0, w1)" by fastforce
  have "0 + ?k \<le> internal_buffer_size d" "?k \<le> length buffer" using assms(4) by auto
  from pullBytes_ok [OF assms(1) this] obtain d1 buffer1 where p:
    "pullBytesFromInternal buffer 0 ?k d = (Inr (), d1, buffer1)"
    "driver_wf d1" "queued d1 = drop ?k (queued d)"
    "buffer1 = take ?k (queued d) @ drop ?k buffer"
    "d1 = d\<lparr>internal_buffer := internal_buffer d1, internal_buffer_size := internal_buffer_size d - ?k\<rparr>"
    by auto
  have cfg: "same_config d d1" "m_stats d1 = m_stats d" "m_listeners d1 = m_listeners d"
    using p(5) by (metis same_config_update(1)) (subst p(5), simp)+
  have q: "length (take ?k (queued d)) = ?k" using assms(1) by simp
  have len: "length buffer1 = length buffer" "take ?k buffer1 = take ?k (queued d)"
    using p(4) q assms(4) by auto
  let ?ib = "if ib = 0 then pt else ib"
  from assms(5) have loop: "readRaw_loop env p (m_listeners d1) n pt ?ib ?k
      (t0 + min pt fb) (t0 + pt) False t0 buffer1 w1 = Some (res, buffer', w')" and "d' = d1"
    using assms(2,3) p(1) now by (auto simp: readRaw_def Let_def)
  have "raw_ok env p (m_listeners d1) n pt (t0 + min pt fb) False t0 ?k buffer1 w1 (res, buffer', w')"
    by (rule readRaw_loop_correct [OF loop])
      (use p(2) assms(3,4) len in \<open>auto simp: driver_wf_def\<close>)
  then obtain es where "io_run env w1 es w'" "reads_from p es" "length buffer' = length buffer1"
    "\<forall>l \<in> set (m_listeners d). listener_read l es = bytes_read p es"
    "raw_post p n pt (t0 + min pt fb) False t0 ?k buffer1 es res buffer'"
    unfolding raw_ok_def prod.case cfg(3) by blast
  with now p(1-4) cfg len \<open>d' = d1\<close> show ?thesis
    by (intro exI [of _ t0] exI [of _ es] exI [of _ ?k]) (auto simp: raw_post_def split: sum.splits)
qed

end

text \<open>The first-byte deadline, then the deadline the first byte sets: each reading of the clock
  before the current one brings the loop closer to it.\<close>

context moving_clock
begin

lemma readRaw_loop_returns:
  "\<exists>r. readRaw_loop env p ls size0 pt ib fill gd lc received now buffer w = Some r"
proof (induction "(if received then 0 else 1 :: nat, steps gd w)" arbitrary: fill gd lc received now buffer w
    rule: wf_induct_rule [OF wf_lex_prod [OF wf_less_than wf_less_than]])
  case (1 gd received w fill lc now buffer)
  note IH = 1
  have over: "\<exists>r. readRaw_loop env p ls size0 pt ib fill gd lc received now buffer w = Some r"
    if "gd < now" for fill lc now buffer w
    using that by (subst readRaw_loop.simps) auto
  let ?t = "min gd (lc + ib) - now"
  let ?k = "nat (size0 - int fill)"
  obtain rr w1 where wait: "io_waitRead env p ?t w = (rr, w1)" by fastforce
  obtain rs w2 where rd: "io_read env p ?k w1 = (rs, w2)" by fastforce
  obtain now1 w3 where now1: "io_now env w2 = (now1, w3)" by fastforce
  have s1: "steps gd w1 \<le> steps gd w" using step_steps [of w "EvWaitRead p ?t rr"] wait by simp
  have s2: "steps gd w2 \<le> steps gd w1" using step_steps [of w1 "EvRead p ?k rs"] rd by simp
  have idle: "\<exists>r. readRaw_loop env p ls size0 pt ib fill1 gd lc1 received now1 buffer1 w4 = Some r"
    if "steps gd w4 \<le> steps gd w3" for fill1 lc1 buffer1 w4
  proof (cases "now1 \<le> gd")
    case True
    with now_steps [OF now1 True] s1 s2 that show ?thesis by (intro IH) simp
  next
    case False
    then show ?thesis by (intro over) simp
  qed
  have first: "\<exists>r. readRaw_loop env p ls size0 pt ib fill1 gd1 lc1 True now1 buffer1 w4 = Some r"
    if "\<not> received" for fill1 gd1 lc1 buffer1 w4
    using that by (intro IH) simp
  have note_le: "steps gd (notify_read env ls bs w3) \<le> steps gd w3" for bs
    by (rule run_steps [OF notify_read_run])
  show ?case
    by (subst readRaw_loop.simps, cases received)
      (use wait rd now1 idle [OF note_le] idle first in
        \<open>auto simp: Let_def split: sum.splits\<close>)
qed

lemma readRaw_total:
  "\<exists>res d' buffer' w'. readRaw env buffer n pt fb ib d w = Some (res, d', buffer', w')"
proof (cases "m_stream d = None \<or> n < 0")
  case True
  then show ?thesis by (auto simp: readRaw_def split: option.splits)
next
  case False
  then obtain p where p: "m_stream d = Some p" "\<not> n < 0" by auto
  obtain rr d1 buffer1 where pull:
    "pullBytesFromInternal buffer 0 (min (internal_buffer_size d) (nat n)) d = (rr, d1, buffer1)"
    by (metis prod_cases3)
  obtain t0 w1 where now: "io_now env w = (t0, w1)" by fastforce
  have loop: "\<exists>r b2 w2. readRaw_loop env p (m_listeners d1) n pt ib' k gd lc False t0 buffer1 w1
      = Some (r, b2, w2)" for ib' k gd lc
    using readRaw_loop_returns by (metis prod_cases3)
  show ?thesis
  proof (cases rr)
    case (Inl e)
    with p pull show ?thesis by (simp add: readRaw_def Let_def)
  next
    case (Inr u)
    obtain r b2 w2 where "readRaw_loop env p (m_listeners d1) n pt (if ib = 0 then pt else ib)
      (min (internal_buffer_size d) (nat n)) (t0 + min pt fb) (t0 + pt) False t0 buffer1 w1 = Some (r, b2, w2)"
      using loop by blast
    with p pull now Inr show ?thesis by (simp add: readRaw_def Let_def)
  qed
qed

end

end
