(* ===== verification/Driver_Raw.thy ===== *)
theory Driver_Raw
  imports Read_Raw_Correct Driver_Reading
begin

text \<open>The properties of \<open>readRaw\<close> (\<^verbatim>\<open>src/src/Driver.cpp\<close>).\<close>

text \<open>C11 \<open>readRaw\<close> on an open driver: the caller's array receives first the bytes that were
  queued, as many as fit, then the bytes read from the stream, in order and without gap; the
  queue loses exactly what was taken, no other stream is read and none is written, the statistics and the configuration stay as they are,
  every listener is shown the bytes read (not the ones that were queued). It returns fewer
  bytes than asked for only after a wait that ended without data or after the deadline; it
  throws only what the stream throws.\<close>

theorem readRaw_correct:
  assumes "io_contract env" "driver_wf d" "m_stream d = Some p"
    and "0 \<le> n" "n \<le> int (length buffer)"
    and "readRaw env buffer n pt fb ib d w = Some (res, d', buffer', w')"
  shows "\<exists>t0 es k. k = min (internal_buffer_size d) (nat n)
    \<and> io_run env w (EvNow t0 # es) w' \<and> reads_from p es
    \<and> length buffer' = length buffer \<and> driver_wf d' \<and> queued d' = drop k (queued d) \<and> same_config d d' \<and> m_stats d' = m_stats d
    \<and> (\<forall>l \<in> set (m_listeners d). listener_read l es = bytes_read p es)
    \<and> (case res of
         Inr m \<Rightarrow> m = k + length (bytes_read p es) \<and> int m \<le> n
           \<and> take m buffer' = take k (queued d) @ bytes_read p es
           \<and> (int m < n \<longrightarrow> (\<exists>t. EvWaitRead p t (Inr False) \<in> set es)
               \<or> overdue pt (t0 + min pt fb) False t0 es)
       | Inl e \<Rightarrow> stream_threw p e es)"
  by (rule io_contract.readRaw_runs [OF assms])

lemma readRaw_correct_witness:
  "\<exists>d' buffer' w' t0 es. readRaw clock_env (replicate 5 0) 5 10 10 0 (demo_queue False [1, 2])
       (demo_world [3, 4]) = Some (Inr 4, d', buffer', w')
     \<and> take 4 buffer' = [1, 2, 3, 4] \<and> queued d' = []
     \<and> io_run clock_env (demo_world [3, 4]) (EvNow t0 # es) w'
     \<and> bytes_read (Ptr 1) es = [3, 4] \<and> listener_read (Ptr 2) es = [3, 4]"
proof -
  let ?r = "readRaw clock_env (replicate 5 0) 5 10 10 0 (demo_queue False [1, 2]) (demo_world [3, 4])"
  have "case ?r of None \<Rightarrow> False
      | Some (r, d', b', w') \<Rightarrow> r = Inr 4 \<and> take 4 b' = [1, 2, 3, 4] \<and> queued d' = []"
    by code_simp
  from returned_ex [OF this] obtain d' b' w' where
    r: "?r = Some (Inr 4, d', b', w')" "take 4 b' = [1, 2, 3, 4]" "queued d' = []" by blast
  from readRaw_correct [OF test_contracts(1) _ _ _ _ r(1), of "Ptr 1"] obtain t0 es where
    "io_run clock_env (demo_world [3, 4]) (EvNow t0 # es) w'"
    "listener_read (Ptr 2) es = bytes_read (Ptr 1) es"
    "take 4 b' = take 2 [1, 2] @ bytes_read (Ptr 1) es"
    by (auto simp: demo_queue_wf)
  with r show ?thesis by auto
qed

text \<open>C12 \<open>readRaw\<close> returns or throws if the clock moves, however much the stream delivers; the
  inter-byte timeout and the deadline that the first byte resets do not prevent it.\<close>

theorem readRaw_returns:
  assumes "moving_clock env steps"
  shows "\<exists>res d' buffer' w'. readRaw env buffer n pt fb ib d w = Some (res, d', buffer', w')"
  by (rule moving_clock.readRaw_total [OF assms])

lemma readRaw_returns_witness:
  "\<exists>res d' buffer' w'. readRaw clock_env (replicate 5 0) 5 10 10 0 (demo_queue False [1, 2])
     (demo_world [3]) = Some (res, d', buffer', w')"
  by (rule readRaw_returns [OF test_contracts(4)])

end
