(* ===== verification/Timeout_Model.thy ===== *)
theory Timeout_Model
  imports Stream_Interface "HOL-Library.Signed_Division"
begin

text \<open>
  \<^verbatim>\<open>src/src/Timeout.cpp\<close>: the millisecond timeout that \<open>writePacket\<close> uses. \<^verbatim>\<open>time_t\<close> is
  an unbounded integer here; the results are the 32-bit values of the code: \<^verbatim>\<open>elapsed\<close>
  compares as \<^verbatim>\<open>unsigned int\<close>, \<^verbatim>\<open>timeLeft\<close> as \<^verbatim>\<open>int\<close>, and a C++ conversion to either
  keeps the low 32 bits.
\<close>

record timeout =
  timeout_ms :: u32
  start_time :: timeval

definition Timeout_init ::
  "('w, 't) env \<Rightarrow> u32 \<Rightarrow> 'w \<Rightarrow> timeout \<times> 'w" where
  "Timeout_init env t w =
     (case io_gettimeofday env w of (now, w') \<Rightarrow> (\<lparr>timeout_ms = t, start_time = now\<rparr>, w'))"

definition restart :: "('w, 't) env \<Rightarrow> timeout \<Rightarrow> 'w \<Rightarrow> timeout \<times> 'w" where
  "restart env to w = (case io_gettimeofday env w of (now, w') \<Rightarrow> (to\<lparr>start_time := now\<rparr>, w'))"

text \<open>The difference both methods compute; \<^verbatim>\<open>/\<close> truncates towards zero.\<close>

definition elapsed_ms :: "timeval \<Rightarrow> timeval \<Rightarrow> int" where
  "elapsed_ms start now = (tv_sec now - tv_sec start) * 1000 + (tv_usec now - tv_usec start) sdiv 1000"

definition has_elapsed :: "u32 \<Rightarrow> timeval \<Rightarrow> timeval \<Rightarrow> bool" where
  "has_elapsed t start now = (t < word_of_int (elapsed_ms start now))"

definition time_left :: "u32 \<Rightarrow> timeval \<Rightarrow> timeval \<Rightarrow> u32" where
  "time_left t start now =
     (let elapsed = sint (word_of_int (elapsed_ms start now) :: u32)
      in if sint t < elapsed then 0 else t - word_of_int elapsed)"

definition elapsed :: "('w, 't) env \<Rightarrow> timeout \<Rightarrow> 'w \<Rightarrow> bool \<times> 'w" where
  "elapsed env to w =
     (case io_gettimeofday env w of (now, w') \<Rightarrow> (has_elapsed (timeout_ms to) (start_time to) now, w'))"

definition timeLeft :: "('w, 't) env \<Rightarrow> timeout \<Rightarrow> 'w \<Rightarrow> u32 \<times> 'w" where
  "timeLeft env to w =
     (case io_gettimeofday env w of (now, w') \<Rightarrow> (time_left (timeout_ms to) (start_time to) now, w'))"

section \<open>Microseconds\<close>

definition timeval_us :: "timeval \<Rightarrow> int" where
  "timeval_us t = tv_sec t * 1000000 + tv_usec t"

definition timeval_ok :: "timeval \<Rightarrow> bool" where
  "timeval_ok t \<longleftrightarrow> 0 \<le> tv_usec t \<and> tv_usec t < 1000000"

lemma sdiv_1000_bounds: "\<bar>x - 1000 * (x sdiv 1000)\<bar> < (1000 :: int)"
proof (cases "0 \<le> x")
  case True
  then have "x sdiv 1000 = x div 1000" by (simp add: signed_divide_int_def sgn_if)
  then show ?thesis using True by (simp add: minus_mult_div_eq_mod)
next
  case False
  then have "x sdiv 1000 = - ((- x) div 1000)" by (simp add: signed_divide_int_def sgn_if)
  moreover have "\<bar>- x - 1000 * ((- x) div 1000)\<bar> < 1000"
    using False by (simp add: minus_mult_div_eq_mod)
  ultimately show ?thesis by linarith
qed

lemma elapsed_ms_accurate:
  "\<bar>timeval_us now - timeval_us start - 1000 * elapsed_ms start now\<bar> < 1000"
  using sdiv_1000_bounds [of "tv_usec now - tv_usec start"]
  by (simp add: elapsed_ms_def timeval_us_def algebra_simps)

lemma seconds_nonneg: "u < 1000000 \<Longrightarrow> 0 \<le> s * 1000000 + u \<Longrightarrow> 0 \<le> (s :: int)"
proof (rule ccontr)
  assume "u < 1000000" "0 \<le> s * 1000000 + u" "\<not> 0 \<le> s"
  moreover from this(3) have "s \<le> - 1" by simp
  then have "s * 1000000 \<le> - 1 * 1000000" by (intro mult_right_mono) simp_all
  ultimately show False by simp
qed

lemma elapsed_ms_nonneg:
  assumes "timeval_ok start" "timeval_ok now" "timeval_us start \<le> timeval_us now"
  shows "0 \<le> elapsed_ms start now"
proof -
  let ?s = "tv_sec now - tv_sec start" and ?u = "tv_usec now - tv_usec start"
  have u: "- 1000000 < ?u" "?u < 1000000" "0 \<le> ?s * 1000000 + ?u"
    using assms by (auto simp: timeval_ok_def timeval_us_def algebra_simps)
  have s: "0 \<le> ?s" using u(2,3) by (rule seconds_nonneg)
  have "- 1000 < ?s * 1000000 + ?u - 1000 * elapsed_ms start now"
    "?s * 1000000 + ?u - 1000 * elapsed_ms start now < 1000"
    using elapsed_ms_accurate [of now start] by (auto simp: timeval_us_def algebra_simps)
  show ?thesis
  proof (cases "?s = 0")
    case True
    with u have "0 \<le> ?u" by simp
    then have "0 \<le> ?u sdiv 1000" by (simp add: signed_divide_int_def sgn_if)
    with True show ?thesis by (simp add: elapsed_ms_def)
  next
    case False
    have "\<bar>?u - 1000 * (?u sdiv 1000)\<bar> < 1000" by (rule sdiv_1000_bounds)
    with u have "- 1000 \<le> ?u sdiv 1000" by linarith
    with False s show ?thesis by (simp add: elapsed_ms_def)
  qed
qed

text \<open>While the elapsed time fits in an \<^verbatim>\<open>int\<close>, the two methods agree with the integers.\<close>

lemma has_elapsed_int:
  assumes "0 \<le> elapsed_ms start now" "elapsed_ms start now < 2 ^ 32"
  shows "has_elapsed t start now \<longleftrightarrow> uint t < elapsed_ms start now"
  using assms by (simp add: has_elapsed_def word_less_def uint_word_of_int take_bit_int_eq_self)

lemma sint_small: "uint (t :: u32) < 2 ^ 31 \<Longrightarrow> sint t = uint t"
proof -
  assume "uint t < 2 ^ 31"
  moreover have "- (2 ^ 31) \<le> uint t" by (rule order_trans [of _ 0]) simp_all
  ultimately show ?thesis unfolding sint_uint by (intro signed_take_bit_int_eq_self) auto
qed

lemma time_left_int:
  assumes "0 \<le> elapsed_ms start now" "elapsed_ms start now < 2 ^ 31" "uint t < 2 ^ 31"
  shows "uint (time_left t start now) = max 0 (uint t - elapsed_ms start now)"
proof -
  let ?e = "elapsed_ms start now"
  have e: "sint (word_of_int ?e :: u32) = ?e"
    using assms(1,2) by (simp add: sint_sbintrunc' signed_take_bit_int_eq_self)
  show ?thesis
  proof (cases "uint t < ?e")
    case True
    then show ?thesis using e assms by (simp add: time_left_def sint_small)
  next
    case False
    have "uint (t - word_of_int ?e) = (uint t - ?e) mod 2 ^ 32"
      by (simp add: uint_sub_lem uint_word_ariths(2) take_bit_eq_mod uint_word_of_int mod_simps)
    also have "\<dots> = uint t - ?e" using False assms by (intro mod_pos_pos_trivial) auto
    finally show ?thesis using False e assms by (simp add: time_left_def sint_small)
  qed
qed

end
