(* ===== verification/Driver_Write.thy ===== *)
theory Driver_Write
  imports Driver_State Timeout_Model
begin

text \<open>
  The writing side of \<^verbatim>\<open>src/src/Driver.cpp\<close>: \<open>writePacket\<close>. \<open>fromMicroseconds\<close> and
  \<open>toMilliseconds\<close> are \<^verbatim>\<open>base::Time::fromMicroseconds\<close> and
  \<^verbatim>\<open>base::Time::toMilliseconds\<close>, methods of another package, and arguments of the model.
\<close>

text \<open>\<open>n * 1000\<close> on \<^verbatim>\<open>int\<close>: an overflow is undefined.\<close>

definition int_times_1000 :: "int \<Rightarrow> int option" where
  "int_times_1000 n =
     (if - (2 ^ 31) \<le> n * 1000 \<and> n * 1000 < 2 ^ 31 then Some (n * 1000) else None)"

lemma int_times_1000_bounded:
  "0 \<le> n \<Longrightarrow> n \<le> b \<Longrightarrow> b \<le> 2147483 \<Longrightarrow> \<exists>us. int_times_1000 n = Some us \<and> 0 \<le> us \<and> us \<le> 1000 * b"
  by (auto simp: int_times_1000_def)

partial_function (option) writePacket_loop ::
  "(int \<Rightarrow> 't) \<Rightarrow> ('w, 't) env \<Rightarrow> ptr \<Rightarrow> byte list \<Rightarrow> nat \<Rightarrow> timeout \<Rightarrow> nat \<Rightarrow> 't driver \<Rightarrow> 'w
     \<Rightarrow> ((exn + bool) \<times> 't driver \<times> 'w) option" where
  "writePacket_loop fromMicroseconds env p buffer buffer_size time_out written d w =
     (case mem_load buffer written (buffer_size - written) of
        Inl e \<Rightarrow> Some (Inl e, d, w)
      | Inr bs \<Rightarrow>
        (case io_write env p bs w of
           (Inl e, w1) \<Rightarrow> Some (Inl e, d, w1)
         | (Inr c, w1) \<Rightarrow>
             (case mem_load buffer written c of
                Inl e \<Rightarrow> Some (Inl e, d, w1)
              | Inr cs \<Rightarrow>
                 let w2 = notify_write env (m_listeners d) cs w1;
                     written' = written + c in
                 if written' = buffer_size then
                   (case io_now env w2 of (now, w3) \<Rightarrow>
                      Some (Inr True,
                        d\<lparr>m_stats := (m_stats d)\<lparr>stamp := now, tx := tx (m_stats d) + of_nat buffer_size\<rparr>\<rparr>,
                        w3))
                 else
                   (case elapsed env time_out w2 of (late, w3) \<Rightarrow>
                      if late then Some (Inl (TimeoutError PACKET), d, w3)
                      else
                        (case timeLeft env time_out w3 of (remaining_timeout, w4) \<Rightarrow>
                           (case int_times_1000 (sint remaining_timeout) of
                              None \<Rightarrow> Some (Inl UndefinedBehaviour, d, w4)
                            | Some us \<Rightarrow>
                                (case io_waitWrite env p (fromMicroseconds us) w4 of
                                   (Inl e, w5) \<Rightarrow> Some (Inl e, d, w5)
                                 | (Inr writable, w5) \<Rightarrow>
                                     if \<not> writable then Some (Inl (TimeoutError NONE), d, w5)
                                     else writePacket_loop fromMicroseconds env p buffer buffer_size
                                            time_out written' d w5)))))))"

text \<open>The overload with a timeout in milliseconds, an \<^verbatim>\<open>int\<close> that \<^verbatim>\<open>Timeout\<close> takes as
  \<^verbatim>\<open>unsigned int\<close>; then the one with a \<^verbatim>\<open>Time\<close> and the one with the default.\<close>

definition writePacket_ms ::
  "(int \<Rightarrow> 't) \<Rightarrow> ('w, 't) env \<Rightarrow> byte list \<Rightarrow> int \<Rightarrow> int \<Rightarrow> 't driver \<Rightarrow> 'w
     \<Rightarrow> ((exn + bool) \<times> 't driver \<times> 'w) option" where
  "writePacket_ms fromMicroseconds env buffer buffer_size timeout d w =
     (case m_stream d of
        None \<Rightarrow> Some (Inl RuntimeError, d, w)
      | Some p \<Rightarrow>
          (case Timeout_init env (word_of_int timeout) w of (time_out, w1) \<Rightarrow>
             if buffer_size < 0 then Some (Inl UndefinedBehaviour, d, w1)
             else writePacket_loop fromMicroseconds env p buffer (nat buffer_size) time_out 0 d w1))"

definition writePacket ::
  "(int \<Rightarrow> 't) \<Rightarrow> ('t \<Rightarrow> int) \<Rightarrow> ('w, 't) env \<Rightarrow> byte list \<Rightarrow> int \<Rightarrow> 't \<Rightarrow> 't driver \<Rightarrow> 'w
     \<Rightarrow> ((exn + bool) \<times> 't driver \<times> 'w) option" where
  "writePacket fromMicroseconds toMilliseconds env buffer buffer_size timeout d w =
     writePacket_ms fromMicroseconds env buffer buffer_size
       (sint (word_of_int (toMilliseconds timeout) :: u32)) d w"

definition writePacket_default ::
  "(int \<Rightarrow> 't) \<Rightarrow> ('t \<Rightarrow> int) \<Rightarrow> ('w, 't) env \<Rightarrow> byte list \<Rightarrow> int \<Rightarrow> 't driver \<Rightarrow> 'w
     \<Rightarrow> ((exn + bool) \<times> 't driver \<times> 'w) option" where
  "writePacket_default fromMicroseconds toMilliseconds env buffer buffer_size d w =
     writePacket fromMicroseconds toMilliseconds env buffer buffer_size (getWriteTimeout d) d w"

declare writePacket_loop.simps [code]

section \<open>The postcondition\<close>

text \<open>The first \<open>k\<close> bytes went out, and the listeners were shown them; nothing was read.\<close>

definition sent :: "ptr \<Rightarrow> ptr list \<Rightarrow> byte list \<Rightarrow> 't event list \<Rightarrow> bool" where
  "sent p listeners bs es \<longleftrightarrow> bytes_written p es = bs \<and> writes_to p es
     \<and> (\<forall>l \<in> set listeners. listener_written l es = bs \<and> listener_read l es = [])"

lemma sent_append: "sent p ls bs es \<Longrightarrow> sent p ls cs fs \<Longrightarrow> sent p ls (bs @ cs) (es @ fs)"
  by (auto simp: sent_def)

definition write_threw :: "ptr \<Rightarrow> exn \<Rightarrow> 't event list \<Rightarrow> bool" where
  "write_threw p e es \<longleftrightarrow>
     (\<exists>bs. EvWrite p bs (Inl e) \<in> set es) \<or> (\<exists>t. EvWaitWrite p t (Inl e) \<in> set es)"

lemma write_threw_append [simp]:
  "write_threw p e (es @ fs) \<longleftrightarrow> write_threw p e es \<or> write_threw p e fs"
  by (auto simp: write_threw_def)

text \<open>The reason of a throw. \<open>UndefinedBehaviour\<close> needs more than \<open>2147483\<close> ms left.\<close>

definition write_reason :: "ptr \<Rightarrow> timeout \<Rightarrow> 't event list \<Rightarrow> exn \<Rightarrow> bool" where
  "write_reason p time_out es e \<longleftrightarrow>
     e = TimeoutError PACKET
       \<and> (\<exists>t. EvTimeOfDay t \<in> set es \<and> has_elapsed (timeout_ms time_out) (start_time time_out) t)
     \<or> e = TimeoutError NONE \<and> (\<exists>t. EvWaitWrite p t (Inr False) \<in> set es)
     \<or> e = UndefinedBehaviour
       \<and> (\<exists>t. EvTimeOfDay t \<in> set es
            \<and> int_times_1000 (sint (time_left (timeout_ms time_out) (start_time time_out) t)) = None)
     \<or> write_threw p e es"

definition write_ok ::
  "('w, 't) env \<Rightarrow> ptr \<Rightarrow> nat \<Rightarrow> byte list \<Rightarrow> timeout \<Rightarrow> 't driver \<Rightarrow> 'w
     \<Rightarrow> (exn + bool) \<times> 't driver \<times> 'w \<Rightarrow> bool" where
  "write_ok env p full bs time_out d w r \<longleftrightarrow> (case r of (res, d', w') \<Rightarrow>
     \<exists>es k. io_run env w es w' \<and> sent p (m_listeners d) (take k bs) es
       \<and> (case res of
            Inr b \<Rightarrow> b \<and> k = length bs
              \<and> (\<exists>now. d' = d\<lparr>m_stats := (m_stats d)\<lparr>stamp := now,
                   tx := tx (m_stats d) + of_nat full\<rparr>\<rparr>)
          | Inl e \<Rightarrow> k \<le> length bs \<and> (bs \<noteq> [] \<longrightarrow> k < length bs) \<and> d' = d
              \<and> write_reason p time_out es e))"

lemma write_ok_stop:
  assumes "io_run env w es w1" "sent p (m_listeners d) (take c bs) es" "c \<le> length bs"
    and "bs \<noteq> [] \<longrightarrow> c < length bs" "write_reason p time_out es e"
  shows "write_ok env p full bs time_out d w (Inl e, d, w1)"
  using assms by (auto simp: write_ok_def)

lemma write_ok_done:
  assumes "io_run env w es w1" "sent p (m_listeners d) bs es"
  shows "write_ok env p full bs time_out d w
    (Inr True, d\<lparr>m_stats := (m_stats d)\<lparr>stamp := now, tx := tx (m_stats d) + of_nat full\<rparr>\<rparr>, w1)"
  unfolding write_ok_def prod.case sum.case
  by (intro exI [of _ es] exI [of _ "length bs"]) (use assms in auto)

lemma write_reason_later: "write_reason p time_out fs e \<Longrightarrow> write_reason p time_out (es @ fs) e"
  by (auto simp: write_reason_def)

lemma write_ok_go:
  assumes "io_run env w es w1" "sent p (m_listeners d) (take c bs) es" "c < length bs"
    and "write_ok env p full (drop c bs) time_out d w1 r"
  shows "write_ok env p full bs time_out d w r"
proof -
  obtain res d' w' where r: "r = (res, d', w')" by (cases r)
  with assms(4) obtain fs k where f: "io_run env w1 fs w'"
    "sent p (m_listeners d) (take k (drop c bs)) fs"
    and res: "case res of
            Inr b \<Rightarrow> b \<and> k = length (drop c bs)
              \<and> (\<exists>now. d' = d\<lparr>m_stats := (m_stats d)\<lparr>stamp := now,
                   tx := tx (m_stats d) + of_nat full\<rparr>\<rparr>)
          | Inl e \<Rightarrow> k \<le> length (drop c bs) \<and> (drop c bs \<noteq> [] \<longrightarrow> k < length (drop c bs)) \<and> d' = d
              \<and> write_reason p time_out fs e"
    unfolding write_ok_def r prod.case by blast
  have "sent p (m_listeners d) (take (c + k) bs) (es @ fs)"
    using sent_append [OF assms(2) f(2)] by (simp add: take_add)
  moreover have "io_run env w (es @ fs) w'" using assms(1) f(1) by (rule io_run_appendI)
  ultimately show ?thesis
    unfolding write_ok_def r prod.case
    by (intro exI [of _ "es @ fs"] exI [of _ "c + k"])
      (use res assms(3) in \<open>auto intro: write_reason_later split: sum.splits\<close>)
qed

context io_contract
begin

text \<open>One write, and the notification of what it accepted.\<close>

lemma write_round:
  assumes "distinct (m_listeners d)" "io_write env p bs w = (Inr c, w1)"
  shows "io_run env w (EvWrite p bs (Inr c) # map (\<lambda>l. EvWriteData l (take c bs)) (m_listeners d))
      (notify_write env (m_listeners d) (take c bs) w1)"
    and "sent p (m_listeners d) (take c bs)
      (EvWrite p bs (Inr c) # map (\<lambda>l. EvWriteData l (take c bs)) (m_listeners d))"
    and "c \<le> length bs"
  using assms notify_write_run write_bound [OF assms(2)] by (auto simp: sent_def notify_shown)

text \<open>The end of a round that did not write everything.\<close>

lemma write_ok_wait:
  assumes es: "io_run env w es w2" "sent p (m_listeners d) (take c bs) es" "c < length bs"
    and f: "\<And>w. f w = Some r \<Longrightarrow> write_ok env p full (drop c bs) time_out d w r"
    and eq: "(case elapsed env time_out w2 of (late, w3) \<Rightarrow>
        if late then Some (Inl (TimeoutError PACKET), d, w3)
        else
          (case timeLeft env time_out w3 of (remaining_timeout, w4) \<Rightarrow>
             (case int_times_1000 (sint remaining_timeout) of
                None \<Rightarrow> Some (Inl UndefinedBehaviour, d, w4)
              | Some us \<Rightarrow>
                  (case io_waitWrite env p (fromMicroseconds us) w4 of
                     (Inl e, w5) \<Rightarrow> Some (Inl e, d, w5)
                   | (Inr writable, w5) \<Rightarrow>
                       if \<not> writable then Some (Inl (TimeoutError NONE), d, w5) else f w5)))) = Some r"
  shows "write_ok env p full bs time_out d w r"
proof -
  obtain t3 w3 where t3: "io_gettimeofday env w2 = (t3, w3)" by fastforce
  obtain t4 w4 where t4: "io_gettimeofday env w3 = (t4, w4)" by fastforce
  have idle: "sent p (m_listeners d) (take c bs) (es @ fs)"
    if "sent p (m_listeners d) [] fs" for fs using sent_append [OF es(2) that] by simp
  have stop: "write_ok env p full bs time_out d w (Inl e, d, w')"
    if "io_run env w2 fs w'" "sent p (m_listeners d) [] fs" "write_reason p time_out fs e" for fs w' e
    by (rule write_ok_stop [OF io_run_appendI [OF es(1) that(1)] idle [OF that(2)]])
      (use es(3) that(3) in \<open>auto intro: write_reason_later\<close>)
  define left where "left = time_left (timeout_ms time_out) (start_time time_out) t4"
  consider (late) "has_elapsed (timeout_ms time_out) (start_time time_out) t3"
    | (overflow) "\<not> has_elapsed (timeout_ms time_out) (start_time time_out) t3"
        "int_times_1000 (sint left) = None"
    | (wait) us where "\<not> has_elapsed (timeout_ms time_out) (start_time time_out) t3"
        "int_times_1000 (sint left) = Some us" by blast
  then show ?thesis
  proof cases
    case late
    with eq t3 have "r = (Inl (TimeoutError PACKET), d, w3)" by (simp add: elapsed_def)
    with late t3 show ?thesis
      by (auto intro!: stop [of "[EvTimeOfDay t3]"] simp: sent_def write_reason_def)
  next
    case overflow
    with eq t3 t4 have "r = (Inl UndefinedBehaviour, d, w4)"
      by (simp add: elapsed_def timeLeft_def flip: left_def)
    with overflow t3 t4 show ?thesis
      by (auto intro!: stop [of "[EvTimeOfDay t3, EvTimeOfDay t4]"] simp: sent_def write_reason_def left_def)
  next
    case (wait us)
    obtain rr w5 where w5: "io_waitWrite env p (fromMicroseconds us) w4 = (rr, w5)" by fastforce
    let ?fs = "[EvTimeOfDay t3, EvTimeOfDay t4, EvWaitWrite p (fromMicroseconds us) rr]"
    have run: "io_run env w2 ?fs w5" "sent p (m_listeners d) [] ?fs"
      using t3 t4 w5 by (auto simp: sent_def)
    have body: "(case rr of Inl e \<Rightarrow> Some (Inl e, d, w5)
      | Inr writable \<Rightarrow> if \<not> writable then Some (Inl (TimeoutError NONE), d, w5) else f w5) = Some r"
      using eq t3 t4 wait w5 by (simp add: elapsed_def timeLeft_def flip: left_def)
    consider e where "rr = Inl e" | "rr = Inr False" | "rr = Inr True" by (cases rr) auto
    then show ?thesis
    proof cases
      case (1 e)
      with body run show ?thesis
        by (auto intro!: stop [of ?fs] simp: write_reason_def write_threw_def)
    next
      case 2
      with body run show ?thesis by (auto intro!: stop [of ?fs] simp: write_reason_def)
    next
      case 3
      with body have "write_ok env p full (drop c bs) time_out d w5 r" by (auto intro: f)
      with es(3) show ?thesis
        by (intro write_ok_go [OF io_run_appendI [OF es(1) run(1)] idle [OF run(2)]])
    qed
  qed
qed

lemma writePacket_loop_correct:
  assumes "writePacket_loop fromMicroseconds env p buffer n time_out written d w = Some r"
    and "distinct (m_listeners d)" "written \<le> n" "n \<le> length buffer"
  shows "write_ok env p n (take (n - written) (drop written buffer)) time_out d w r"
proof -
  let ?P = "\<lambda>fm' env' p' buffer' n' time_out' written d' w r.
    fm' = fromMicroseconds \<longrightarrow> env' = env \<longrightarrow> p' = p \<longrightarrow> buffer' = buffer \<longrightarrow> n' = n \<longrightarrow> time_out' = time_out \<longrightarrow> d' = d \<longrightarrow>
    written \<le> n \<longrightarrow> write_ok env p n (take (n - written) (drop written buffer)) time_out d w r"
  have "?P fromMicroseconds env p buffer n time_out written d w r"
  proof (rule writePacket_loop.raw_induct [where P = ?P, OF _ assms(1)], intro impI, goal_cases)
    case (1 f fm' env' p' buffer' n' time_out' written d' w r)
    let ?bs = "take (n - written) (drop written buffer)"
    note eqs = 1(3-9)
    have load: "mem_load buffer written (n - written) = Inr ?bs"
      using 1(10) assms(4) by (simp add: mem_load_def)
    have len: "length ?bs = n - written" using assms(4) by simp
    note body = 1(2) [unfolded eqs load sum.case]
    obtain rr w1 where wr: "io_write env p ?bs w = (rr, w1)" by fastforce
    show ?case
    proof (cases rr)
      case (Inl e)
      with body wr have "r = (Inl e, d, w1)" by simp
      with wr Inl show ?thesis
        by (auto intro!: write_ok_stop [where c = 0 and es = "[EvWrite p ?bs (Inl e)]"]
            simp: sent_def write_reason_def write_threw_def)
    next
      case (Inr c)
      note round = write_round [OF assms(2) wr [unfolded Inr]]
      have c: "c \<le> n - written" using round(3) len by simp
      then have cs: "mem_load buffer written c = Inr (take c ?bs)"
        using 1(10) assms(4) by (simp add: mem_load_def min_def)
      let ?w2 = "notify_write env (m_listeners d) (take c ?bs) w1"
      show ?thesis
      proof (cases "written + c = n")
        case True
        obtain now w3 where now: "io_now env ?w2 = (now, w3)" by fastforce
        have "r = (Inr True, d\<lparr>m_stats := (m_stats d)\<lparr>stamp := now, tx := tx (m_stats d) + of_nat n\<rparr>\<rparr>, w3)"
          using body wr Inr cs now True by (simp add: Let_def)
        moreover have "c = n - written" using True by simp
        then have "take c ?bs = ?bs" by simp
        moreover have "sent p (m_listeners d) [] [EvNow now]" by (simp add: sent_def)
        ultimately show ?thesis
          using write_ok_done [OF io_run_appendI [OF round(1)] sent_append [OF round(2)],
              of "[EvNow now]" w3 "[]" n time_out now] now by simp
      next
        case False
        with c len 1(10) have less: "c < length ?bs" by arith
        have rest: "drop c ?bs = take (n - (written + c)) (drop (written + c) buffer)"
          by (simp add: drop_take add.commute)
        show ?thesis
        proof (rule write_ok_wait [OF round(1,2) less, of "f fromMicroseconds env p buffer n time_out (written + c) d" r _ _ fromMicroseconds])
          fix w
          assume "f fromMicroseconds env p buffer n time_out (written + c) d w = Some r"
          then show "write_ok env p n (drop c ?bs) time_out d w r"
            unfolding rest using 1(1) eqs c 1(10) by auto
        qed (use body wr Inr cs False in \<open>simp add: Let_def eqs\<close>)
      qed
    qed
  qed
  with assms(3) show ?thesis by blast
qed

lemma writePacket_runs:
  assumes "driver_wf d" "m_stream d = Some p"
    and "0 \<le> buffer_size" "nat buffer_size \<le> length buffer"
    and "writePacket_ms fromMicroseconds env buffer buffer_size timeout d w = Some (res, d', w')"
  shows "\<exists>start es k. io_run env w (EvTimeOfDay start # es) w'
    \<and> sent p (m_listeners d) (take k buffer) es
    \<and> (case res of
         Inr b \<Rightarrow> b \<and> k = nat buffer_size
           \<and> (\<exists>now. d' = d\<lparr>m_stats := (m_stats d)\<lparr>stamp := now,
                tx := tx (m_stats d) + of_nat (nat buffer_size)\<rparr>\<rparr>)
       | Inl e \<Rightarrow> k \<le> nat buffer_size \<and> (0 < buffer_size \<longrightarrow> k < nat buffer_size) \<and> d' = d
           \<and> write_reason p \<lparr>timeout_ms = word_of_int timeout, start_time = start\<rparr> es e)"
proof -
  obtain start w1 where s: "io_gettimeofday env w = (start, w1)" by fastforce
  let ?to = "\<lparr>timeout_ms = word_of_int timeout, start_time = start\<rparr>"
  have "writePacket_loop fromMicroseconds env p buffer (nat buffer_size) ?to 0 d w1 = Some (res, d', w')"
    using assms(2,3,5) s by (simp add: writePacket_ms_def Timeout_init_def)
  from writePacket_loop_correct [OF this _ _ assms(4)] assms(1)
  obtain es k where e: "io_run env w1 es w'"
    "sent p (m_listeners d) (take k (take (nat buffer_size) buffer)) es"
    and res: "case res of
            Inr b \<Rightarrow> b \<and> k = length (take (nat buffer_size) buffer)
              \<and> (\<exists>now. d' = d\<lparr>m_stats := (m_stats d)\<lparr>stamp := now,
                   tx := tx (m_stats d) + of_nat (nat buffer_size)\<rparr>\<rparr>)
          | Inl e \<Rightarrow> k \<le> length (take (nat buffer_size) buffer)
              \<and> (take (nat buffer_size) buffer \<noteq> [] \<longrightarrow> k < length (take (nat buffer_size) buffer)) \<and> d' = d
              \<and> write_reason p ?to es e"
    by (auto simp: write_ok_def driver_wf_def)
  have k: "k \<le> nat buffer_size" "length (take (nat buffer_size) buffer) = nat buffer_size"
    using res assms(4) by (auto split: sum.splits)
  have "sent p (m_listeners d) (take k buffer) es" using e(2) k(1) by (simp add: min_def)
  moreover have "0 < buffer_size \<longrightarrow> take (nat buffer_size) buffer \<noteq> []" using k(2) by auto
  ultimately show ?thesis
    using s e(1) res k(2) by (intro exI [of _ start] exI [of _ es] exI [of _ k]) (auto split: sum.splits)
qed

end

section \<open>The loop returns\<close>

text \<open>
  A sink that does not refuse for ever: \<open>stuck\<close> bounds how many writes in a row may accept
  nothing. (A clock that moves would do as well, unless the timeout is the largest
  \<^verbatim>\<open>unsigned int\<close>, which never elapses.)
\<close>

locale accepting_sink = io_contract env
  for env :: "('w, 't::linordered_ab_group_add) env" +
  fixes stuck :: "ptr \<Rightarrow> 'w \<Rightarrow> nat"
  assumes refused: "io_write env p bs w = (Inr 0, w') \<Longrightarrow> bs \<noteq> [] \<Longrightarrow> stuck p w' < stuck p w"
    and step_stuck: "io_step env w e w' \<Longrightarrow> \<not> is_write e \<Longrightarrow> stuck p w' \<le> stuck p w"
begin

lemma notify_stuck: "stuck p (notify_write env ls bs w) \<le> stuck p w"
proof (induction ls arbitrary: w)
  case (Cons l ls)
  have "stuck p (li_writeData env l bs w) \<le> stuck p w"
    using step_stuck [of w "EvWriteData l bs"] by simp
  with Cons [of "li_writeData env l bs w"] show ?case by (simp add: notify_write_def)
qed (simp add: notify_write_def)

lemma writePacket_loop_returns:
  assumes "written \<le> n" "n \<le> length buffer"
  shows "\<exists>r. writePacket_loop fromMicroseconds env p buffer n time_out written d w = Some r"
  using assms(1)
proof (induction "(n - written, stuck p w)" arbitrary: written w rule: wf_induct_rule [OF wf_lex_prod [OF wf_less_than wf_less_than]])
  case (1 written w)
  let ?bs = "take (n - written) (drop written buffer)"
  have load: "mem_load buffer written (n - written) = Inr ?bs"
    using 1(2) assms(2) by (simp add: mem_load_def)
  have len: "length ?bs = n - written" using assms(2) by simp
  obtain rr w1 where wr: "io_write env p ?bs w = (rr, w1)" by fastforce
  show ?case
  proof (cases rr)
    case (Inl e)
    with load wr show ?thesis by (subst writePacket_loop.simps) simp
  next
    case (Inr c)
    have c: "c \<le> n - written" using write_bound [of p ?bs w c w1] wr Inr len by simp
    then have "mem_load buffer written c = Inr (take c (drop written buffer))"
      using 1(2) assms(2) by (simp add: mem_load_def)
    then obtain cs where cs: "mem_load buffer written c = Inr cs" by blast
    let ?w2 = "notify_write env (m_listeners d) cs w1"
    show ?thesis
    proof (cases "written + c = n")
      case True
      with load wr Inr cs show ?thesis
        by (subst writePacket_loop.simps) (auto simp: Let_def split: prod.splits)
    next
      case False
      obtain t3 w3 where t3: "io_gettimeofday env ?w2 = (t3, w3)" by fastforce
      obtain t4 w4 where t4: "io_gettimeofday env w3 = (t4, w4)" by fastforce
      have more: "\<exists>r. writePacket_loop fromMicroseconds env p buffer n time_out (written + c) d w5 = Some r"
        if "io_waitWrite env p t w4 = (Inr b, w5)" for t b w5
      proof (rule 1(1))
        have "stuck p w5 \<le> stuck p w4" using step_stuck [of w4 "EvWaitWrite p t (Inr b)"] that by simp
        also have "\<dots> \<le> stuck p w3" using step_stuck [of w3 "EvTimeOfDay t4"] t4 by simp
        also have "\<dots> \<le> stuck p ?w2" using step_stuck [of ?w2 "EvTimeOfDay t3"] t3 by simp
        also have "\<dots> \<le> stuck p w1" by (rule notify_stuck)
        finally have "c = 0 \<Longrightarrow> stuck p w5 < stuck p w"
          using refused [of p ?bs w w1] wr Inr False len 1(2) by (cases "?bs = []") auto
        then show "((n - (written + c), stuck p w5), n - written, stuck p w) \<in> less_than <*lex*> less_than"
          using c False 1(2) by (cases "c = 0") auto
        show "written + c \<le> n" using c 1(2) by simp
      qed
      show ?thesis
        by (subst writePacket_loop.simps)
          (use load wr Inr cs False t3 t4 more in
            \<open>auto simp: Let_def elapsed_def timeLeft_def split: option.splits sum.splits prod.splits\<close>)
    qed
  qed
qed

lemma writePacket_total:
  assumes "m_stream d = Some p" "nat buffer_size \<le> length buffer"
  shows "\<exists>res d' w'. writePacket_ms fromMicroseconds env buffer buffer_size timeout d w = Some (res, d', w')"
proof -
  obtain time_out w1 where t: "Timeout_init env (word_of_int timeout) w = (time_out, w1)"
    by fastforce
  have "\<exists>r. writePacket_loop fromMicroseconds env p buffer (nat buffer_size) time_out 0 d w1 = Some r"
    by (rule writePacket_loop_returns [OF _ assms(2)]) simp
  then show ?thesis
    using assms(1) t by (cases "buffer_size < 0") (auto simp: writePacket_ms_def)
qed

end

end
