(* ===== verification/Driver_Writing.thy ===== *)
theory Driver_Writing
  imports Driver_Write Driver_Reading
begin

text \<open>The properties of the writing side of \<open>Driver\<close> and of the timeout it uses.\<close>

interpretation test_sink: accepting_sink "test_env now tod" "\<lambda>p w. 0"
  for now :: "'c \<Rightarrow> 't::linordered_ab_group_add \<times> 'c" and tod
  by unfold_locales
    (auto simp: on_stream_def split: option.splits prod.splits dest!: TestStream_write_bound)

lemma test_sink_contract: "accepting_sink (test_env now tod) (\<lambda>p w. 0)"
  by unfold_locales

section \<open>writePacket\<close>

text \<open>C7 \<open>writePacket\<close> on an open driver, however it ends: the stream has accepted a prefix of
  the packet, in order and without repetition, and every listener has been shown exactly that
  prefix; nothing was read. On return it is the whole packet and only \<open>tx\<close> (by the size of the
  packet) and \<open>stamp\<close> have changed. On a throw the packet is incomplete, the driver is
  unchanged, and the timeout had elapsed (\<open>PACKET\<close>), the stream was not writable in the time
  left (\<open>NONE\<close>), the stream threw, or more milliseconds were left than \<^verbatim>\<open>int\<close> microseconds
  can hold.\<close>

theorem writePacket_correct:
  assumes "io_contract env" "driver_wf d" "m_stream d = Some p"
    and "0 \<le> buffer_size" "nat buffer_size \<le> length buffer"
    and "writePacket_ms fromMicroseconds env buffer buffer_size timeout d w = Some (res, d', w')"
  shows "\<exists>start es k. io_run env w (EvTimeOfDay start # es) w'
    \<and> sent p (m_listeners d) (take k buffer) es
    \<and> (case res of
         Inr b \<Rightarrow> b \<and> k = nat buffer_size
           \<and> (\<exists>now. d' = d\<lparr>m_stats := (m_stats d)\<lparr>stamp := now,
                tx := tx (m_stats d) + of_nat (nat buffer_size)\<rparr>\<rparr>)
       | Inl e \<Rightarrow> k \<le> nat buffer_size \<and> (0 < buffer_size \<longrightarrow> k < nat buffer_size) \<and> d' = d
           \<and> write_reason p \<lparr>timeout_ms = word_of_int timeout, start_time = start\<rparr> es e)"
  by (rule io_contract.writePacket_runs [OF assms])

text \<open>A stream in mock mode that expects \<open>[1, 2, 3]\<close> and answers \<open>[0, 9, 9, 0]\<close>.\<close>

definition mock_world :: "int world" where
  "mock_world =
     (demo_world [])\<lparr>w_streams := (\<lambda>_. None)(Ptr 1 \<mapsto>
        snd (EXPECT_REPLY [1, 2, 3] [0, 9, 9, 0] (setMockMode True TestStream_init)))\<rparr>"

lemma writePacket_correct_witness:
  "\<exists>d' w' start es k. writePacket_ms id clock_env [1, 2, 3] 3 10 (demo_driver False) mock_world
       = Some (Inr True, d', w')
     \<and> tx (m_stats d') = 3 \<and> available (Ptr 1) w' = 4
     \<and> io_run clock_env mock_world (EvTimeOfDay start # es) w'
     \<and> sent (Ptr 1) [Ptr 2] (take k [1, 2, 3]) es \<and> k = 3"
proof -
  let ?r = "writePacket_ms id clock_env [1, 2, 3] 3 10 (demo_driver False) mock_world"
  have "case ?r of None \<Rightarrow> False
      | Some (r, d', w') \<Rightarrow> r = Inr True \<and> tx (m_stats d') = 3 \<and> available (Ptr 1) w' = 4"
    by code_simp
  then obtain d' w' where
    r: "?r = Some (Inr True, d', w')" "tx (m_stats d') = 3" "available (Ptr 1) w' = 4"
    by (cases ?r) auto
  from writePacket_correct [OF test_contracts(1) _ _ _ _ r(1), of "Ptr 1"] r
  show ?thesis by (auto simp: demo_wf)
qed

text \<open>C8 \<open>writePacket\<close> returns or throws, on a stream that does not refuse bytes for ever.\<close>

theorem writePacket_returns:
  assumes "accepting_sink env stuck" "m_stream d = Some p" "nat buffer_size \<le> length buffer"
  shows "\<exists>res d' w'. writePacket_ms fromMicroseconds env buffer buffer_size timeout d w = Some (res, d', w')"
  by (rule accepting_sink.writePacket_total [OF assms])

lemma writePacket_returns_witness:
  "\<exists>res d' w'. writePacket_ms id clock_env [1, 2, 3] 3 10 (demo_driver False) (demo_world [])
     = Some (res, d', w')"
  by (rule writePacket_returns [OF test_sink_contract, of _ "Ptr 1"]) (auto simp: demo_wf)

section \<open>Timeout\<close>

text \<open>C9 While the clock does not run backwards and less than \<open>2 ^ 31\<close> ms have passed, the two
  methods of \<open>Timeout\<close> compute what they say: \<open>elapsed\<close> is true when more than the timeout has
  passed, \<open>timeLeft\<close> is what is missing (zero when nothing is), they agree with each other, and
  the milliseconds they compute are less than one off the microseconds of the clock.\<close>

theorem Timeout_consistent:
  assumes "timeval_ok start" "timeval_ok now" "timeval_us start \<le> timeval_us now"
    and "elapsed_ms start now < 2 ^ 31" "uint t < 2 ^ 31"
  shows "(has_elapsed t start now \<longleftrightarrow> uint t < elapsed_ms start now)
    \<and> uint (time_left t start now) = max 0 (uint t - elapsed_ms start now)
    \<and> (has_elapsed t start now \<longrightarrow> time_left t start now = 0)
    \<and> \<bar>timeval_us now - timeval_us start - 1000 * elapsed_ms start now\<bar> < 1000"
proof -
  have "0 \<le> elapsed_ms start now" using assms(1-3) by (rule elapsed_ms_nonneg)
  note int = has_elapsed_int [OF this, of t] time_left_int [OF this assms(4,5)]
  moreover have "uint (time_left t start now) = 0 \<Longrightarrow> time_left t start now = 0"
    by (simp add: unsigned_eq_0_iff)
  ultimately show ?thesis using assms(4) elapsed_ms_accurate by auto
qed

lemma Timeout_consistent_witness:
  "has_elapsed 5 \<lparr>tv_sec = 1, tv_usec = 999000\<rparr> \<lparr>tv_sec = 2, tv_usec = 5000\<rparr>
   \<and> time_left 5 \<lparr>tv_sec = 1, tv_usec = 999000\<rparr> \<lparr>tv_sec = 2, tv_usec = 5000\<rparr> = 0"
proof -
  have e: "elapsed_ms \<lparr>tv_sec = 1, tv_usec = 999000\<rparr> \<lparr>tv_sec = 2, tv_usec = 5000\<rparr> = 6"
    by code_simp
  show ?thesis
    using Timeout_consistent [of "\<lparr>tv_sec = 1, tv_usec = 999000\<rparr>" "\<lparr>tv_sec = 2, tv_usec = 5000\<rparr>" 5]
    by (simp add: e timeval_ok_def timeval_us_def)
qed



text \<open>Outside those bounds: a clock that steps back by a millisecond makes \<open>elapsed\<close> true while
  \<open>timeLeft\<close> reports more than the timeout; a timeout of \<open>2147484\<close> ms overflows the product.\<close>

lemma Timeout_clock_steps_back:
  "has_elapsed 5 \<lparr>tv_sec = 2, tv_usec = 0\<rparr> \<lparr>tv_sec = 1, tv_usec = 999000\<rparr>
   \<and> time_left 5 \<lparr>tv_sec = 2, tv_usec = 0\<rparr> \<lparr>tv_sec = 1, tv_usec = 999000\<rparr> = 6"
  by code_simp

lemma writePacket_long_timeout_overflows:
  "int_times_1000 (sint (time_left 2147484 \<lparr>tv_sec = 1, tv_usec = 0\<rparr> \<lparr>tv_sec = 1, tv_usec = 0\<rparr>)) = None"
  by code_simp

end
