(* ===== verification/Os_Interface.thy ===== *)
theory Os_Interface
  imports Stream_Interface "HOL-Library.Signed_Division"
begin

text \<open>
  The operating system under the streams of \<^verbatim>\<open>src/src/IOStream.cpp\<close>: the system calls
  they make, as a record of functions on a state \<open>'o\<close> that the code does not see, and what
  the manual pages promise of them (the locale \<open>posix\<close>). A failing call is \<open>Inl errno\<close>.
  The numbers are those of Linux.
\<close>

unbundle bit_operations_syntax

section \<open>Constants\<close>

definition EINTR :: int where "EINTR = 4"
definition EAGAIN :: int where "EAGAIN = 11"
definition EPIPE :: int where "EPIPE = 32"
definition ENETUNREACH :: int where "ENETUNREACH = 101"
definition ENOBUFS :: int where "ENOBUFS = 105"
definition ECONNREFUSED :: int where "ECONNREFUSED = 111"
definition EHOSTUNREACH :: int where "EHOSTUNREACH = 113"

definition MSG_PEEK :: int where "MSG_PEEK = 2"
definition MSG_NOSIGNAL :: int where "MSG_NOSIGNAL = 16384"

definition O_NONBLOCK :: "64 word" where "O_NONBLOCK = 2048"

definition FD_SETSIZE :: int where "FD_SETSIZE = 1024"

text \<open>\<^verbatim>\<open>sizeof(struct sockaddr)\<close> and \<^verbatim>\<open>sizeof(struct sockaddr_un)\<close>.\<close>

definition sizeof_sockaddr :: nat where "sizeof_sockaddr = 16"
definition sizeof_sockaddr_un :: nat where "sizeof_sockaddr_un = 110"

named_theorems errno_defs \<open>the values of the error numbers\<close>

lemmas [errno_defs] = EINTR_def EAGAIN_def EPIPE_def ENETUNREACH_def ENOBUFS_def
  ECONNREFUSED_def EHOSTUNREACH_def

section \<open>System calls\<close>

text \<open>\<open>sys_select_read fd t\<close> is \<^verbatim>\<open>select\<close> on the one descriptor: \<open>Inr True\<close> for a positive
  result. An address is the bytes of its \<^verbatim>\<open>sockaddr\<close>.\<close>

record ('o, 't) os =
  sys_now :: "'o \<Rightarrow> 't \<times> 'o"
  sys_gettimeofday :: "'o \<Rightarrow> timeval \<times> 'o"
  sys_select_read :: "int \<Rightarrow> timeval \<Rightarrow> 'o \<Rightarrow> (int + bool) \<times> 'o"
  sys_select_write :: "int \<Rightarrow> timeval \<Rightarrow> 'o \<Rightarrow> (int + bool) \<times> 'o"
  sys_read :: "int \<Rightarrow> nat \<Rightarrow> 'o \<Rightarrow> (int + byte list) \<times> 'o"
  sys_write :: "int \<Rightarrow> byte list \<Rightarrow> 'o \<Rightarrow> (int + nat) \<times> 'o"
  sys_recv :: "int \<Rightarrow> nat \<Rightarrow> int \<Rightarrow> 'o \<Rightarrow> (int + byte list) \<times> 'o"
  sys_send :: "int \<Rightarrow> byte list \<Rightarrow> int \<Rightarrow> 'o \<Rightarrow> (int + nat) \<times> 'o"
  sys_recvfrom :: "int \<Rightarrow> nat \<Rightarrow> int \<Rightarrow> 'o \<Rightarrow> (int + byte list \<times> byte list) \<times> 'o"
  sys_sendto :: "int \<Rightarrow> byte list \<Rightarrow> int \<Rightarrow> byte list \<Rightarrow> 'o \<Rightarrow> (int + nat) \<times> 'o"
  sys_getfl :: "int \<Rightarrow> 'o \<Rightarrow> 64 word \<times> 'o"
  sys_setfl :: "int \<Rightarrow> 64 word \<Rightarrow> 'o \<Rightarrow> (int + unit) \<times> 'o"
  sys_accept :: "int \<Rightarrow> 'o \<Rightarrow> (int + int) \<times> 'o"
  sys_close :: "int \<Rightarrow> 'o \<Rightarrow> 'o"

text \<open>The conversions of \<^verbatim>\<open>base::Time\<close> that the library uses; \<open>toSeconds\<close> is the number of
  whole seconds, the \<^verbatim>\<open>double\<close> of the code cast to \<^verbatim>\<open>time_t\<close>.\<close>

record 't time_ops =
  toSeconds :: "'t \<Rightarrow> int"
  toMicroseconds :: "'t \<Rightarrow> int"
  toMilliseconds :: "'t \<Rightarrow> int"
  fromMicroseconds :: "int \<Rightarrow> 't"
  fromMilliseconds :: "int \<Rightarrow> 't"

text \<open>\<^verbatim>\<open>timeout_spec\<close> of the four \<^verbatim>\<open>waitRead\<close>/\<^verbatim>\<open>waitWrite\<close> methods.\<close>

definition timeout_spec :: "'t time_ops \<Rightarrow> 't \<Rightarrow> timeval" where
  "timeout_spec T timeout =
     \<lparr>tv_sec = toSeconds T timeout, tv_usec = toMicroseconds T timeout smod 1000000\<rparr>"

section \<open>What the manual pages promise\<close>

text \<open>A call never transfers more than it was asked to.\<close>

locale posix =
  fixes os :: "('o, 't::linordered_ab_group_add) os"
  assumes posix_read: "sys_read os fd n w = (Inr bs, w') \<Longrightarrow> length bs \<le> n"
    and posix_write: "sys_write os fd bs w = (Inr c, w') \<Longrightarrow> c \<le> length bs"
    and posix_recv: "sys_recv os fd n fl w = (Inr bs, w') \<Longrightarrow> length bs \<le> n"
    and posix_send: "sys_send os fd bs fl w = (Inr c, w') \<Longrightarrow> c \<le> length bs"
    and posix_recvfrom: "sys_recvfrom os fd n fl w = (Inr (bs, a), w') \<Longrightarrow> length bs \<le> n"
    and posix_sendto: "sys_sendto os fd bs fl a w = (Inr c, w') \<Longrightarrow> c \<le> length bs"

text \<open>A clock that moves, as in \<open>live_env\<close>, and that no other call turns back.\<close>

datatype 't syscall =
    CallNow | CallTimeOfDay
  | CallSelectRead int timeval | CallSelectWrite int timeval
  | CallRead int nat | CallWrite int "byte list"
  | CallRecv int nat int | CallSend int "byte list" int
  | CallRecvfrom int nat int | CallSendto int "byte list" int "byte list"
  | CallGetfl int | CallSetfl int "64 word" | CallAccept int | CallClose int

fun after :: "('o, 't) os \<Rightarrow> 't syscall \<Rightarrow> 'o \<Rightarrow> 'o" where
  "after os CallNow w = snd (sys_now os w)"
| "after os CallTimeOfDay w = snd (sys_gettimeofday os w)"
| "after os (CallSelectRead fd t) w = snd (sys_select_read os fd t w)"
| "after os (CallSelectWrite fd t) w = snd (sys_select_write os fd t w)"
| "after os (CallRead fd n) w = snd (sys_read os fd n w)"
| "after os (CallWrite fd bs) w = snd (sys_write os fd bs w)"
| "after os (CallRecv fd n fl) w = snd (sys_recv os fd n fl w)"
| "after os (CallSend fd bs fl) w = snd (sys_send os fd bs fl w)"
| "after os (CallRecvfrom fd n fl) w = snd (sys_recvfrom os fd n fl w)"
| "after os (CallSendto fd bs fl a) w = snd (sys_sendto os fd bs fl a w)"
| "after os (CallGetfl fd) w = snd (sys_getfl os fd w)"
| "after os (CallSetfl fd x) w = snd (sys_setfl os fd x w)"
| "after os (CallAccept fd) w = snd (sys_accept os fd w)"
| "after os (CallClose fd) w = sys_close os fd w"

locale live_posix = posix os for os :: "('o, 't::linordered_ab_group_add) os" +
  fixes readings_left :: "'t \<Rightarrow> 'o \<Rightarrow> nat"
  assumes clock_moves:
      "sys_now os w = (t, w') \<Longrightarrow> t \<le> d \<Longrightarrow> readings_left d w' < readings_left d w"
    and clock_kept: "readings_left d (after os c w) \<le> readings_left d w"

end
