(* ===== verification/Fd_Stream.thy ===== *)
theory Fd_Stream
  imports Os_Interface
begin

text \<open>
  \<open>FDStream\<close> and \<open>SocketStream\<close> of \<^verbatim>\<open>src/src/IOStream.cpp\<close>. Each method is a function on
  the object and the state of the operating system; a constructor that throws makes no
  object.
\<close>

section \<open>FDStream\<close>

record fd_stream =
  fd_auto_close :: bool
  fd_has_eof :: bool
  fd_eof :: bool
  fd_no :: int

definition setNonBlockingFlag :: "('o, 't) os \<Rightarrow> int \<Rightarrow> 'o \<Rightarrow> (exn + bool) \<times> 'o" where
  "setNonBlockingFlag os fd w =
     (case sys_getfl os fd w of (fd_flags, w1) \<Rightarrow>
        if fd_flags AND O_NONBLOCK = 0 then
          (case sys_setfl os fd (fd_flags OR O_NONBLOCK) w1 of
             (Inl errno, w2) \<Rightarrow> (Inl (UnixError errno), w2)
           | (Inr _, w2) \<Rightarrow> (Inr True, w2))
        else (Inr False, w1))"

definition FDStream_init ::
  "('o, 't) os \<Rightarrow> int \<Rightarrow> bool \<Rightarrow> bool \<Rightarrow> 'o \<Rightarrow> (exn + fd_stream) \<times> 'o" where
  "FDStream_init os fd auto_close has_eof w =
     try_then (setNonBlockingFlag os fd w) (\<lambda>_ w1.
       (Inr \<lparr>fd_auto_close = auto_close, fd_has_eof = has_eof, fd_eof = False, fd_no = fd\<rparr>, w1))"

definition FDStream_destroy :: "('o, 't) os \<Rightarrow> 'z fd_stream_scheme \<Rightarrow> 'o \<Rightarrow> 'o" where
  "FDStream_destroy os s w = (if fd_auto_close s then sys_close os (fd_no s) w else w)"

definition FDStream_setAutoClose :: "bool \<Rightarrow> 'z fd_stream_scheme \<Rightarrow> 'z fd_stream_scheme" where
  "FDStream_setAutoClose flag s = s\<lparr>fd_auto_close := flag\<rparr>"

text \<open>\<^verbatim>\<open>FD_SET\<close> is undefined for a descriptor outside the set.\<close>

definition select_fd ::
  "(int \<Rightarrow> timeval \<Rightarrow> 'o \<Rightarrow> (int + bool) \<times> 'o) \<Rightarrow> int \<Rightarrow> timeval \<Rightarrow> 'o \<Rightarrow> (exn + bool) \<times> 'o" where
  "select_fd sys fd t w =
     (if fd < 0 \<or> FD_SETSIZE \<le> fd then (Inl UndefinedBehaviour, w)
      else case sys fd t w of
             (Inl errno, w1) \<Rightarrow> (if errno \<noteq> EINTR then Inl (UnixError errno) else Inr False, w1)
           | (Inr ready, w1) \<Rightarrow> (Inr ready, w1))"

definition FDStream_waitRead ::
  "'t time_ops \<Rightarrow> ('o, 't) os \<Rightarrow> 't \<Rightarrow> 'z fd_stream_scheme \<Rightarrow> 'o \<Rightarrow> (exn + bool) \<times> 'o" where
  "FDStream_waitRead T os timeout s w =
     select_fd (sys_select_read os) (fd_no s) (timeout_spec T timeout) w"

definition FDStream_waitWrite ::
  "'t time_ops \<Rightarrow> ('o, 't) os \<Rightarrow> 't \<Rightarrow> 'z fd_stream_scheme \<Rightarrow> 'o \<Rightarrow> (exn + bool) \<times> 'o" where
  "FDStream_waitWrite T os timeout s w =
     select_fd (sys_select_write os) (fd_no s) (timeout_spec T timeout) w"

definition FDStream_read ::
  "('o, 't) os \<Rightarrow> nat \<Rightarrow> fd_stream \<Rightarrow> 'o \<Rightarrow> (exn + byte list) \<times> fd_stream \<times> 'o" where
  "FDStream_read os buffer_size s w =
     (case sys_read os (fd_no s) buffer_size w of
        (Inr bs, w1) \<Rightarrow>
          if bs \<noteq> [] then (Inr bs, s, w1) else (Inr [], s\<lparr>fd_eof := fd_has_eof s\<rparr>, w1)
      | (Inl errno, w1) \<Rightarrow>
          if errno = EAGAIN then (Inr [], s, w1) else (Inl (UnixError errno), s, w1))"

definition FDStream_write ::
  "('o, 't) os \<Rightarrow> byte list \<Rightarrow> 'z fd_stream_scheme \<Rightarrow> 'o \<Rightarrow> (exn + nat) \<times> 'o" where
  "FDStream_write os buffer s w =
     (case sys_write os (fd_no s) buffer w of
        (Inl errno, w1) \<Rightarrow>
          (if errno \<noteq> EAGAIN \<and> errno \<noteq> ENOBUFS then Inl (UnixError errno) else Inr 0, w1)
      | (Inr c, w1) \<Rightarrow> (Inr c, w1))"

definition FDStream_eof :: "'z fd_stream_scheme \<Rightarrow> bool" where
  "FDStream_eof s = fd_eof s"

definition FDStream_clear :: "'z fd_stream_scheme \<Rightarrow> 'z fd_stream_scheme" where
  "FDStream_clear s = s"

definition FDStream_getFileDescriptor :: "'z fd_stream_scheme \<Rightarrow> int" where
  "FDStream_getFileDescriptor s = fd_no s"

section \<open>SocketStream\<close>

record socket_stream =
  so_auto_close :: bool
  so_has_eof :: bool
  so_eof :: bool
  so_fd :: int
  so_send_flags :: int
  so_recv_flags :: int

definition SocketStream_setNonBlockingFlag :: "('o, 't) os \<Rightarrow> int \<Rightarrow> 'o \<Rightarrow> (exn + bool) \<times> 'o" where
  "SocketStream_setNonBlockingFlag os fd w =
     (case sys_getfl os fd w of (fd_flags, w1) \<Rightarrow>
        if fd_flags AND O_NONBLOCK = 0 then
          (case sys_setfl os fd (fd_flags OR O_NONBLOCK) w1 of
             (Inl errno, w2) \<Rightarrow> (Inl (UnixError errno), w2)
           | (Inr _, w2) \<Rightarrow> (Inr True, w2))
        else (Inr False, w1))"

text \<open>The class repeats the method of \<open>FDStream\<close>.\<close>

lemma SocketStream_setNonBlockingFlag_same [simp]: "SocketStream_setNonBlockingFlag = setNonBlockingFlag"
  by (intro ext) (simp add: SocketStream_setNonBlockingFlag_def setNonBlockingFlag_def)

definition SocketStream_init ::
  "('o, 't) os \<Rightarrow> int \<Rightarrow> bool \<Rightarrow> bool \<Rightarrow> 'o \<Rightarrow> (exn + socket_stream) \<times> 'o" where
  "SocketStream_init os fd auto_close has_eof w =
     try_then (SocketStream_setNonBlockingFlag os fd w) (\<lambda>_ w1.
       (Inr \<lparr>so_auto_close = auto_close, so_has_eof = has_eof, so_eof = False, so_fd = fd,
             so_send_flags = 0, so_recv_flags = 0\<rparr>, w1))"

definition SocketStream_destroy :: "('o, 't) os \<Rightarrow> socket_stream \<Rightarrow> 'o \<Rightarrow> 'o" where
  "SocketStream_destroy os s w = (if so_auto_close s then sys_close os (so_fd s) w else w)"

definition setSendFlags :: "int \<Rightarrow> socket_stream \<Rightarrow> socket_stream" where
  "setSendFlags flags s = s\<lparr>so_send_flags := flags\<rparr>"

definition setRecvFlags :: "int \<Rightarrow> socket_stream \<Rightarrow> socket_stream" where
  "setRecvFlags flags s = s\<lparr>so_recv_flags := flags\<rparr>"

definition SocketStream_setAutoClose :: "bool \<Rightarrow> socket_stream \<Rightarrow> socket_stream" where
  "SocketStream_setAutoClose flag s = s\<lparr>so_auto_close := flag\<rparr>"

definition SocketStream_waitRead ::
  "'t time_ops \<Rightarrow> ('o, 't) os \<Rightarrow> 't \<Rightarrow> socket_stream \<Rightarrow> 'o \<Rightarrow> (exn + bool) \<times> 'o" where
  "SocketStream_waitRead T os timeout s w =
     select_fd (sys_select_read os) (so_fd s) (timeout_spec T timeout) w"

definition SocketStream_waitWrite ::
  "'t time_ops \<Rightarrow> ('o, 't) os \<Rightarrow> 't \<Rightarrow> socket_stream \<Rightarrow> 'o \<Rightarrow> (exn + bool) \<times> 'o" where
  "SocketStream_waitWrite T os timeout s w =
     select_fd (sys_select_write os) (so_fd s) (timeout_spec T timeout) w"

definition SocketStream_read ::
  "('o, 't) os \<Rightarrow> nat \<Rightarrow> socket_stream \<Rightarrow> 'o \<Rightarrow> (exn + byte list) \<times> socket_stream \<times> 'o" where
  "SocketStream_read os buffer_size s w =
     (case sys_recv os (so_fd s) buffer_size (so_recv_flags s) w of
        (Inr bs, w1) \<Rightarrow>
          if bs \<noteq> [] then (Inr bs, s, w1) else (Inr [], s\<lparr>so_eof := so_has_eof s\<rparr>, w1)
      | (Inl errno, w1) \<Rightarrow>
          if errno = EAGAIN then (Inr [], s, w1) else (Inl (UnixError errno), s, w1))"

definition SocketStream_write ::
  "('o, 't) os \<Rightarrow> byte list \<Rightarrow> socket_stream \<Rightarrow> 'o \<Rightarrow> (exn + nat) \<times> 'o" where
  "SocketStream_write os buffer s w =
     (case sys_send os (so_fd s) buffer (so_send_flags s) w of
        (Inl errno, w1) \<Rightarrow>
          (if errno \<noteq> EAGAIN \<and> errno \<noteq> ENOBUFS then Inl (UnixError errno) else Inr 0, w1)
      | (Inr c, w1) \<Rightarrow> (Inr c, w1))"

definition SocketStream_eof :: "socket_stream \<Rightarrow> bool" where
  "SocketStream_eof s = so_eof s"

definition SocketStream_clear :: "socket_stream \<Rightarrow> socket_stream" where
  "SocketStream_clear s = s"

definition SocketStream_getFileDescriptor :: "socket_stream \<Rightarrow> int" where
  "SocketStream_getFileDescriptor s = so_fd s"

section \<open>Lemmas\<close>

context posix
begin

lemma FDStream_read_bound: "FDStream_read os n s w = (Inr bs, r) \<Longrightarrow> length bs \<le> n"
  by (auto simp: FDStream_read_def dest: posix_read split: sum.splits prod.splits if_splits)

lemma FDStream_write_bound: "FDStream_write os bs s w = (Inr c, w') \<Longrightarrow> c \<le> length bs"
  by (auto simp: FDStream_write_def dest: posix_write split: sum.splits prod.splits if_splits)

lemma SocketStream_read_bound: "SocketStream_read os n s w = (Inr bs, r) \<Longrightarrow> length bs \<le> n"
  by (auto simp: SocketStream_read_def dest: posix_recv split: sum.splits prod.splits if_splits)

lemma SocketStream_write_bound: "SocketStream_write os bs s w = (Inr c, w') \<Longrightarrow> c \<le> length bs"
  by (auto simp: SocketStream_write_def dest: posix_send split: sum.splits prod.splits if_splits)

end

text \<open>A bit that is set stays set, and a descriptor is never left blocking.\<close>

lemma setNonBlockingFlag_cases:
  assumes "sys_getfl os fd w = (fl, w1)"
  shows "setNonBlockingFlag os fd w =
    (if fl AND O_NONBLOCK \<noteq> 0 then (Inr False, w1)
     else case sys_setfl os fd (fl OR O_NONBLOCK) w1 of
       (Inl errno, w2) \<Rightarrow> (Inl (UnixError errno), w2) | (Inr _, w2) \<Rightarrow> (Inr True, w2))"
  using assms by (simp add: setNonBlockingFlag_def)

lemma O_NONBLOCK_set: "(fl OR O_NONBLOCK) AND O_NONBLOCK \<noteq> 0"
proof -
  have "(fl OR O_NONBLOCK) AND O_NONBLOCK = O_NONBLOCK" by (simp add: word_ao_absorbs)
  then show ?thesis by (simp add: O_NONBLOCK_def)
qed

end
