(* ===== verification/Udp_Stream.thy ===== *)
theory Udp_Stream
  imports Fd_Stream "HOL-Library.Monad_Syntax"
begin

text \<open>
  \<open>UDPServerStream\<close> and \<open>UnixDatagramStream\<close> of \<^verbatim>\<open>src/src/IOStream.cpp\<close>: datagram sockets
  that answer to the peer they last heard from (or to a fixed one), and that can be told to
  ignore the errors a UDP socket reports after the fact.
\<close>

section \<open>UDPServerStream\<close>

text \<open>\<open>m_si_other\<close> is \<open>None\<close> while the member is not initialised; it holds the first
  \<^verbatim>\<open>sizeof(sockaddr)\<close> bytes of an address, \<open>m_s_len\<close> the length of the whole.\<close>

record udp_stream = fd_stream +
  m_si_other :: "byte list option"
  m_s_len :: nat
  m_si_other_dynamic :: bool
  m_has_other :: bool
  m_ignore_econnrefused :: bool
  m_ignore_ehostunreach :: bool
  m_ignore_enetunreach :: bool
  m_wait_read_error :: int

definition UDPServerStream_init ::
  "('o, 't) os \<Rightarrow> int \<Rightarrow> bool \<Rightarrow> 'o \<Rightarrow> (exn + udp_stream) \<times> 'o" where
  "UDPServerStream_init os fd auto_close w =
     try_then (FDStream_init os fd auto_close True w) (\<lambda>s w1.
       (Inr (fd_stream.extend s
          \<lparr>m_si_other = None, m_s_len = sizeof_sockaddr, m_si_other_dynamic = True,
           m_has_other = False, m_ignore_econnrefused = True, m_ignore_ehostunreach = True,
           m_ignore_enetunreach = True, m_wait_read_error = 0\<rparr>), w1))"

text \<open>\<open>si_other\<close> is copied as a \<^verbatim>\<open>struct sockaddr\<close>; its length is kept as it is given.\<close>

definition UDPServerStream_init_peer ::
  "('o, 't) os \<Rightarrow> int \<Rightarrow> bool \<Rightarrow> byte list \<Rightarrow> nat \<Rightarrow> 'o \<Rightarrow> (exn + udp_stream) \<times> 'o" where
  "UDPServerStream_init_peer os fd auto_close si_other s_len w =
     try_then (FDStream_init os fd auto_close True w) (\<lambda>s w1.
       (Inr (fd_stream.extend s
          \<lparr>m_si_other = Some (take sizeof_sockaddr si_other), m_s_len = s_len,
           m_si_other_dynamic = False, m_has_other = True, m_ignore_econnrefused = True,
           m_ignore_ehostunreach = True, m_ignore_enetunreach = True, m_wait_read_error = 0\<rparr>), w1))"

definition setIgnoreEnetUnreach :: "bool \<Rightarrow> udp_stream \<Rightarrow> udp_stream" where
  "setIgnoreEnetUnreach enable s = s\<lparr>m_ignore_enetunreach := enable\<rparr>"

definition setIgnoreEhostUnreach :: "bool \<Rightarrow> udp_stream \<Rightarrow> udp_stream" where
  "setIgnoreEhostUnreach enable s = s\<lparr>m_ignore_ehostunreach := enable\<rparr>"

definition setIgnoreEconnRefused :: "bool \<Rightarrow> udp_stream \<Rightarrow> udp_stream" where
  "setIgnoreEconnRefused enable s = s\<lparr>m_ignore_econnrefused := enable\<rparr>"

text \<open>The chain of tests that \<open>waitRead\<close>, \<open>read\<close> and \<open>write\<close> repeat.\<close>

definition ignored :: "udp_stream \<Rightarrow> int \<Rightarrow> bool" where
  "ignored s err \<longleftrightarrow> (m_ignore_econnrefused s \<and> err = ECONNREFUSED)
     \<or> (m_ignore_ehostunreach s \<and> err = EHOSTUNREACH)
     \<or> (m_ignore_enetunreach s \<and> err = ENETUNREACH)"

partial_function (option) udp_wait_loop ::
  "'t::linordered_ab_group_add time_ops \<Rightarrow> ('o, 't) os \<Rightarrow> 't \<Rightarrow> 't \<Rightarrow> udp_stream \<Rightarrow> 'o
     \<Rightarrow> ((exn + bool) \<times> udp_stream \<times> 'o) option" where
  "udp_wait_loop T os deadline now s w =
     (if now \<le> deadline then
        (case FDStream_waitRead T os (deadline - now) s w of
           (Inl e, w1) \<Rightarrow> Some (Inl e, s, w1)
         | (Inr ready, w1) \<Rightarrow>
             if \<not> ready then Some (Inr False, s, w1)
             else
               (case sys_now os w1 of (now', w2) \<Rightarrow>
               (case sys_recvfrom os (fd_no s) 0 MSG_PEEK w2 of
                  (Inl err, w3) \<Rightarrow>
                    if ignored s err then udp_wait_loop T os deadline now' s w3
                    else Some (Inr True, s\<lparr>m_wait_read_error := err\<rparr>, w3)
                | (Inr r, w3) \<Rightarrow> Some (Inr True, s\<lparr>m_wait_read_error := 0\<rparr>, w3))))
      else
        (case FDStream_waitRead T os 0 s w of (r, w1) \<Rightarrow> Some (r, s, w1)))"

declare udp_wait_loop.simps [code]

definition UDPServerStream_waitRead ::
  "'t::linordered_ab_group_add time_ops \<Rightarrow> ('o, 't) os \<Rightarrow> 't \<Rightarrow> udp_stream \<Rightarrow> 'o
     \<Rightarrow> ((exn + bool) \<times> udp_stream \<times> 'o) option" where
  "UDPServerStream_waitRead T os timeout s w =
     (if m_wait_read_error s \<noteq> 0 then Some (Inr False, s, w)
      else case sys_now os w of (now, w1) \<Rightarrow> udp_wait_loop T os (now + timeout) now s w1)"

text \<open>Only a dynamic peer is updated; the address is cut to the size of the member.\<close>

definition UDPServerStream_read ::
  "('o, 't) os \<Rightarrow> nat \<Rightarrow> udp_stream \<Rightarrow> 'o \<Rightarrow> (exn + byte list) \<times> udp_stream \<times> 'o" where
  "UDPServerStream_read os buffer_size s w =
     (if m_wait_read_error s \<noteq> 0
      then (Inl (UnixError (m_wait_read_error s)), s\<lparr>m_wait_read_error := 0\<rparr>, w)
      else
        (case sys_recvfrom os (fd_no s) buffer_size 0 w of
           (Inr (bs, from), w1) \<Rightarrow>
             let s1 = s\<lparr>m_has_other := True\<rparr>;
                 s2 = (if m_si_other_dynamic s1
                       then s1\<lparr>m_si_other := Some (take sizeof_sockaddr from), m_s_len := length from\<rparr>
                       else s1);
                 s3 = (if bs = [] then s2\<lparr>fd_eof := True\<rparr> else s2)
             in (Inr bs, s3, w1)
         | (Inl err, w1) \<Rightarrow>
             if err = EAGAIN then (Inr [], s, w1)
             else if ignored s err then (Inr [], s, w1)
             else (Inl (UnixError err), s, w1)))"

text \<open>\<^verbatim>\<open>sendto\<close> reads \<open>m_s_len\<close> bytes at the member: undefined beyond its size.\<close>

definition peer_address :: "nat \<Rightarrow> byte list option \<Rightarrow> nat \<Rightarrow> exn + byte list" where
  "peer_address member_size other len =
     (case other of None \<Rightarrow> Inl UndefinedBehaviour
      | Some a \<Rightarrow> if len \<le> member_size then Inr (take len a) else Inl UndefinedBehaviour)"

definition UDPServerStream_write ::
  "('o, 't) os \<Rightarrow> byte list \<Rightarrow> udp_stream \<Rightarrow> 'o \<Rightarrow> (exn + nat) \<times> 'o" where
  "UDPServerStream_write os buffer s w =
     (if \<not> m_has_other s then (Inr (length buffer), w)
      else case peer_address sizeof_sockaddr (m_si_other s) (m_s_len s) of
        Inl e \<Rightarrow> (Inl e, w)
      | Inr dest \<Rightarrow>
        (case sys_sendto os (fd_no s) buffer 0 dest w of
           (Inl err, w1) \<Rightarrow>
             if err = EAGAIN \<and> err = ENOBUFS then (Inr 0, w1)
             else if ignored s err then (Inr (length buffer), w1)
             else (Inl (UnixError err), w1)
         | (Inr c, w1) \<Rightarrow> (Inr c, w1)))"

section \<open>UnixDatagramStream\<close>

record dgram_stream = fd_stream +
  dg_si_other :: "byte list option"
  dg_si_other_len :: nat
  dg_si_other_dynamic :: bool
  dg_has_other :: bool

definition UnixDatagramStream_init ::
  "('o, 't) os \<Rightarrow> int \<Rightarrow> bool \<Rightarrow> 'o \<Rightarrow> (exn + dgram_stream) \<times> 'o" where
  "UnixDatagramStream_init os fd auto_close w =
     try_then (FDStream_init os fd auto_close True w) (\<lambda>s w1.
       (Inr (fd_stream.extend s
          \<lparr>dg_si_other = None, dg_si_other_len = 0, dg_si_other_dynamic = True,
           dg_has_other = False\<rparr>), w1))"

definition UnixDatagramStream_init_peer ::
  "('o, 't) os \<Rightarrow> int \<Rightarrow> bool \<Rightarrow> byte list \<Rightarrow> 'o \<Rightarrow> (exn + dgram_stream) \<times> 'o" where
  "UnixDatagramStream_init_peer os fd auto_close si_other w =
     try_then (FDStream_init os fd auto_close True w) (\<lambda>s w1.
       (Inr (fd_stream.extend s
          \<lparr>dg_si_other = Some si_other, dg_si_other_len = sizeof_sockaddr_un,
           dg_si_other_dynamic = False, dg_has_other = True\<rparr>), w1))"

definition UnixDatagramStream_read ::
  "('o, 't) os \<Rightarrow> nat \<Rightarrow> dgram_stream \<Rightarrow> 'o \<Rightarrow> (exn + byte list) \<times> dgram_stream \<times> 'o" where
  "UnixDatagramStream_read os buffer_size s w =
     (case sys_recvfrom os (fd_no s) buffer_size 0 w of
        (Inr (bs, from), w1) \<Rightarrow>
          let s1 = s\<lparr>dg_has_other := True\<rparr>;
              s2 = (if dg_si_other_dynamic s1
                    then s1\<lparr>dg_si_other := Some (take sizeof_sockaddr_un from),
                            dg_si_other_len := length from\<rparr>
                    else s1);
              s3 = (if bs = [] then s2\<lparr>fd_eof := True\<rparr> else s2)
          in (Inr bs, s3, w1)
      | (Inl err, w1) \<Rightarrow>
          if err = EAGAIN then (Inr [], s, w1) else (Inl (UnixError err), s, w1))"

definition UnixDatagramStream_write ::
  "('o, 't) os \<Rightarrow> byte list \<Rightarrow> dgram_stream \<Rightarrow> 'o \<Rightarrow> (exn + nat) \<times> 'o" where
  "UnixDatagramStream_write os buffer s w =
     (if \<not> dg_has_other s then (Inr (length buffer), w)
      else case peer_address sizeof_sockaddr_un (dg_si_other s) (dg_si_other_len s) of
        Inl e \<Rightarrow> (Inl e, w)
      | Inr dest \<Rightarrow>
        (case sys_sendto os (fd_no s) buffer 0 dest w of
           (Inl err, w1) \<Rightarrow>
             if err = EAGAIN \<and> err = ENOBUFS then (Inr 0, w1) else (Inl (UnixError err), w1)
         | (Inr c, w1) \<Rightarrow> (Inr c, w1)))"

section \<open>Invariant\<close>

text \<open>A stream that has a peer has its address.\<close>

definition udp_wf :: "udp_stream \<Rightarrow> bool" where
  "udp_wf s \<longleftrightarrow> (m_has_other s \<longrightarrow> m_si_other s \<noteq> None)
     \<and> (\<not> m_si_other_dynamic s \<longrightarrow> m_si_other s \<noteq> None)"

definition dgram_wf :: "dgram_stream \<Rightarrow> bool" where
  "dgram_wf s \<longleftrightarrow> (dg_has_other s \<longrightarrow> dg_si_other s \<noteq> None)
     \<and> (\<not> dg_si_other_dynamic s \<longrightarrow> dg_si_other s \<noteq> None)"

lemma try_then_Inr: "fst (try_then r k) = Inr y \<longleftrightarrow> (\<exists>x s. r = (Inr x, s) \<and> fst (k x s) = Inr y)"
  by (cases r; cases "fst r") (auto simp: try_then_def)

lemma udp_wf_ops:
  "fst (UDPServerStream_init os fd ac w) = Inr s \<Longrightarrow> udp_wf s"
  "fst (UDPServerStream_init_peer os fd ac a n w) = Inr s \<Longrightarrow> udp_wf s"
  "udp_wf s \<Longrightarrow> udp_wf (setIgnoreEnetUnreach b s)"
  "udp_wf s \<Longrightarrow> udp_wf (setIgnoreEhostUnreach b s)"
  "udp_wf s \<Longrightarrow> udp_wf (setIgnoreEconnRefused b s)"
  "udp_wf s \<Longrightarrow> udp_wf (fst (snd (UDPServerStream_read os n s w)))"
  by (auto simp: UDPServerStream_init_def UDPServerStream_init_peer_def try_then_Inr udp_wf_def
      fd_stream.defs setIgnoreEnetUnreach_def setIgnoreEhostUnreach_def setIgnoreEconnRefused_def
      UDPServerStream_read_def Let_def split: sum.splits prod.splits)

lemma dgram_wf_ops:
  "fst (UnixDatagramStream_init os fd ac w) = Inr s1 \<Longrightarrow> dgram_wf s1"
  "fst (UnixDatagramStream_init_peer os fd ac a w) = Inr s1 \<Longrightarrow> dgram_wf s1"
  "dgram_wf s1 \<Longrightarrow> dgram_wf (fst (snd (UnixDatagramStream_read os n s1 w)))"
  by (auto simp: UnixDatagramStream_init_def UnixDatagramStream_init_peer_def try_then_Inr
      dgram_wf_def fd_stream.defs UnixDatagramStream_read_def Let_def split: sum.splits prod.splits)

text \<open>The wait changes only the pending error, never to an ignored one, and only when it announces data.\<close>

lemma udp_wait_loop_state:
  assumes "udp_wait_loop T os deadline now s w = Some (r, s', w')"
  shows "s' = s \<or> r = Inr True \<and> (\<exists>e. s' = s\<lparr>m_wait_read_error := e\<rparr> \<and> (e = 0 \<or> \<not> ignored s e))"
proof -
  let ?P = "\<lambda>T' os' deadline now s w r. case r of (res, s', w') \<Rightarrow>
    s' = s \<or> res = Inr True \<and> (\<exists>e. s' = s\<lparr>m_wait_read_error := e\<rparr> \<and> (e = 0 \<or> \<not> ignored s e))"
  have "?P T os deadline now s w (r, s', w')"
  proof (rule udp_wait_loop.raw_induct [where P = ?P, OF _ assms], goal_cases)
    case (1 f T' os' deadline now s w r)
    obtain rr w1 where sel: "FDStream_waitRead T' os' (deadline - now) s w = (rr, w1)" by fastforce
    obtain now' w2 where now': "sys_now os' w1 = (now', w2)" by fastforce
    obtain pr w3 where peek: "sys_recvfrom os' (fd_no s) 0 MSG_PEEK w2 = (pr, w3)" by fastforce
    consider "now \<le> deadline" "rr = Inr True" | "\<not> (now \<le> deadline \<and> rr = Inr True)" by blast
    then show ?case
    proof cases
      case ready: 1
      show ?thesis
      proof (cases "\<exists>err. pr = Inl err \<and> ignored s err")
        case True
        with 1(2) ready sel now' peek have "f T' os' deadline now' s w3 = Some r" by auto
        then show ?thesis by (rule 1(1))
      next
        case False
        with 1(2) ready sel now' peek show ?thesis by (cases pr) auto
      qed
    next
      case 2
      with 1(2) sel have "fst (snd r) = s" by (cases rr) (auto split: if_splits prod.splits)
      then show ?thesis by (cases r) simp
    qed
  qed
  then show ?thesis by simp
qed

section \<open>Lemmas\<close>

context posix
begin

lemma UDPServerStream_read_bound: "UDPServerStream_read os n s w = (Inr bs, r) \<Longrightarrow> length bs \<le> n"
  by (auto simp: UDPServerStream_read_def Let_def dest: posix_recvfrom
      split: sum.splits prod.splits if_splits)

lemma UDPServerStream_write_bound: "UDPServerStream_write os bs s w = (Inr c, w') \<Longrightarrow> c \<le> length bs"
  by (auto simp: UDPServerStream_write_def dest: posix_sendto split: sum.splits prod.splits if_splits)

lemma UnixDatagramStream_read_bound:
  "UnixDatagramStream_read os n s1 w = (Inr bs, r) \<Longrightarrow> length bs \<le> n"
  by (auto simp: UnixDatagramStream_read_def Let_def dest: posix_recvfrom
      split: sum.splits prod.splits if_splits)

lemma UnixDatagramStream_write_bound:
  "UnixDatagramStream_write os bs s1 w = (Inr c, w') \<Longrightarrow> c \<le> length bs"
  by (auto simp: UnixDatagramStream_write_def dest: posix_sendto split: sum.splits prod.splits if_splits)

end

lemma select_fd_after:
  assumes "select_fd (sys_select_read os) fd t w = (r, w')"
  shows "w' = w \<or> w' = after os (CallSelectRead fd t) w"
  using assms by (auto simp: select_fd_def split: sum.splits prod.splits if_splits)

context live_posix
begin

lemma select_kept:
  "select_fd (sys_select_read os) fd t w = (r, w') \<Longrightarrow> readings_left d w' \<le> readings_left d w"
  using select_fd_after [of os fd t w r w'] clock_kept [of d "CallSelectRead fd t" w] by auto

text \<open>The wait ends although errors that are ignored keep it in its loop.\<close>

lemma udp_wait_loop_returns: "\<exists>r. udp_wait_loop T os deadline now s w = Some r"
proof (induction "readings_left deadline w" arbitrary: now w rule: less_induct)
  case less
  show ?case
  proof (cases "now \<le> deadline")
    case True
    obtain rr w1 where sel: "FDStream_waitRead T os (deadline - now) s w = (rr, w1)" by fastforce
    obtain now' w2 where now': "sys_now os w1 = (now', w2)" by fastforce
    obtain pr w3 where peek: "sys_recvfrom os (fd_no s) 0 MSG_PEEK w2 = (pr, w3)" by fastforce
    have le: "readings_left deadline w1 \<le> readings_left deadline w"
      using sel by (auto simp: FDStream_waitRead_def intro: select_kept)
    have le3: "readings_left deadline w3 \<le> readings_left deadline w2"
      using clock_kept [of deadline "CallRecvfrom (fd_no s) 0 MSG_PEEK" w2] peek by simp
    have more: "\<exists>r. udp_wait_loop T os deadline now' s w3 = Some r"
    proof (cases "now' \<le> deadline")
      case True
      with clock_moves [OF now' True] le le3 show ?thesis by (intro less.hyps) simp
    next
      case False
      then show ?thesis by (subst udp_wait_loop.simps) (auto split: prod.splits)
    qed
    show ?thesis
      by (subst udp_wait_loop.simps)
        (use True sel now' peek more in \<open>auto split: sum.splits\<close>)
  next
    case False
    then show ?thesis by (subst udp_wait_loop.simps) (auto split: prod.splits)
  qed
qed

lemma UDPServerStream_waitRead_returns: "\<exists>r. UDPServerStream_waitRead T os timeout s w = Some r"
  using udp_wait_loop_returns by (auto simp: UDPServerStream_waitRead_def split: prod.splits)

end

end
