(* ===== verification/Stream_Objects.thy ===== *)
theory Stream_Objects
  imports Udp_Stream Test_Stream
begin

text \<open>
  \<open>UnixServerStream\<close> of \<^verbatim>\<open>src/src/IOStream.cpp\<close>, then all the classes derived from
  \<^verbatim>\<open>IOStream\<close> as one datatype with the virtual calls dispatched over it, and a heap of
  such objects in which the driver's calls (\<^verbatim>\<open>Stream_Interface\<close>) are answered.
\<close>

section \<open>UnixServerStream\<close>

record unix_server =
  us_server_fd :: int
  us_auto_close :: bool
  us_fd_stream :: fd_stream
  us_client :: "socket_stream option"

definition UnixServerStream_init ::
  "('o, 't) os \<Rightarrow> int \<Rightarrow> bool \<Rightarrow> 'o \<Rightarrow> (exn + unix_server) \<times> 'o" where
  "UnixServerStream_init os fd auto_close w =
     try_then (FDStream_init os fd False True w) (\<lambda>s w1.
       (Inr \<lparr>us_server_fd = fd, us_auto_close = auto_close, us_fd_stream = s, us_client = None\<rparr>, w1))"

text \<open>The body, then the members in reverse order of declaration.\<close>

definition UnixServerStream_destroy :: "('o, 't) os \<Rightarrow> unix_server \<Rightarrow> 'o \<Rightarrow> 'o" where
  "UnixServerStream_destroy os s w =
     (let w1 = (if us_auto_close s then sys_close os (us_server_fd s) w else w);
          w2 = (case us_client s of None \<Rightarrow> w1 | Some c \<Rightarrow> SocketStream_destroy os c w1)
      in FDStream_destroy os (us_fd_stream s) w2)"

definition UnixServerStream_getFileDescriptor :: "unix_server \<Rightarrow> int" where
  "UnixServerStream_getFileDescriptor s =
     (case us_client s of Some c \<Rightarrow> SocketStream_getFileDescriptor c | None \<Rightarrow> us_server_fd s)"

definition UnixServerStream_accept ::
  "('o, 't) os \<Rightarrow> unix_server \<Rightarrow> 'o \<Rightarrow> (exn + unit) \<times> unix_server \<times> 'o" where
  "UnixServerStream_accept os s w =
     (case sys_accept os (UnixServerStream_getFileDescriptor s) w of
        (Inl errno, w1) \<Rightarrow> (Inl (UnixError errno), s, w1)
      | (Inr fd, w1) \<Rightarrow>
          (case SocketStream_init os fd True True w1 of
             (Inl e, w2) \<Rightarrow> (Inl e, s, w2)
           | (Inr c, w2) \<Rightarrow> (Inr (), s\<lparr>us_client := Some (setSendFlags MSG_NOSIGNAL c)\<rparr>, w2)))"

definition UnixServerStream_waitRead ::
  "'t time_ops \<Rightarrow> ('o, 't) os \<Rightarrow> 't \<Rightarrow> unix_server \<Rightarrow> 'o \<Rightarrow> (exn + bool) \<times> unix_server \<times> 'o" where
  "UnixServerStream_waitRead T os timeout s w =
     (case us_client s of
        Some c \<Rightarrow> (case SocketStream_waitRead T os timeout c w of (r, w1) \<Rightarrow> (r, s, w1))
      | None \<Rightarrow>
          (case FDStream_waitRead T os timeout (us_fd_stream s) w of
             (Inl e, w1) \<Rightarrow> (Inl e, s, w1)
           | (Inr ready, w1) \<Rightarrow>
               if \<not> ready then (Inr False, s, w1)
               else (case UnixServerStream_accept os s w1 of
                       (Inl e, r) \<Rightarrow> (Inl e, r)
                     | (Inr _, r) \<Rightarrow> (Inr True, r))))"

definition UnixServerStream_waitWrite ::
  "'t time_ops \<Rightarrow> ('o, 't) os \<Rightarrow> 't \<Rightarrow> unix_server \<Rightarrow> 'o \<Rightarrow> (exn + bool) \<times> 'o" where
  "UnixServerStream_waitWrite T os timeout s w =
     (case us_client s of
        None \<Rightarrow> (Inr True, w) | Some c \<Rightarrow> SocketStream_waitWrite T os timeout c w)"

definition UnixServerStream_read ::
  "'t::zero time_ops \<Rightarrow> ('o, 't) os \<Rightarrow> nat \<Rightarrow> unix_server \<Rightarrow> 'o
     \<Rightarrow> (exn + byte list) \<times> unix_server \<times> 'o" where
  "UnixServerStream_read T os buffer_size s w =
     (case (case us_client s of
              None \<Rightarrow> UnixServerStream_waitRead T os 0 s w
            | Some _ \<Rightarrow> (Inr True, s, w)) of
        (Inl e, r) \<Rightarrow> (Inl e, r)
      | (Inr ready, s1, w1) \<Rightarrow>
          if \<not> ready then (Inr [], s1, w1)
          else (case us_client s1 of
                  Some c \<Rightarrow>
                    (case SocketStream_read os buffer_size c w1 of
                       (r, c', w2) \<Rightarrow> (r, s1\<lparr>us_client := Some c'\<rparr>, w2))
                | None \<Rightarrow> (Inr [], s1, w1)))"

definition UnixServerStream_write ::
  "('o, 't) os \<Rightarrow> byte list \<Rightarrow> unix_server \<Rightarrow> 'o \<Rightarrow> (exn + nat) \<times> 'o" where
  "UnixServerStream_write os buffer s w =
     (case us_client s of
        None \<Rightarrow> (Inr (length buffer), w) | Some c \<Rightarrow> SocketStream_write os buffer c w)"

definition UnixServerStream_clear :: "unix_server \<Rightarrow> unix_server" where
  "UnixServerStream_clear s = s\<lparr>us_client := map_option SocketStream_clear (us_client s)\<rparr>"

definition UnixServerStream_eof :: "unix_server \<Rightarrow> bool" where
  "UnixServerStream_eof s =
     (case us_client s of Some c \<Rightarrow> SocketStream_eof c | None \<Rightarrow> False)"

definition UnixServerStream_hasIO ::
  "'t time_ops \<Rightarrow> ('o, 't) os \<Rightarrow> 't \<Rightarrow> unix_server \<Rightarrow> 'o \<Rightarrow> (exn + bool) \<times> 'o" where
  "UnixServerStream_hasIO T os timeout s w =
     (case us_client s of
        Some c \<Rightarrow> SocketStream_waitRead T os timeout c w
      | None \<Rightarrow> FDStream_waitRead T os timeout (us_fd_stream s) w)"

section \<open>The virtual calls\<close>

datatype stream =
    FD fd_stream
  | Socket socket_stream
  | UDPServer udp_stream
  | UnixDatagram dgram_stream
  | UnixServer unix_server
  | Test test_stream

fun stream_waitRead ::
  "'t::linordered_ab_group_add time_ops \<Rightarrow> ('o, 't) os \<Rightarrow> 't \<Rightarrow> stream \<Rightarrow> 'o
     \<Rightarrow> ((exn + bool) \<times> stream \<times> 'o) option" where
  "stream_waitRead T os t (FD s) w =
     (case FDStream_waitRead T os t s w of (r, w1) \<Rightarrow> Some (r, FD s, w1))"
| "stream_waitRead T os t (Socket s) w =
     (case SocketStream_waitRead T os t s w of (r, w1) \<Rightarrow> Some (r, Socket s, w1))"
| "stream_waitRead T os t (UDPServer s) w =
     map_option (\<lambda>(r, s1, w1). (r, UDPServer s1, w1)) (UDPServerStream_waitRead T os t s w)"
| "stream_waitRead T os t (UnixDatagram s) w =
     (case FDStream_waitRead T os t s w of (r, w1) \<Rightarrow> Some (r, UnixDatagram s, w1))"
| "stream_waitRead T os t (UnixServer s) w =
     (case UnixServerStream_waitRead T os t s w of (r, s1, w1) \<Rightarrow> Some (r, UnixServer s1, w1))"
| "stream_waitRead T os t (Test s) w = Some (Inr (TestStream_waitRead t s), Test s, w)"

fun stream_waitWrite ::
  "'t time_ops \<Rightarrow> ('o, 't) os \<Rightarrow> 't \<Rightarrow> stream \<Rightarrow> 'o \<Rightarrow> (exn + bool) \<times> 'o" where
  "stream_waitWrite T os t (FD s) w = FDStream_waitWrite T os t s w"
| "stream_waitWrite T os t (Socket s) w = SocketStream_waitWrite T os t s w"
| "stream_waitWrite T os t (UDPServer s) w = FDStream_waitWrite T os t s w"
| "stream_waitWrite T os t (UnixDatagram s) w = FDStream_waitWrite T os t s w"
| "stream_waitWrite T os t (UnixServer s) w = UnixServerStream_waitWrite T os t s w"
| "stream_waitWrite T os t (Test s) w = (Inr (TestStream_waitWrite t s), w)"

fun stream_read ::
  "'t::zero time_ops \<Rightarrow> ('o, 't) os \<Rightarrow> nat \<Rightarrow> stream \<Rightarrow> 'o \<Rightarrow> (exn + byte list) \<times> stream \<times> 'o" where
  "stream_read T os n (FD s) w = (case FDStream_read os n s w of (r, s1, w1) \<Rightarrow> (r, FD s1, w1))"
| "stream_read T os n (Socket s) w =
     (case SocketStream_read os n s w of (r, s1, w1) \<Rightarrow> (r, Socket s1, w1))"
| "stream_read T os n (UDPServer s) w =
     (case UDPServerStream_read os n s w of (r, s1, w1) \<Rightarrow> (r, UDPServer s1, w1))"
| "stream_read T os n (UnixDatagram s) w =
     (case UnixDatagramStream_read os n s w of (r, s1, w1) \<Rightarrow> (r, UnixDatagram s1, w1))"
| "stream_read T os n (UnixServer s) w =
     (case UnixServerStream_read T os n s w of (r, s1, w1) \<Rightarrow> (r, UnixServer s1, w1))"
| "stream_read T os n (Test s) w = (case TestStream_read n s of (bs, s1) \<Rightarrow> (Inr bs, Test s1, w))"

fun stream_write ::
  "('o, 't) os \<Rightarrow> byte list \<Rightarrow> stream \<Rightarrow> 'o \<Rightarrow> (exn + nat) \<times> stream \<times> 'o" where
  "stream_write os bs (FD s) w = (case FDStream_write os bs s w of (r, w1) \<Rightarrow> (r, FD s, w1))"
| "stream_write os bs (Socket s) w =
     (case SocketStream_write os bs s w of (r, w1) \<Rightarrow> (r, Socket s, w1))"
| "stream_write os bs (UDPServer s) w =
     (case UDPServerStream_write os bs s w of (r, w1) \<Rightarrow> (r, UDPServer s, w1))"
| "stream_write os bs (UnixDatagram s) w =
     (case UnixDatagramStream_write os bs s w of (r, w1) \<Rightarrow> (r, UnixDatagram s, w1))"
| "stream_write os bs (UnixServer s) w =
     (case UnixServerStream_write os bs s w of (r, w1) \<Rightarrow> (r, UnixServer s, w1))"
| "stream_write os bs (Test s) w = (case TestStream_write bs s of (r, s1) \<Rightarrow> (r, Test s1, w))"

fun stream_clear :: "stream \<Rightarrow> stream" where
  "stream_clear (FD s) = FD (FDStream_clear s)"
| "stream_clear (Socket s) = Socket (SocketStream_clear s)"
| "stream_clear (UDPServer s) = UDPServer (FDStream_clear s)"
| "stream_clear (UnixDatagram s) = UnixDatagram (FDStream_clear s)"
| "stream_clear (UnixServer s) = UnixServer (UnixServerStream_clear s)"
| "stream_clear (Test s) = Test (TestStream_clear s)"

fun stream_eof :: "stream \<Rightarrow> bool" where
  "stream_eof (FD s) = FDStream_eof s"
| "stream_eof (Socket s) = SocketStream_eof s"
| "stream_eof (UDPServer s) = FDStream_eof s"
| "stream_eof (UnixDatagram s) = FDStream_eof s"
| "stream_eof (UnixServer s) = UnixServerStream_eof s"
| "stream_eof (Test s) = TestStream_eof s"

fun stream_getFileDescriptor :: "stream \<Rightarrow> int" where
  "stream_getFileDescriptor (FD s) = FDStream_getFileDescriptor s"
| "stream_getFileDescriptor (Socket s) = SocketStream_getFileDescriptor s"
| "stream_getFileDescriptor (UDPServer s) = FDStream_getFileDescriptor s"
| "stream_getFileDescriptor (UnixDatagram s) = FDStream_getFileDescriptor s"
| "stream_getFileDescriptor (UnixServer s) = UnixServerStream_getFileDescriptor s"
| "stream_getFileDescriptor (Test s) = - 1"

fun stream_destroy :: "('o, 't) os \<Rightarrow> stream \<Rightarrow> 'o \<Rightarrow> 'o" where
  "stream_destroy os (FD s) w = FDStream_destroy os s w"
| "stream_destroy os (Socket s) w = SocketStream_destroy os s w"
| "stream_destroy os (UDPServer s) w = FDStream_destroy os s w"
| "stream_destroy os (UnixDatagram s) w = FDStream_destroy os s w"
| "stream_destroy os (UnixServer s) w = UnixServerStream_destroy os s w"
| "stream_destroy os (Test s) w = w"

text \<open>\<open>hasIO\<close> waits for data, except that an idle server does not accept its client.\<close>

fun stream_hasIO ::
  "'t::linordered_ab_group_add time_ops \<Rightarrow> ('o, 't) os \<Rightarrow> 't \<Rightarrow> stream \<Rightarrow> 'o
     \<Rightarrow> ((exn + bool) \<times> stream \<times> 'o) option" where
  "stream_hasIO T os t (UnixServer s) w =
     (case UnixServerStream_hasIO T os t s w of (r, w1) \<Rightarrow> Some (r, UnixServer s, w1))"
| "stream_hasIO T os t s w = stream_waitRead T os t s w"

section \<open>The heap\<close>

record 'o heap =
  h_streams :: "ptr \<Rightarrow> stream option"
  h_listeners :: "ptr \<Rightarrow> buffer_listener option"
  h_next :: nat
  h_os :: 'o

definition on_object ::
  "(stream \<Rightarrow> 'o \<Rightarrow> (exn + 'a) \<times> stream \<times> 'o) \<Rightarrow> ptr \<Rightarrow> 'o heap \<Rightarrow> (exn + 'a) \<times> 'o heap" where
  "on_object f p w =
     (case h_streams w p of
        None \<Rightarrow> (Inl UndefinedBehaviour, w)
      | Some s \<Rightarrow>
          (case f s (h_os w) of
             (r, s1, w1) \<Rightarrow> (r, w\<lparr>h_streams := (h_streams w)(p \<mapsto> s1), h_os := w1\<rparr>)))"

definition on_os :: "('o \<Rightarrow> 'x \<times> 'o) \<Rightarrow> 'o heap \<Rightarrow> 'x \<times> 'o heap" where
  "on_os f w = (case f (h_os w) of (x, w1) \<Rightarrow> (x, w\<lparr>h_os := w1\<rparr>))"

definition on_heap_listener :: "(buffer_listener \<Rightarrow> buffer_listener) \<Rightarrow> ptr \<Rightarrow> 'o heap \<Rightarrow> 'o heap" where
  "on_heap_listener f l w =
     w\<lparr>h_listeners := (h_listeners w)(l := map_option f (h_listeners w l))\<rparr>"

text \<open>\<^verbatim>\<open>new\<close> of a stream object.\<close>

definition new_stream :: "stream \<Rightarrow> 'o heap \<Rightarrow> ptr \<times> 'o heap" where
  "new_stream s w =
     (let p = Ptr (h_next w)
      in (p, w\<lparr>h_streams := (h_streams w)(p \<mapsto> s), h_next := h_next w + 1\<rparr>))"

text \<open>A wait that never returns has no result to hand to the driver; under \<open>live_posix\<close>
  there is none (\<open>stream_waitRead_returns\<close>).\<close>

definition sys_env ::
  "'t::linordered_ab_group_add time_ops \<Rightarrow> ('o, 't) os \<Rightarrow> ('o heap, 't) env" where
  "sys_env T os = \<lparr>
     io_now = on_os (sys_now os),
     io_gettimeofday = on_os (sys_gettimeofday os),
     io_waitRead = (\<lambda>p t. on_object (\<lambda>s w.
       case stream_waitRead T os t s w of None \<Rightarrow> (Inl UndefinedBehaviour, s, w) | Some r \<Rightarrow> r) p),
     io_waitWrite = (\<lambda>p t. on_object (\<lambda>s w.
       case stream_waitWrite T os t s w of (r, w1) \<Rightarrow> (r, s, w1)) p),
     io_read = (\<lambda>p n. on_object (stream_read T os n) p),
     io_write = (\<lambda>p bs. on_object (stream_write os bs) p),
     io_clear = (\<lambda>p w. w\<lparr>h_streams := (h_streams w)(p := map_option stream_clear (h_streams w p))\<rparr>),
     io_eof = (\<lambda>p w. case h_streams w p of None \<Rightarrow> False | Some s \<Rightarrow> stream_eof s),
     io_getFileDescriptor =
       (\<lambda>p w. case h_streams w p of None \<Rightarrow> - 1 | Some s \<Rightarrow> stream_getFileDescriptor s),
     io_delete =
       (\<lambda>p w. case h_streams w p of
          None \<Rightarrow> w
        | Some s \<Rightarrow> w\<lparr>h_streams := (h_streams w)(p := None), h_os := stream_destroy os s (h_os w)\<rparr>),
     li_readData = (\<lambda>l bs. on_heap_listener (readData bs) l),
     li_writeData = (\<lambda>l bs. on_heap_listener (writeData bs) l),
     li_delete = (\<lambda>l w. w\<lparr>h_listeners := (h_listeners w)(l := None)\<rparr>)\<rparr>"

lemma sys_env_sel [simp]:
  "io_now (sys_env T os) = on_os (sys_now os)"
  "io_gettimeofday (sys_env T os) = on_os (sys_gettimeofday os)"
  "io_waitWrite (sys_env T os) p t = on_object (\<lambda>s w.
     case stream_waitWrite T os t s w of (r, w1) \<Rightarrow> (r, s, w1)) p"
  "io_read (sys_env T os) p n = on_object (stream_read T os n) p"
  "io_write (sys_env T os) p bs = on_object (stream_write os bs) p"
  "li_readData (sys_env T os) l bs = on_heap_listener (readData bs) l"
  "li_writeData (sys_env T os) l bs = on_heap_listener (writeData bs) l"
  by (simp_all add: sys_env_def)

section \<open>The streams keep the contract of the driver\<close>

context posix
begin

lemma UnixServerStream_read_bound:
  "UnixServerStream_read T os n s w = (Inr bs, r) \<Longrightarrow> length bs \<le> n"
  by (auto simp: UnixServerStream_read_def dest: SocketStream_read_bound
      split: sum.splits prod.splits option.splits if_splits)

lemma UnixServerStream_write_bound:
  "UnixServerStream_write os bs s w = (Inr c, w') \<Longrightarrow> c \<le> length bs"
  by (auto simp: UnixServerStream_write_def dest: SocketStream_write_bound split: option.splits)

lemma stream_read_bound: "stream_read T os n s w = (Inr bs, r) \<Longrightarrow> length bs \<le> n"
  by (cases s)
    (auto dest: FDStream_read_bound SocketStream_read_bound UDPServerStream_read_bound
      UnixDatagramStream_read_bound UnixServerStream_read_bound TestStream_read_split
      split: prod.splits)

lemma stream_write_bound: "stream_write os bs s w = (Inr c, r) \<Longrightarrow> c \<le> length bs"
  by (cases s)
    (auto dest: FDStream_write_bound SocketStream_write_bound UDPServerStream_write_bound
      UnixDatagramStream_write_bound UnixServerStream_write_bound TestStream_write_bound
      split: prod.splits)

end

sublocale posix < system: io_contract "sys_env T os" for T
proof
  fix p n w bs w'
  assume "io_read (sys_env T os) p n w = (Inr bs, w')"
  then show "length bs \<le> n"
    by (auto simp: on_object_def dest: stream_read_bound split: option.splits prod.splits)
next
  fix p bs w c w'
  assume "io_write (sys_env T os) p bs w = (Inr c, w')"
  then show "c \<le> length bs"
    by (auto simp: on_object_def dest: stream_write_bound split: option.splits prod.splits)
qed

context posix
begin

lemma sys_env_contract: "io_contract (sys_env T os)"
  by (rule system.io_contract_axioms)

end

context live_posix
begin

lemma stream_waitRead_returns: "\<exists>r. stream_waitRead T os t s w = Some r"
proof (cases s)
  case (UDPServer u)
  obtain r where "UDPServerStream_waitRead T os t u w = Some r"
    using UDPServerStream_waitRead_returns by blast
  with UDPServer show ?thesis by (cases r) simp
qed (auto split: prod.splits)

end

end
