(* ===== verification/Pipe_Os.thy ===== *)
theory Pipe_Os
  imports Stream_Objects
begin

text \<open>
  A small operating system in which the contracts of \<^verbatim>\<open>Os_Interface\<close> are interpreted and
  the theorems about streams are evaluated: each descriptor has a queue of messages, a list
  of pending errors, flags, and collects what is written to it; the clock ticks when read.
\<close>

record pipes =
  p_messages :: "int \<Rightarrow> (byte list \<times> byte list) list"
  p_errors :: "int \<Rightarrow> int list"
  p_written :: "int \<Rightarrow> byte list"
  p_flags :: "int \<Rightarrow> 64 word"
  p_closed :: "int list"
  p_clients :: "int list"
  p_clock :: int

definition pipes_init :: pipes where
  "pipes_init = \<lparr>p_messages = (\<lambda>_. []), p_errors = (\<lambda>_. []), p_written = (\<lambda>_. []),
     p_flags = (\<lambda>_. 0), p_closed = [], p_clients = [], p_clock = 0\<rparr>"

definition send_to :: "int \<Rightarrow> byte list \<Rightarrow> byte list \<Rightarrow> pipes \<Rightarrow> pipes" where
  "send_to fd bs from w = w\<lparr>p_messages := (p_messages w)(fd := p_messages w fd @ [(bs, from)])\<rparr>"

definition fail_with :: "int \<Rightarrow> int \<Rightarrow> pipes \<Rightarrow> pipes" where
  "fail_with fd err w = w\<lparr>p_errors := (p_errors w)(fd := p_errors w fd @ [err])\<rparr>"

text \<open>A pending error is reported once; then the oldest message.\<close>

definition pipe_take ::
  "(byte list \<times> byte list \<Rightarrow> (byte list \<times> byte list) list) \<Rightarrow> nat \<Rightarrow> int \<Rightarrow> pipes
     \<Rightarrow> (int + byte list \<times> byte list) \<times> pipes" where
  "pipe_take keep n fd w =
     (case p_errors w fd of
        e # es \<Rightarrow> (Inl e, w\<lparr>p_errors := (p_errors w)(fd := es)\<rparr>)
      | [] \<Rightarrow>
          (case p_messages w fd of
             [] \<Rightarrow> (Inl EAGAIN, w)
           | (bs, from) # ms \<Rightarrow>
               (Inr (take n bs, from), w\<lparr>p_messages := (p_messages w)(fd := keep (bs, from) @ ms)\<rparr>)))"

definition pipe_read :: "int \<Rightarrow> nat \<Rightarrow> pipes \<Rightarrow> (int + byte list) \<times> pipes" where
  "pipe_read fd n w =
     (case pipe_take (\<lambda>(bs, from). if length bs \<le> n then [] else [(drop n bs, from)]) n fd w of
        (r, w1) \<Rightarrow> (map_sum id fst r, w1))"

definition pipe_write :: "int \<Rightarrow> byte list \<Rightarrow> pipes \<Rightarrow> (int + nat) \<times> pipes" where
  "pipe_write fd bs w =
     (case p_errors w fd of
        e # es \<Rightarrow> (Inl e, w\<lparr>p_errors := (p_errors w)(fd := es)\<rparr>)
      | [] \<Rightarrow> (Inr (length bs), w\<lparr>p_written := (p_written w)(fd := p_written w fd @ bs)\<rparr>))"

definition pipe_os :: "(pipes, int) os" where
  "pipe_os = \<lparr>
     sys_now = (\<lambda>w. (p_clock w, w\<lparr>p_clock := p_clock w + 1\<rparr>)),
     sys_gettimeofday = (\<lambda>w. (\<lparr>tv_sec = p_clock w div 1000000, tv_usec = p_clock w mod 1000000\<rparr>,
       w\<lparr>p_clock := p_clock w + 1\<rparr>)),
     sys_select_read = (\<lambda>fd t w. (Inr (p_errors w fd \<noteq> [] \<or> p_messages w fd \<noteq> []
       \<or> (p_clients w \<noteq> [] \<and> fd = 5)), w)),
     sys_select_write = (\<lambda>fd t w. (Inr True, w)),
     sys_read = pipe_read,
     sys_write = pipe_write,
     sys_recv = (\<lambda>fd n fl. pipe_read fd n),
     sys_send = (\<lambda>fd bs fl. pipe_write fd bs),
     sys_recvfrom = (\<lambda>fd n fl. pipe_take (\<lambda>m. if fl = MSG_PEEK then [m] else []) n fd),
     sys_sendto = (\<lambda>fd bs fl a. pipe_write fd bs),
     sys_getfl = (\<lambda>fd w. (p_flags w fd, w)),
     sys_setfl = (\<lambda>fd x w. (Inr (), w\<lparr>p_flags := (p_flags w)(fd := x)\<rparr>)),
     sys_accept = (\<lambda>fd w. case p_clients w of [] \<Rightarrow> (Inl EAGAIN, w)
       | c # cs \<Rightarrow> (Inr c, w\<lparr>p_clients := cs\<rparr>)),
     sys_close = (\<lambda>fd w. w\<lparr>p_closed := fd # p_closed w\<rparr>)\<rparr>"

lemma pipe_os_sel [simp]:
  "sys_now pipe_os = (\<lambda>w. (p_clock w, w\<lparr>p_clock := p_clock w + 1\<rparr>))"
  "sys_read pipe_os = pipe_read" "sys_write pipe_os = pipe_write"
  "sys_recv pipe_os = (\<lambda>fd n fl. pipe_read fd n)" "sys_send pipe_os = (\<lambda>fd bs fl. pipe_write fd bs)"
  "sys_recvfrom pipe_os = (\<lambda>fd n fl. pipe_take (\<lambda>m. if fl = MSG_PEEK then [m] else []) n fd)"
  "sys_sendto pipe_os = (\<lambda>fd bs fl a. pipe_write fd bs)"
  "sys_getfl pipe_os = (\<lambda>fd w. (p_flags w fd, w))"
  "sys_setfl pipe_os = (\<lambda>fd x w. (Inr (), w\<lparr>p_flags := (p_flags w)(fd := x)\<rparr>))"
  "sys_close pipe_os = (\<lambda>fd w. w\<lparr>p_closed := fd # p_closed w\<rparr>)"
  "sys_select_write pipe_os = (\<lambda>fd t w. (Inr True, w))"
  by (simp_all add: pipe_os_def)

lemma pipe_clock:
  "p_clock (snd (pipe_take k n fd w)) = p_clock w"
  "p_clock (snd (pipe_read fd n w)) = p_clock w"
  "p_clock (snd (pipe_write fd bs w)) = p_clock w"
  by (auto simp: pipe_take_def pipe_read_def pipe_write_def split: list.splits prod.splits)

definition pipe_readings :: "int \<Rightarrow> pipes \<Rightarrow> nat" where
  "pipe_readings d w = nat (d + 1 - p_clock w)"

lemma pipe_bounds:
  "pipe_take k n fd w = (Inr (bs, a), w') \<Longrightarrow> length bs \<le> n"
  "pipe_read fd n w = (Inr cs, w') \<Longrightarrow> length cs \<le> n"
  "pipe_write fd ds w = (Inr c, w') \<Longrightarrow> c = length ds"
  by (auto simp: pipe_take_def pipe_read_def pipe_write_def split: list.splits prod.splits)

interpretation pipe: live_posix pipe_os pipe_readings
proof
  fix w t w' d
  assume "sys_now pipe_os w = (t, w')" "t \<le> d"
  then show "pipe_readings d w' < pipe_readings d w" by (auto simp: pipe_readings_def)
next
  fix d c w
  show "pipe_readings d (after pipe_os c w) \<le> pipe_readings d w"
    by (cases c) (auto simp: pipe_readings_def pipe_clock pipe_os_def split: list.splits)
qed (auto dest: pipe_bounds)

text \<open>Time in microseconds.\<close>

definition us_ops :: "int time_ops" where
  "us_ops = \<lparr>toSeconds = (\<lambda>t. t sdiv 1000000), toMicroseconds = id,
     toMilliseconds = (\<lambda>t. t sdiv 1000), fromMicroseconds = id, fromMilliseconds = (\<lambda>t. t * 1000)\<rparr>"

lemma pipe_contracts: "posix pipe_os" "live_posix pipe_os pipe_readings"
  by unfold_locales

end
