(* ===== verification/Stream_Properties.thy ===== *)
theory Stream_Properties
  imports Pipe_Os Driver_Reading
begin

text \<open>The properties of the streams of \<^verbatim>\<open>src/src/IOStream.cpp\<close>.\<close>

section \<open>Every stream serves the driver\<close>

text \<open>C17 If the system calls transfer no more than they are asked to, then every class of
  stream, through the virtual calls, keeps the contract that the theorems about \<open>Driver\<close>
  assume: no read returns more than it was given room for, no write claims more than it was
  handed.\<close>

theorem streams_keep_contract:
  assumes "posix os"
  shows "io_contract (sys_env T os)"
  by (rule posix.sys_env_contract [OF assms])

text \<open>A driver on descriptor 7, where two packets wait in one message.\<close>

definition fd_world :: "byte list \<Rightarrow> pipes heap" where
  "fd_world bs =
     \<lparr>h_streams = (\<lambda>_. None)(Ptr 1 \<mapsto> FD (projr (fst (FDStream_init pipe_os 7 True True pipes_init)))),
      h_listeners = (\<lambda>_. None)(Ptr 2 \<mapsto> BufferListener_init), h_next = 3,
      h_os = send_to 7 bs [] pipes_init\<rparr>"

lemma streams_keep_contract_witness:
  "io_contract (sys_env us_ops pipe_os)
   \<and> (case readPacket (sys_env us_ops pipe_os) DriverTest_extractPacket (replicate 8 0) 8 10 10
          (demo_driver False) (fd_world [0, 1, 2, 0, 0, 3, 4]) of
        None \<Rightarrow> False
      | Some (r, d', b', w') \<Rightarrow> r = Inr 4 \<and> take 4 b' = [0, 1, 2, 0] \<and> queued d' = [0, 3, 4])"
  by (rule conjI [OF streams_keep_contract [OF pipe_contracts(1)]]) code_simp

section \<open>File descriptors\<close>

text \<open>A stream never works on a blocking descriptor: when the constructor succeeds, the flag
  was already there or has been set without touching the other flags; when it cannot be set,
  there is no stream.\<close>

theorem FDStream_nonblocking:
  assumes "sys_getfl os fd w = (fl, w1)"
  shows "(fl AND O_NONBLOCK \<noteq> 0 \<longrightarrow> snd (FDStream_init os fd ac he w) = w1
       \<and> fst (FDStream_init os fd ac he w)
         = Inr \<lparr>fd_auto_close = ac, fd_has_eof = he, fd_eof = False, fd_no = fd\<rparr>)
    \<and> (fl AND O_NONBLOCK = 0 \<longrightarrow>
         (\<exists>r w2. sys_setfl os fd (fl OR O_NONBLOCK) w1 = (r, w2)
            \<and> FDStream_init os fd ac he w = (map_sum UnixError
                (\<lambda>_. \<lparr>fd_auto_close = ac, fd_has_eof = he, fd_eof = False, fd_no = fd\<rparr>) r, w2)))
    \<and> (fl OR O_NONBLOCK) AND O_NONBLOCK \<noteq> 0"
  using O_NONBLOCK_set
  by (auto simp: FDStream_init_def setNonBlockingFlag_cases [OF assms] split: prod.splits sum.splits)

lemma FDStream_nonblocking_witness:
  "p_flags (snd (FDStream_init pipe_os 7 True True pipes_init)) 7 = 2048"
  using FDStream_nonblocking [of pipe_os 7 pipes_init 0 pipes_init True True]
  by (auto simp: pipes_init_def O_NONBLOCK_def)

text \<open>The end of a file is seen by a read that returns nothing and only by it: no error
  and no \<open>EAGAIN\<close> sets the flag, data leaves it as it is, and once set (in a stream that has
  an end) it stays.\<close>

theorem FDStream_eof_exactly:
  assumes "FDStream_read os n s w = (r, s', w')"
  shows "(fd_eof s' \<noteq> fd_eof s \<longrightarrow> r = Inr [] \<and> fst (sys_read os (fd_no s) n w) = Inr [])
    \<and> (fst (sys_read os (fd_no s) n w) = Inr [] \<longrightarrow> fd_eof s' = fd_has_eof s)
    \<and> (fd_has_eof s \<and> fd_eof s \<longrightarrow> fd_eof s') \<and> s' = s\<lparr>fd_eof := fd_eof s'\<rparr>"
  using assms by (auto simp: FDStream_read_def split: sum.splits prod.splits if_splits)

lemma FDStream_eof_exactly_witness:
  "\<exists>s'. FDStream_read pipe_os 0 \<lparr>fd_auto_close = True, fd_has_eof = True, fd_eof = False, fd_no = 7\<rparr>
       (send_to 7 [1, 2] [] pipes_init) = (Inr [], s', send_to 7 [1, 2] [] pipes_init) \<and> fd_eof s'"
proof -
  let ?s = "\<lparr>fd_auto_close = True, fd_has_eof = True, fd_eof = False, fd_no = 7\<rparr>"
  have r: "FDStream_read pipe_os 0 ?s (send_to 7 [1, 2] [] pipes_init)
      = (Inr [], ?s\<lparr>fd_eof := True\<rparr>, send_to 7 [1, 2] [] pipes_init)"
    by (simp add: FDStream_read_def pipe_read_def pipe_take_def send_to_def pipes_init_def fun_upd_idem)
  from FDStream_eof_exactly [OF this] r show ?thesis by simp
qed

section \<open>UDP\<close>


definition demo_udp :: udp_stream where
  "demo_udp = projr (fst (UDPServerStream_init pipe_os 7 True pipes_init))"

lemma demo_udp_fields:
  "ignored demo_udp ECONNREFUSED" "m_wait_read_error demo_udp = 0" "\<not> m_has_other demo_udp"
  "fd_no demo_udp = 7" "udp_wf demo_udp"
  by (simp_all add: demo_udp_def UDPServerStream_init_def FDStream_init_def setNonBlockingFlag_def
      pipes_init_def fd_stream.defs ignored_def udp_wf_def O_NONBLOCK_def)




text \<open>A datagram may be empty, but the stream takes an empty one for the end of a file, and nothing
  resets the flag.\<close>

lemma UDP_empty_datagram_is_eof:
  "\<exists>s' w'. UDPServerStream_read pipe_os 4 demo_udp (send_to 7 [] [1, 2] pipes_init) = (Inr [], s', w')
     \<and> stream_eof (UDPServer s') \<and> stream_eof (stream_clear (UDPServer s'))"
  by (auto simp: UDPServerStream_read_def pipe_take_def send_to_def pipes_init_def demo_udp_fields
      FDStream_eof_def FDStream_clear_def Let_def)

text \<open>C22 A UDP stream answers only to a peer it knows. The invariant \<open>udp_wf\<close> (a stream with a
  peer has its address) holds after both constructors and is kept by every method; without a
  peer a write drops the datagram and reports it as sent; with one, \<open>write\<close> is undefined
  exactly when the address is longer than \<^verbatim>\<open>struct sockaddr\<close>.\<close>

theorem UDP_peer_known:
  "(\<forall>s0. fst (UDPServerStream_init os fd ac w) = Inr s0 \<longrightarrow> udp_wf s0)
   \<and> (\<forall>s0. fst (UDPServerStream_init_peer os fd ac a k w) = Inr s0 \<longrightarrow> udp_wf s0)
   \<and> (udp_wf s \<longrightarrow> udp_wf (fst (snd (UDPServerStream_read os n s w)))
        \<and> (\<forall>r s' w'. UDPServerStream_waitRead T os t s w = Some (r, s', w') \<longrightarrow> udp_wf s'))
   \<and> (\<not> m_has_other s \<longrightarrow> UDPServerStream_write os bs s w = (Inr (length bs), w))
   \<and> (udp_wf s \<and> m_has_other s \<longrightarrow>
        ((\<exists>dest. peer_address sizeof_sockaddr (m_si_other s) (m_s_len s) = Inr dest)
           \<longleftrightarrow> m_s_len s \<le> sizeof_sockaddr))"
proof (intro conjI impI allI)
  fix r s' w'
  assume "udp_wf s" "UDPServerStream_waitRead T os t s w = Some (r, s', w')"
  then show "udp_wf s'"
    by (auto simp: UDPServerStream_waitRead_def udp_wf_def split: if_splits prod.splits
        dest!: udp_wait_loop_state)
next
  assume "udp_wf s \<and> m_has_other s"
  then show "(\<exists>dest. peer_address sizeof_sockaddr (m_si_other s) (m_s_len s) = Inr dest)
      \<longleftrightarrow> m_s_len s \<le> sizeof_sockaddr"
    by (auto simp: peer_address_def udp_wf_def split: option.splits)
qed (auto intro: udp_wf_ops simp: UDPServerStream_write_def)

lemma UDP_peer_known_witness:
  "udp_wf (fst (snd (UDPServerStream_read pipe_os 4 demo_udp (send_to 7 [9] [1, 2] pipes_init))))"
  using UDP_peer_known [where s = demo_udp and os = pipe_os and n = 4
      and w = "send_to 7 [9] [1, 2] pipes_init"] demo_udp_fields(5) by blast

text \<open>The address of an IPv6 peer has 28 bytes, of which the member keeps 16: the answer to its
  first datagram is undefined.\<close>

lemma UDP_ipv6_peer_undefined:
  "fst (let (r, s, w) = UDPServerStream_read pipe_os 4 demo_udp (send_to 7 [9] (replicate 28 0) pipes_init)
        in UDPServerStream_write pipe_os [1] s w) = Inl UndefinedBehaviour"
  by code_simp

text \<open>\<open>write\<close> wants to treat \<open>EAGAIN\<close> and \<open>ENOBUFS\<close> as "nothing written"; the test asks for
  both at once, so both are thrown.\<close>

lemma UDP_write_EAGAIN_throws:
  assumes "sys_sendto os (fd_no s) bs 0 dest w = (Inl err, w')" "err = EAGAIN \<or> err = ENOBUFS"
    and "m_has_other s" "peer_address sizeof_sockaddr (m_si_other s) (m_s_len s) = Inr dest"
  shows "UDPServerStream_write os bs s w = (Inl (UnixError err), w')"
  using assms by (auto simp: UDPServerStream_write_def ignored_def errno_defs)

lemma UnixDatagram_write_EAGAIN_throws:
  assumes "sys_sendto os (fd_no s) bs 0 dest w = (Inl err, w')"
    and "dg_has_other s" "peer_address sizeof_sockaddr_un (dg_si_other s) (dg_si_other_len s) = Inr dest"
  shows "UnixDatagramStream_write os bs s w = (Inl (UnixError err), w')"
  using assms by (auto simp: UnixDatagramStream_write_def errno_defs)

section \<open>The Unix stream server\<close>



section \<open>A full buffer ends a file\<close>

text \<open>When \<open>readPacket\<close> has thrown because the packet is too large, the buffer stays full. The
  next call asks the stream for zero bytes, and a descriptor answers such a read with zero:
  the stream reports the end of the file although data is waiting.\<close>

lemma full_buffer_reports_eof:
  "case readPacket (sys_env us_ops pipe_os) RawIODriver_extractPacket (replicate 8 0) 8 10 10
      (demo_queue False (replicate 8 1)) (fd_world [2, 3]) of
     None \<Rightarrow> False
   | Some (r, d', b', w') \<Rightarrow>
       eof (sys_env us_ops pipe_os) (demo_queue False (replicate 8 1)) (fd_world [2, 3]) = Inr False
       \<and> eof (sys_env us_ops pipe_os) d' w' = Inr True
       \<and> p_messages (h_os w') 7 = [([2, 3], [])]"
  by code_simp


end
