(* ===== verification/Cxx_String.thy ===== *)
theory Cxx_String
  imports Iodrivers_Prelude
begin

text \<open>
  What the library uses of \<^verbatim>\<open>std::string\<close>: \<open>find_first_of\<close>, \<open>find_last_of\<close>, \<open>substr\<close>
  (\<^verbatim>\<open>npos\<close> is \<open>None\<close>) and \<open>stoi\<close>, with the exceptions they throw. A string is a list of
  characters.
\<close>

section \<open>Searching\<close>

definition find_first_of :: "string \<Rightarrow> string \<Rightarrow> nat \<Rightarrow> nat option" where
  "find_first_of chars s i =
     (let n = i + length (takeWhile (\<lambda>c. c \<notin> set chars) (drop i s))
      in if n < length s then Some n else None)"

definition find_last_of :: "string \<Rightarrow> string \<Rightarrow> nat option" where
  "find_last_of chars s =
     (let n = length (takeWhile (\<lambda>c. c \<notin> set chars) (rev s))
      in if n < length s then Some (length s - 1 - n) else None)"

definition substr :: "string \<Rightarrow> nat \<Rightarrow> nat option \<Rightarrow> exn + string" where
  "substr s pos count =
     (if length s < pos then Inl OutOfRange
      else Inr (case count of None \<Rightarrow> drop pos s | Some n \<Rightarrow> take n (drop pos s)))"

lemma find_first_ofD:
  assumes "find_first_of chars s i = Some n"
  shows "i \<le> n" "n < length s" "s ! n \<in> set chars" "set (take (n - i) (drop i s)) \<inter> set chars = {}"
proof -
  let ?P = "\<lambda>c. c \<notin> set chars"
  let ?t = "takeWhile ?P (drop i s)"
  have n: "n = i + length ?t" "n < length s"
    using assms by (auto simp: find_first_of_def Let_def split: if_splits)
  then show "i \<le> n" "n < length s" by simp_all
  have len: "length ?t < length (drop i s)" using n by simp
  from nth_length_takeWhile [OF len] n show "s ! n \<in> set chars" by simp
  have "take (n - i) (drop i s) = ?t" using n(1) by (simp add: takeWhile_eq_take [symmetric])
  then show "set (take (n - i) (drop i s)) \<inter> set chars = {}" by (auto dest: set_takeWhileD)
qed

lemma find_first_of_append:
  assumes "set t \<inter> set chars = {}" "c \<in> set chars" "i = length p"
  shows "find_first_of chars (p @ t @ c # r) i = Some (length p + length t)"
proof -
  have "takeWhile (\<lambda>c. c \<notin> set chars) (t @ c # r) = t"
    using assms(1,2) by (subst takeWhile_append2) auto
  with assms(3) show ?thesis by (simp add: find_first_of_def Let_def)
qed

lemma find_first_of_none:
  assumes "set t \<inter> set chars = {}" "i = length p"
  shows "find_first_of chars (p @ t) i = None"
proof -
  have t: "takeWhile (\<lambda>c. c \<notin> set chars) t = t" using assms(1) by (subst takeWhile_eq_all_conv) auto
  show ?thesis unfolding find_first_of_def Let_def assms(2) by (simp add: t)
qed

lemma find_first_of_NoneD:
  assumes "find_first_of chars s i = None" "i \<le> length s"
  shows "set (drop i s) \<inter> set chars = {}"
proof -
  let ?t = "takeWhile (\<lambda>c. c \<notin> set chars) (drop i s)"
  have "length s \<le> i + length ?t"
    using assms(1) unfolding find_first_of_def Let_def by (simp split: if_splits)
  then have "length (drop i s) \<le> length ?t" by simp
  then have "?t = drop i s" by (metis takeWhile_eq_take take_all)
  then show ?thesis by (auto simp: takeWhile_eq_all_conv)
qed

lemma find_last_of_append:
  assumes "set t \<inter> set chars = {}" "c \<in> set chars"
  shows "find_last_of chars (p @ c # t) = Some (length p)"
proof -
  have "takeWhile (\<lambda>c. c \<notin> set chars) (rev t @ c # rev p) = rev t"
    using assms by (subst takeWhile_append2) auto
  then show ?thesis by (simp add: find_last_of_def Let_def)
qed

lemma substr_append:
  "i = length p \<Longrightarrow> n = length t \<Longrightarrow> substr (p @ t @ r) i (Some n) = Inr t"
  "i = length p \<Longrightarrow> substr (p @ t) i None = Inr t"
  by (simp_all add: substr_def)

section \<open>stoi\<close>

text \<open>White space, a sign, digits; the value and the number of characters used.\<close>

definition is_space :: "char \<Rightarrow> bool" where
  "is_space c = (of_char c = (32 :: nat) \<or> (9 \<le> (of_char c :: nat) \<and> (of_char c :: nat) \<le> 13))"

definition is_digit :: "char \<Rightarrow> bool" where
  "is_digit c = (48 \<le> (of_char c :: nat) \<and> (of_char c :: nat) \<le> 57)"

definition digit_value :: "char \<Rightarrow> int" where
  "digit_value c = int (of_char c) - 48"

definition digits_value :: "string \<Rightarrow> int" where
  "digits_value s = foldl (\<lambda>n c. 10 * n + digit_value c) 0 s"

definition INT_MAX :: int where "INT_MAX = 2147483647"
definition INT_MIN :: int where "INT_MIN = - 2147483648"

definition stoi :: "string \<Rightarrow> exn + int \<times> nat" where
  "stoi s =
     (let spaces = takeWhile is_space s;
          s1 = drop (length spaces) s;
          sign = (case s1 of c # _ \<Rightarrow> if c = CHR ''-'' \<or> c = CHR ''+'' then [c] else [] | [] \<Rightarrow> []);
          digits = takeWhile is_digit (drop (length sign) s1);
          n = (if sign = ''-'' then - digits_value digits else digits_value digits)
      in if digits = [] then Inl InvalidArgument
         else if n < INT_MIN \<or> INT_MAX < n then Inl OutOfRange
         else Inr (n, length spaces + length sign + length digits))"

lemma stoi_length: "stoi s = Inr (n, k) \<Longrightarrow> k \<le> length s"
proof -
  assume *: "stoi s = Inr (n, k)"
  define sp where "sp = takeWhile is_space s"
  define s1 where "s1 = drop (length sp) s"
  define sg where "sg = (case s1 of c # _ \<Rightarrow> if c = CHR ''-'' \<or> c = CHR ''+'' then [c] else [] | [] \<Rightarrow> [])"
  have "length (takeWhile is_digit (drop (length sg) s1)) \<le> length (drop (length sg) s1)"
    by (rule length_takeWhile_le)
  moreover have "length sg \<le> length s1" by (auto simp: sg_def split: list.splits)
  moreover have "length sp \<le> length s" unfolding sp_def by (rule length_takeWhile_le)
  moreover have "k = length sp + length sg + length (takeWhile is_digit (drop (length sg) s1))"
    using * unfolding stoi_def Let_def sp_def s1_def sg_def by (simp split: if_splits)
  ultimately show ?thesis by (simp add: s1_def)
qed

lemma stoi_error: "stoi s = Inl e \<Longrightarrow> e = InvalidArgument \<or> e = OutOfRange"
  by (auto simp: stoi_def Let_def split: if_splits)

lemma stoi_range: "stoi s = Inr (n, k) \<Longrightarrow> INT_MIN \<le> n \<and> n \<le> INT_MAX"
  by (auto simp: stoi_def Let_def split: if_splits)

text \<open>The decimal notation of a number, which \<open>stoi\<close> reads back.\<close>

fun decimal :: "nat \<Rightarrow> string" where
  "decimal n = (if n < 10 then [char_of (48 + n)] else decimal (n div 10) @ [char_of (48 + n mod 10)])"

declare decimal.simps [simp del]

lemma digit_char:
  "n < 10 \<Longrightarrow> is_digit (char_of (48 + n))" "n < 10 \<Longrightarrow> digit_value (char_of (48 + n)) = int n"
  "is_digit c \<Longrightarrow> \<not> is_space c" "is_digit c \<Longrightarrow> c \<noteq> CHR ''-'' \<and> c \<noteq> CHR ''+''"
  by (auto simp: is_digit_def digit_value_def is_space_def)

lemma decimal_digits: "decimal n \<noteq> [] \<and> (\<forall>c \<in> set (decimal n). is_digit c)"
proof (induction n rule: decimal.induct)
  case (1 n)
  then show ?case by (subst (1 2) decimal.simps) (auto intro: digit_char(1))
qed

lemma digits_value_snoc: "digits_value (s @ [c]) = 10 * digits_value s + digit_value c"
  by (simp add: digits_value_def)

lemma decimal_value: "digits_value (decimal n) = int n"
proof (induction n rule: decimal.induct)
  case (1 n)
  show ?case
  proof (cases "n < 10")
    case True
    then show ?thesis by (subst decimal.simps) (simp add: digits_value_def digit_char(2))
  next
    case False
    have "digits_value (decimal n) = 10 * int (n div 10) + int (n mod 10)"
      using 1 [OF False] False by (subst decimal.simps) (simp add: digits_value_snoc digit_char(2))
    also have "\<dots> = int (10 * (n div 10) + n mod 10)" by (simp only: of_nat_add of_nat_mult of_nat_numeral)
    finally show ?thesis by simp
  qed
qed

lemma stoi_decimal:
  assumes "int n \<le> INT_MAX" "r = [] \<or> \<not> is_digit (hd r)"
  shows "stoi (decimal n @ r) = Inr (int n, length (decimal n))"
proof -
  obtain c ds where d: "decimal n = c # ds" "is_digit c"
    using decimal_digits [of n] by (cases "decimal n") auto
  have sp: "takeWhile is_space (decimal n @ r) = []" using d digit_char(3) by simp
  have digits: "takeWhile is_digit (decimal n @ r) = decimal n"
    using decimal_digits [of n] assms(2) by (subst takeWhile_append2) (auto simp: takeWhile_eq_Nil_iff)
  have sign: "(case decimal n @ r of c # _ \<Rightarrow> if c = CHR ''-'' \<or> c = CHR ''+'' then [c] else [] | [] \<Rightarrow> []) = []"
    using d digit_char(4) by simp
  show ?thesis
    unfolding stoi_def Let_def sp list.size(3) drop_0 sign digits
    using decimal_digits [of n] assms(1) by (simp add: decimal_value INT_MIN_def)
qed

end
