(* ===== verification/Setup_Os.thy ===== *)
theory Setup_Os
  imports Stream_Objects Cxx_String
begin

text \<open>
  The system calls that open a driver (\<^verbatim>\<open>src/src/Driver.cpp\<close>): files, sockets, name
  resolution, terminals. A call that fails gives \<open>None\<close> or \<open>False\<close> and leaves its error in
  \<open>errno\<close>, which \<^verbatim>\<open>UnixError\<close> reads (\<^verbatim>\<open>src/src/Exceptions.cpp\<close>). The numbers are those of
  Linux.
\<close>

section \<open>Constants\<close>

definition O_RDWR :: "32 word" where "O_RDWR = 2"
definition O_NOCTTY :: "32 word" where "O_NOCTTY = 256"
definition O_NONBLOCK_flag :: "32 word" where "O_NONBLOCK_flag = 2048"
definition O_SYNC :: "32 word" where "O_SYNC = 1052672"

definition AF_UNSPEC :: int where "AF_UNSPEC = 0"
definition AF_UNIX :: int where "AF_UNIX = 1"
definition SOCK_STREAM :: int where "SOCK_STREAM = 1"
definition SOCK_DGRAM :: int where "SOCK_DGRAM = 2"
definition AI_PASSIVE :: int where "AI_PASSIVE = 1"
definition IPPROTO_TCP :: int where "IPPROTO_TCP = 6"
definition TCP_NODELAY :: int where "TCP_NODELAY = 1"

section \<open>Structures\<close>

record addrinfo =
  ai_flags :: int
  ai_family :: int
  ai_socktype :: int
  ai_protocol :: int
  ai_addr :: "byte list"

definition addrinfo_zero :: addrinfo where
  "addrinfo_zero = \<lparr>ai_flags = 0, ai_family = 0, ai_socktype = 0, ai_protocol = 0, ai_addr = []\<rparr>"

record termios =
  c_iflag :: "32 word"
  c_oflag :: "32 word"
  c_cflag :: "32 word"
  c_lflag :: "32 word"
  c_rest :: "byte list"

definition termios_zero :: termios where
  "termios_zero = \<lparr>c_iflag = 0, c_oflag = 0, c_cflag = 0, c_lflag = 0, c_rest = replicate 44 0\<rparr>"

text \<open>The members of \<^verbatim>\<open>struct serial_struct\<close> that the code uses; \<open>ss_other\<close> is the rest.\<close>

record serial_struct =
  ss_flags :: "32 word"
  ss_custom_divisor :: int
  ss_baud_base :: int
  ss_other :: "byte list"

section \<open>System calls\<close>

text \<open>\<open>sys_tiocgserial\<close> gives what the structure holds after the call, whose result the code
  ignores.\<close>

record 'o unix =
  sys_errno :: "'o \<Rightarrow> int"
  sys_open :: "string \<Rightarrow> 32 word \<Rightarrow> 'o \<Rightarrow> int option \<times> 'o"
  sys_unlink :: "string \<Rightarrow> 'o \<Rightarrow> 'o"
  sys_socket :: "int \<Rightarrow> int \<Rightarrow> int \<Rightarrow> 'o \<Rightarrow> int option \<times> 'o"
  sys_bind :: "int \<Rightarrow> byte list \<Rightarrow> 'o \<Rightarrow> bool \<times> 'o"
  sys_connect :: "int \<Rightarrow> byte list \<Rightarrow> 'o \<Rightarrow> bool \<times> 'o"
  sys_listen :: "int \<Rightarrow> int \<Rightarrow> 'o \<Rightarrow> bool \<times> 'o"
  sys_setsockopt :: "int \<Rightarrow> int \<Rightarrow> int \<Rightarrow> int \<Rightarrow> 'o \<Rightarrow> bool \<times> 'o"
  sys_getaddrinfo :: "string option \<Rightarrow> string \<Rightarrow> addrinfo \<Rightarrow> 'o \<Rightarrow> addrinfo list option \<times> 'o"
  sys_tcgetattr :: "int \<Rightarrow> 'o \<Rightarrow> termios option \<times> 'o"
  sys_tcsetattr :: "int \<Rightarrow> termios \<Rightarrow> 'o \<Rightarrow> bool \<times> 'o"
  sys_cfsetispeed :: "termios \<Rightarrow> int \<Rightarrow> 'o \<Rightarrow> termios option \<times> 'o"
  sys_cfsetospeed :: "termios \<Rightarrow> int \<Rightarrow> 'o \<Rightarrow> termios option \<times> 'o"
  sys_tiocgserial :: "int \<Rightarrow> 'o \<Rightarrow> serial_struct \<times> 'o"
  sys_tiocsserial :: "int \<Rightarrow> serial_struct \<Rightarrow> 'o \<Rightarrow> 'o"

text \<open>\<^verbatim>\<open>throw UnixError(...)\<close>.\<close>

definition throw_errno :: "'o unix \<Rightarrow> 'o \<Rightarrow> (exn + 'a) \<times> 'o" where
  "throw_errno S w = (Inl (UnixError (sys_errno S w)), w)"

text \<open>\<^verbatim>\<open>FileGuard\<close>: the descriptor is closed when its scope is left by a throw; \<open>release\<close> on
  the way out keeps it.\<close>

definition guarded :: "('o, 't) os \<Rightarrow> int \<Rightarrow> (exn + 'a) \<times> 'o \<Rightarrow> (exn + 'a) \<times> 'o" where
  "guarded os fd r =
     (case r of (Inl e, w) \<Rightarrow> (Inl e, if fd \<noteq> - 1 then sys_close os fd w else w) | (Inr x, w) \<Rightarrow> (Inr x, w))"

lemma throw_errno_simp [simp]: "throw_errno S w = (Inl (UnixError (sys_errno S w)), w)"
  by (simp add: throw_errno_def)

lemma guarded_simps [simp]:
  "guarded os fd (Inl e, w) = (Inl e, if fd \<noteq> - 1 then sys_close os fd w else w)"
  "guarded os fd (Inr x, w) = (Inr x, w)"
  by (simp_all add: guarded_def)

section \<open>C strings and addresses\<close>

definition c_str :: "string \<Rightarrow> string" where
  "c_str s = takeWhile (\<lambda>c. (of_char c :: nat) \<noteq> 0) s"

definition lexical_cast_int :: "int \<Rightarrow> string" where
  "lexical_cast_int n = (if n < 0 then CHR ''-'' # decimal (nat (- n)) else decimal (nat n))"

text \<open>A zeroed \<^verbatim>\<open>sockaddr_un\<close> with its family and the path copied by \<^verbatim>\<open>strncpy\<close>.\<close>

definition unix_sockaddr :: "string \<Rightarrow> byte list" where
  "unix_sockaddr path =
     (let p = map of_char (take 107 (c_str path))
      in [1, 0] @ p @ replicate (108 - length p) 0)"

lemma length_unix_sockaddr [simp]: "length (unix_sockaddr path) = sizeof_sockaddr_un"
  by (simp add: unix_sockaddr_def Let_def sizeof_sockaddr_un_def)

section \<open>What the manual pages promise of descriptors\<close>

text \<open>\<open>open_fds\<close> is the set of descriptors that the process has open: a call that makes one adds
  one that was not there, \<^verbatim>\<open>close\<close> removes it, and nothing else changes the set.\<close>

locale fd_table =
  fixes os :: "('o, 't) os" and S :: "'o unix" and open_fds :: "'o \<Rightarrow> int set"
  assumes open_some: "sys_open S path fl w = (Some fd, w') \<Longrightarrow> open_fds w' = insert fd (open_fds w) \<and> fd \<notin> open_fds w \<and> 0 \<le> fd"
    and socket_some: "sys_socket S a b c w = (Some fd, w') \<Longrightarrow> open_fds w' = insert fd (open_fds w) \<and> fd \<notin> open_fds w \<and> 0 \<le> fd"
    and open_none: "sys_open S path fl w = (None, w') \<Longrightarrow> open_fds w' = open_fds w"
    and socket_none: "sys_socket S a b c w = (None, w') \<Longrightarrow> open_fds w' = open_fds w"
    and close_fds: "open_fds (sys_close os fd w) = open_fds w - {fd}"
    and other_fds:
      "open_fds (sys_unlink S path w) = open_fds w"
      "open_fds (snd (sys_bind S fd adr w)) = open_fds w"
      "open_fds (snd (sys_connect S fd adr w)) = open_fds w"
      "open_fds (snd (sys_listen S fd n w)) = open_fds w"
      "open_fds (snd (sys_setsockopt S fd l opt x w)) = open_fds w"
      "open_fds (snd (sys_getaddrinfo S host port hints w)) = open_fds w"
      "open_fds (snd (sys_tcgetattr S fd w)) = open_fds w"
      "open_fds (snd (sys_tcsetattr S fd tio w)) = open_fds w"
      "open_fds (snd (sys_cfsetispeed S tio b w)) = open_fds w"
      "open_fds (snd (sys_cfsetospeed S tio b w)) = open_fds w"
      "open_fds (snd (sys_tiocgserial S fd w)) = open_fds w"
      "open_fds (sys_tiocsserial S fd ss w) = open_fds w"
      "open_fds (snd (sys_getfl os fd w)) = open_fds w"
      "open_fds (snd (sys_setfl os fd fl2 w)) = open_fds w"

end
