(* ===== verification/Uri_Model.thy ===== *)
theory Uri_Model
  imports Cxx_String
begin

text \<open>\<^verbatim>\<open>src/src/URI.cpp\<close>: the parser of stream URIs and the accessors of its result.\<close>

record uri =
  m_scheme :: string
  m_host :: string
  m_port :: int
  m_options :: "string \<Rightarrow> string option"

definition URI_default :: uri where
  "URI_default = \<lparr>m_scheme = [], m_host = [], m_port = 0, m_options = Map.empty\<rparr>"

definition URI_init :: "string \<Rightarrow> string \<Rightarrow> int \<Rightarrow> (string \<Rightarrow> string option) \<Rightarrow> uri" where
  "URI_init scheme host port options =
     \<lparr>m_scheme = scheme, m_host = host, m_port = port, m_options = options\<rparr>"

declare URI_init_def [simp]

definition getScheme :: "uri \<Rightarrow> string" where "getScheme u = m_scheme u"
definition getHost :: "uri \<Rightarrow> string" where "getHost u = m_host u"
definition getPort :: "uri \<Rightarrow> int" where "getPort u = m_port u"
definition getOptions :: "uri \<Rightarrow> string \<Rightarrow> string option" where "getOptions u = m_options u"

definition getOption :: "uri \<Rightarrow> string \<Rightarrow> string \<Rightarrow> string" where
  "getOption u key default_value =
     (case m_options u key of None \<Rightarrow> default_value | Some v \<Rightarrow> v)"

text \<open>The loop over the options; \<open>None\<close> is \<^verbatim>\<open>npos\<close>.\<close>

function uri_options ::
  "string \<Rightarrow> nat option \<Rightarrow> (string \<Rightarrow> string option) \<Rightarrow> exn + (string \<Rightarrow> string option)" where
  "uri_options uri None options = Inr options"
| "uri_options uri (Some one_before_options) options =
     (let options_start = one_before_options + 1;
          separator = find_first_of ''='' uri options_start;
          options_end = find_first_of ''&'' uri options_start
      in case separator of
           None \<Rightarrow> Inl InvalidArgument
         | Some sep \<Rightarrow>
             if (case options_end of None \<Rightarrow> False | Some e \<Rightarrow> e < sep) then Inl InvalidArgument
             else
               (case substr uri options_start (Some (sep - options_start)) of
                  Inl e \<Rightarrow> Inl e
                | Inr key \<Rightarrow>
                    (case substr uri (sep + 1) (map_option (\<lambda>e. e - sep - 1) options_end) of
                       Inl e \<Rightarrow> Inl e
                     | Inr value \<Rightarrow> uri_options uri options_end (options(key \<mapsto> value)))))"
  by pat_completeness auto
termination
proof (relation "measure (\<lambda>(uri, i, options). case i of None \<Rightarrow> 0 | Some n \<Rightarrow> Suc (length uri) - n)", goal_cases)
  case 1
  show ?case by simp
next
  case (2 uri i options start sep oe sp key "value")
  have sp: "i < length uri" using 2(2,4) find_first_ofD(1,2) [of "''=''" uri start sp] 2(1) by auto
  show ?case
  proof (cases oe)
    case None
    with sp show ?thesis by simp
  next
    case (Some e)
    with 2(1,3) have "find_first_of ''&'' uri (i + 1) = Some e" by simp
    from find_first_ofD(1,2) [OF this] sp Some show ?thesis by simp
  qed
qed

declare uri_options.simps [simp del]

definition URI_parse :: "string \<Rightarrow> exn + uri" where
  "URI_parse uri =
     (case find_first_of '':'' uri 0 of
        None \<Rightarrow> Inl InvalidArgument
      | Some scheme_end \<Rightarrow>
          let host_start = scheme_end + 3 in
          if substr uri scheme_end (Some 3) \<noteq> Inr ''://'' then Inl InvalidArgument
          else
            (case substr uri 0 (Some scheme_end) of
               Inl e \<Rightarrow> Inl e
             | Inr scheme \<Rightarrow>
                 let host_end = find_first_of ''?:'' uri host_start in
                 (case substr uri host_start (map_option (\<lambda>e. e - host_start) host_end) of
                    Inl e \<Rightarrow> Inl e
                  | Inr host \<Rightarrow>
                      (case host_end of
                         None \<Rightarrow> Inr (URI_init scheme host 0 Map.empty)
                       | Some he \<Rightarrow>
                           (case
                              (if uri ! he = CHR '':'' then
                                 (case substr uri (he + 1) None of
                                    Inl e \<Rightarrow> Inl e
                                  | Inr s \<Rightarrow>
                                      (case stoi s of
                                         Inl e \<Rightarrow> Inl e
                                       | Inr (port, port_size) \<Rightarrow>
                                           let port_end = he + 1 + port_size in
                                           if port_end = length uri then Inr (port, None)
                                           else if uri ! port_end = CHR ''?'' then Inr (port, Some port_end)
                                           else Inl InvalidArgument))
                               else Inr (0, Some he))
                            of
                              Inl e \<Rightarrow> Inl e
                            | Inr (port, one_before_options) \<Rightarrow>
                                (case uri_options uri one_before_options Map.empty of
                                   Inl e \<Rightarrow> Inl e
                                 | Inr options \<Rightarrow>
                                     Inr (URI_init scheme host port options)))))))"

section \<open>The notation\<close>

text \<open>\<open>uri_text\<close> writes the URIs that \<open>URI_parse\<close> reads.\<close>

fun options_text :: "(string \<times> string) list \<Rightarrow> string" where
  "options_text [] = []"
| "options_text ((k, v) # os) = k @ ''='' @ v @ (if os = [] then [] else ''&'' @ options_text os)"

definition uri_text :: "string \<Rightarrow> string \<Rightarrow> nat option \<Rightarrow> (string \<times> string) list \<Rightarrow> string" where
  "uri_text scheme host port os =
     scheme @ ''://'' @ host
     @ (case port of None \<Rightarrow> [] | Some n \<Rightarrow> '':'' @ decimal n)
     @ (if os = [] then [] else ''?'' @ options_text os)"

definition option_ok :: "string \<times> string \<Rightarrow> bool" where
  "option_ok o1 \<longleftrightarrow> set (fst o1) \<inter> set ''=&'' = {} \<and> set (snd o1) \<inter> set ''&'' = {}"

lemma uri_options_text:
  assumes "os \<noteq> []" "\<forall>o1 \<in> set os. option_ok o1"
  shows "uri_options (p @ c # options_text os) (Some (length p)) m = Inr (m ++ map_of (rev os))"
  using assms
proof (induction os arbitrary: p c m)
  case (Cons kv os)
  obtain k v where kv: "kv = (k, v)" by (cases kv)
  with Cons.prems(2) have ok: "set k \<inter> set ''='' = {}" "set k \<inter> set ''&'' = {}" "set v \<inter> set ''&'' = {}"
    by (auto simp: option_ok_def)
  define tail where "tail = (if os = [] then [] else ''&'' @ options_text os)"
  define u where "u = (p @ [c]) @ k @ CHR ''='' # v @ tail"
  have u: "p @ c # options_text (kv # os) = u" by (simp add: u_def kv tail_def)
  have sep: "find_first_of ''='' u (length p + 1) = Some (length p + 1 + length k)"
    unfolding u_def using find_first_of_append [OF ok(1), of "CHR ''=''" "length p + 1" "p @ [c]"] by simp
  have key: "substr u (length p + 1) (Some (length k)) = Inr k"
    unfolding u_def by (subst substr_append(1)) simp_all
  show ?case
  proof (cases "os = []")
    case True
    have e: "find_first_of ''&'' u (length p + 1) = None"
      unfolding u_def using find_first_of_none [of "k @ CHR ''='' # v" "''&''" "length p + 1" "p @ [c]"] ok True
      by (auto simp: tail_def)
    have val: "substr u (length p + 1 + length k + 1) None = Inr v"
      unfolding u_def using True
      by (simp add: tail_def substr_def)
    have "uri_options u (Some (length p)) m = Inr (m(k \<mapsto> v))"
      by (subst uri_options.simps) (simp add: Let_def sep [simplified] e [simplified] key [simplified] val [simplified] uri_options.simps)
    moreover have "m ++ map_of (rev (kv # os)) = m(k \<mapsto> v)"
      using True by (simp add: kv map_add_def fun_eq_iff)
    ultimately show ?thesis unfolding u by (simp only:)
  next
    case False
    let ?q = "p @ c # k @ CHR ''='' # v"
    have u': "u = (p @ [c]) @ (k @ CHR ''='' # v) @ CHR ''&'' # options_text os"
      using False by (simp add: u_def tail_def)
    have e: "find_first_of ''&'' u (length p + 1) = Some (length p + 1 + (length k + 1 + length v))"
      unfolding u' using find_first_of_append [of "k @ CHR ''='' # v" "''&''" "CHR ''&''" "length p + 1" "p @ [c]"] ok
      by auto
    have val: "substr u (length p + 1 + length k + 1) (Some (length v)) = Inr v"
      unfolding u' by (simp add: substr_def)
    have "uri_options u (Some (length p)) m = uri_options u (Some (length ?q)) (m(k \<mapsto> v))"
      by (subst uri_options.simps) (simp add: Let_def sep [simplified] e [simplified] key [simplified] val [simplified])
    also have "\<dots> = Inr (m(k \<mapsto> v) ++ map_of (rev os))"
      using Cons.IH [OF False, of ?q "CHR ''&''" "m(k \<mapsto> v)"] Cons.prems(2) by (simp add: u' fun_upd_def)
    also have "m(k \<mapsto> v) ++ map_of (rev os) = m ++ map_of (rev (kv # os))"
      by (simp add: kv map_add_def fun_eq_iff split: option.splits)
    finally show ?thesis unfolding u .
  qed
qed simp

section \<open>Errors\<close>

lemma substr_error: "substr s i n = Inl e \<Longrightarrow> e = OutOfRange"
  by (auto simp: substr_def split: if_splits)

lemma uri_options_error:
  "uri_options uri i m = Inl e \<Longrightarrow> e = InvalidArgument \<or> e = OutOfRange"
proof (induction uri i m rule: uri_options.induct)
  case (2 uri i m)
  let ?oe = "find_first_of ''&'' uri (i + 1)"
  show ?case
  proof (cases "find_first_of ''='' uri (i + 1)")
    case None
    with 2(2) show ?thesis by (subst (asm) uri_options.simps) simp
  next
    case (Some sep)
    show ?thesis
    proof (cases "case ?oe of None \<Rightarrow> False | Some e \<Rightarrow> e < sep")
      case True
      with 2(2) Some show ?thesis by (subst (asm) uri_options.simps) simp
    next
      case False
      show ?thesis
      proof (cases "substr uri (i + 1) (Some (sep - (i + 1)))")
        case (Inl e')
        with 2(2) Some False show ?thesis
          by (subst (asm) uri_options.simps) (auto dest: substr_error)
      next
        case key: (Inr key)
        show ?thesis
        proof (cases "substr uri (sep + 1) (map_option (\<lambda>e. e - sep - 1) ?oe)")
          case (Inl e')
          with 2(2) Some False key show ?thesis
            by (subst (asm) uri_options.simps) (auto dest: substr_error)
        next
          case (Inr "value")
          with 2(2) Some False key have "uri_options uri ?oe (m(key \<mapsto> value)) = Inl e"
            by (subst (asm) uri_options.simps) simp
          then show ?thesis using 2(1) [OF refl refl refl Some False key Inr] by blast
        qed
      qed
    qed
  qed
qed (simp add: uri_options.simps)

lemma URI_parse_error: "URI_parse s = Inl e \<Longrightarrow> e = InvalidArgument \<or> e = OutOfRange"
  by (auto simp: URI_parse_def Let_def split: option.splits if_splits sum.splits prod.splits
      dest: substr_error stoi_error uri_options_error)

section \<open>What the parser returns\<close>

definition uri_ok :: "string \<Rightarrow> string \<Rightarrow> nat option \<Rightarrow> (string \<times> string) list \<Rightarrow> bool" where
  "uri_ok scheme host port os \<longleftrightarrow>
     CHR '':'' \<notin> set scheme \<and> set host \<inter> set ''?:'' = {}
     \<and> (case port of None \<Rightarrow> True | Some n \<Rightarrow> int n \<le> INT_MAX) \<and> (\<forall>o1 \<in> set os. option_ok o1)"

definition uri_of :: "string \<Rightarrow> string \<Rightarrow> nat option \<Rightarrow> (string \<times> string) list \<Rightarrow> uri" where
  "uri_of scheme host port os =
     \<lparr>m_scheme = scheme, m_host = host, m_port = (case port of None \<Rightarrow> 0 | Some n \<Rightarrow> int n),
      m_options = map_of (rev os)\<rparr>"

lemma URI_parse_head:
  assumes "CHR '':'' \<notin> set scheme"
  shows "find_first_of '':'' (scheme @ ''://'' @ r) 0 = Some (length scheme)"
    and "substr (scheme @ ''://'' @ r) (length scheme) (Some 3) = Inr ''://''"
    and "substr (scheme @ ''://'' @ r) 0 (Some (length scheme)) = Inr scheme"
  using find_first_of_append [of scheme "'':''" "CHR '':''" 0 "[]" "''//'' @ r"] assms
  by (auto simp: substr_def)

lemma URI_parse_host:
  assumes "set host \<inter> set ''?:'' = {}"
  shows "find_first_of ''?:'' (scheme @ ''://'' @ host) (length scheme + 3) = None"
    and "c \<in> set ''?:'' \<Longrightarrow>
      find_first_of ''?:'' (scheme @ ''://'' @ host @ c # r) (length scheme + 3)
      = Some (length scheme + 3 + length host)"
    and "substr (scheme @ ''://'' @ host @ r) (length scheme + 3) (Some (length host)) = Inr host"
    and "substr (scheme @ ''://'' @ host) (length scheme + 3) None = Inr host"
  using find_first_of_none [of host "''?:''" "length scheme + 3" "scheme @ ''://''"]
    find_first_of_append [of host "''?:''" c "length scheme + 3" "scheme @ ''://''" r] assms
  by (auto simp: substr_def)

lemma URI_parse_tail:
  assumes "CHR '':'' \<notin> set scheme" "set host \<inter> set ''?:'' = {}" "c \<in> set ''?:''"
    and u: "u = scheme @ ''://'' @ host @ c # r" and he: "he = length scheme + 3 + length host"
  shows "URI_parse u =
    (case
       (if c = CHR '':'' then
          (case stoi r of
             Inl e \<Rightarrow> Inl e
           | Inr (port, port_size) \<Rightarrow>
               if he + 1 + port_size = length u then Inr (port, None)
               else if u ! (he + 1 + port_size) = CHR ''?'' then Inr (port, Some (he + 1 + port_size))
               else Inl InvalidArgument)
        else Inr (0, Some he))
     of
       Inl e \<Rightarrow> Inl e
     | Inr (port, one_before_options) \<Rightarrow>
         (case uri_options u one_before_options Map.empty of
            Inl e \<Rightarrow> Inl e
          | Inr options \<Rightarrow>
              Inr \<lparr>m_scheme = scheme, m_host = host, m_port = port, m_options = options\<rparr>))"
proof -
  have 1: "find_first_of '':'' u 0 = Some (length scheme)" "substr u (length scheme) (Some 3) = Inr ''://''"
    "substr u 0 (Some (length scheme)) = Inr scheme"
    unfolding u by (rule URI_parse_head [OF assms(1)])+
  have 2: "find_first_of ''?:'' u (length scheme + 3) = Some he"
    unfolding u he by (rule URI_parse_host(2) [OF assms(2,3)])
  have 3: "substr u (length scheme + 3) (Some (he - (length scheme + 3))) = Inr host"
    unfolding u using URI_parse_host(3) [OF assms(2)] by (simp add: he)
  have 4: "u ! he = c" unfolding u he using nth_append_length [of "scheme @ ''://'' @ host" c r]
    by (simp add: numeral_3_eq_3)
  have 5: "substr u (he + 1) None = Inr r" unfolding u he
    using substr_append(2) [of "he + 1" "scheme @ ''://'' @ host @ [c]" r] he by (simp add: add.assoc)
  show ?thesis
    unfolding URI_parse_def Let_def 1 option.case 2 option.map 3 sum.case 4 5
    by (auto split: sum.split)
qed

lemma parse_uri_text:
  assumes "uri_ok scheme host port os"
  shows "URI_parse (uri_text scheme host port os) = Inr (uri_of scheme host port os)"
proof -
  from assms have s: "CHR '':'' \<notin> set scheme" and h: "set host \<inter> set ''?:'' = {}"
    and p: "\<And>n. port = Some n \<Longrightarrow> int n \<le> INT_MAX" and o: "\<forall>o1 \<in> set os. option_ok o1"
    by (auto simp: uri_ok_def)
  show ?thesis
  proof (cases port)
    case None
    show ?thesis
    proof (cases "os = []")
      case True
      have "URI_parse (scheme @ ''://'' @ host) = Inr (uri_of scheme host None [])"
        unfolding URI_parse_def Let_def uri_of_def
        using URI_parse_head [OF s, of host] URI_parse_host [OF h] by simp
      with None True show ?thesis by (simp add: uri_text_def)
    next
      case False
      define u where "u = scheme @ ''://'' @ host @ CHR ''?'' # options_text os"
      have "uri_options u (Some (length scheme + 3 + length host)) Map.empty = Inr (map_of (rev os))"
        unfolding u_def using uri_options_text [OF False o, of "scheme @ ''://'' @ host" "CHR ''?''" Map.empty]
        by (simp add: numeral_3_eq_3)
      moreover have "uri_text scheme host port os = u" using None False by (simp add: u_def uri_text_def)
      ultimately show ?thesis using None
        by (simp add: URI_parse_tail [OF s h _ u_def refl] uri_of_def)
    qed
  next
    case (Some n)
    define q where "q = (if os = [] then [] else ''?'' @ options_text os)"
    define u where "u = scheme @ ''://'' @ host @ CHR '':'' # decimal n @ q"
    let ?pe = "length scheme + 3 + length host + 1 + length (decimal n)"
    have st: "stoi (decimal n @ q) = Inr (int n, length (decimal n))"
      by (rule stoi_decimal [OF p [OF Some]]) (simp add: q_def is_digit_def)
    have q: "?pe = length u \<longleftrightarrow> os = []" by (simp add: u_def q_def)
    have "u ! ?pe = CHR ''?''" if "os \<noteq> []"
      using that nth_append_length [of "scheme @ ''://'' @ host @ CHR '':'' # decimal n" "CHR ''?''" "options_text os"]
      by (simp add: u_def q_def numeral_3_eq_3 add.assoc)
    moreover have "uri_options u (Some ?pe) Map.empty = Inr (map_of (rev os))" if "os \<noteq> []"
      using that uri_options_text [OF that o, of "scheme @ ''://'' @ host @ CHR '':'' # decimal n" "CHR ''?''" Map.empty]
      by (simp add: u_def q_def numeral_3_eq_3 add.assoc)
    ultimately have "URI_parse u = Inr (uri_of scheme host (Some n) os)"
      using q by (cases "os = []") (simp_all add: URI_parse_tail [OF s h _ u_def refl] st uri_of_def uri_options.simps)
    with Some show ?thesis by (simp add: u_def q_def uri_text_def)
  qed
qed

text \<open>C24 Round trip. \<^verbatim>\<open>URI::parse\<close> gives back the scheme, host, port and options that a URI was
  written from, whatever they are as long as the scheme has no colon, the host neither a colon nor a
  question mark, the port fits in an \<^verbatim>\<open>int\<close>, and no option key holds an equal sign or an
  ampersand and no value an ampersand; of two options with the same key the later one counts, an
  absent port reads as zero.\<close>

theorem URI_parse_roundtrip:
  assumes "uri_ok scheme host port os"
  shows "URI_parse (uri_text scheme host port os) = Inr (uri_of scheme host port os)"
  using assms by (rule parse_uri_text)

theorem URI_parse_roundtrip_witness:
  "URI_parse ''tcp://host:4000?timeout=5&a=b'' = Inr (uri_of ''tcp'' ''host'' (Some 4000) [(''timeout'', ''5''), (''a'', ''b'')])"
proof -
  have "uri_ok ''tcp'' ''host'' (Some 4000) [(''timeout'', ''5''), (''a'', ''b'')]"
    by (simp add: uri_ok_def option_ok_def INT_MAX_def)
  moreover have "decimal 4000 = ''4000''"
    by (simp add: decimal.simps char_of_def bit_numeral_rec bit_Suc_0_iff)
  then have "uri_text ''tcp'' ''host'' (Some 4000) [(''timeout'', ''5''), (''a'', ''b'')]
    = ''tcp://host:4000?timeout=5&a=b''"
    by (simp add: uri_text_def)
  ultimately show ?thesis using URI_parse_roundtrip by metis
qed

lemma URI_parse_Inr:
  assumes "URI_parse s = Inr u"
  shows "CHR '':'' \<notin> set (getScheme u) \<and> set (getHost u) \<inter> set ''?:'' = {}
    \<and> getPort u \<in> {INT_MIN..INT_MAX}
    \<and> (\<exists>r. s = getScheme u @ ''://'' @ getHost u @ r \<and> r \<in> {[]} \<union> {c # r' |c r'. c \<in> set ''?:''})"
proof -
  obtain se where se: "find_first_of '':'' s 0 = Some se"
    using assms by (auto simp: URI_parse_def split: option.splits)
  then have three: "substr s se (Some 3) = Inr ''://''"
    using assms by (auto simp: URI_parse_def Let_def split: if_splits)
  note D = find_first_ofD [OF se]
  have scheme: "substr s 0 (Some se) = Inr (take se s)" by (simp add: substr_def)
  have "take 3 (drop se s) = ''://''" using three by (auto simp: substr_def split: if_splits)
  then have s: "s = take se s @ ''://'' @ drop (se + 3) s"
    by (metis append_take_drop_id drop_drop add.commute)
  have colon: "CHR '':'' \<notin> set (take se s)" using D(4) by simp
  have len: "se + 3 \<le> length s"
  proof -
    have "length (take se s) = se" using D(2) by simp
    with arg_cong [OF s, of length] show ?thesis by simp
  qed
  show ?thesis
  proof (cases "find_first_of ''?:'' s (se + 3)")
    case None
    then have "u = \<lparr>m_scheme = take se s, m_host = drop (se + 3) s, m_port = 0, m_options = Map.empty\<rparr>"
      using assms se three scheme len by (auto simp: URI_parse_def Let_def substr_def)
    moreover have "set (drop (se + 3) s) \<inter> set ''?:'' = {}"
      using find_first_of_NoneD [OF None len] .
    ultimately show ?thesis using s colon
      by (auto simp: getScheme_def getHost_def getPort_def INT_MIN_def INT_MAX_def intro!: exI [of _ "[]"])
  next
    case (Some he)
    note E = find_first_ofD [OF Some]
    have host: "substr s (se + 3) (Some (he - (se + 3))) = Inr (take (he - (se + 3)) (drop (se + 3) s))"
      using len by (simp add: substr_def)
    have u: "m_scheme u = take se s" "m_host u = take (he - (se + 3)) (drop (se + 3) s)"
      "m_port u \<in> {INT_MIN..INT_MAX}"
      using assms three unfolding URI_parse_def Let_def se option.case scheme sum.case Some option.map host
      by (auto split: if_splits sum.splits prod.splits dest: stoi_range simp: INT_MIN_def INT_MAX_def)
    have "drop (se + 3) s = take (he - (se + 3)) (drop (se + 3) s) @ drop he s"
      using E(1) by (metis append_take_drop_id drop_drop le_add_diff_inverse2)
    moreover have "drop he s = s ! he # drop (Suc he) s" using E(2) by (rule Cons_nth_drop_Suc [symmetric])
    ultimately have "s = m_scheme u @ ''://'' @ m_host u @ s ! he # drop (Suc he) s" using s u by simp
    then show ?thesis using u E(3,4) colon by (auto simp: getScheme_def getHost_def getPort_def)
  qed
qed


end
