(* ===== verification/Serial_Model.thy ===== *)
theory Serial_Model
  imports Setup_Os Uri_Model Driver_State
begin

text \<open>
  Serial ports: \<^verbatim>\<open>src/src/SerialConfiguration.hpp\<close>, \<^verbatim>\<open>src/src/SerialConfiguration.cpp\<close>, and the
  serial part of \<^verbatim>\<open>src/src/Driver.cpp\<close> (\<open>parseSerialConfiguration\<close>, \<open>setSerialConfiguration\<close>,
  \<open>setSerialBaudrate\<close>, \<open>openSerialIO\<close>).
\<close>

section \<open>SerialConfiguration\<close>

datatype ByteSize = BITS_5 | BITS_6 | BITS_7 | BITS_8
datatype ParityChecking = PARITY_NONE | PARITY_EVEN | PARITY_ODD
datatype StopBits = STOP_BITS_ONE | STOP_BITS_TWO

record SerialConfiguration =
  byte_size :: ByteSize
  parity :: ParityChecking
  stop_bits :: StopBits

definition SerialConfiguration_init :: SerialConfiguration where
  "SerialConfiguration_init =
     \<lparr>byte_size = BITS_8, parity = PARITY_NONE, stop_bits = STOP_BITS_ONE\<rparr>"

text \<open>\<^verbatim>\<open>static_cast<ByteSize>\<close> of a number in the range of the enumeration.\<close>

definition ByteSize_of :: "int \<Rightarrow> ByteSize" where
  "ByteSize_of n = (if n = 5 then BITS_5 else if n = 6 then BITS_6 else if n = 7 then BITS_7 else BITS_8)"

text \<open>\<^verbatim>\<open>options[key]\<close> of a copy of the map: an absent option reads as the empty string.\<close>

definition option_text :: "(string \<Rightarrow> string option) \<Rightarrow> string \<Rightarrow> string" where
  "option_text options key = (case options key of None \<Rightarrow> [] | Some v \<Rightarrow> v)"

definition fromURI :: "uri \<Rightarrow> exn + SerialConfiguration" where
  "fromURI uri =
     (let result = SerialConfiguration_init;
          options = getOptions uri;
          byte_size_s = option_text options ''byte_size''
      in case
           (if byte_size_s \<noteq> [] then
              (case stoi byte_size_s of
                 Inl e \<Rightarrow> Inl e
               | Inr (n, _) \<Rightarrow>
                   if n < 5 \<or> n > 8 then Inl InvalidArgument
                   else Inr (result\<lparr>byte_size := ByteSize_of n\<rparr>))
            else Inr result)
         of
           Inl e \<Rightarrow> Inl e
         | Inr result1 \<Rightarrow>
             let par = option_text options ''parity'' in
             (case
                (if par = ''none'' then Inr (result1\<lparr>parity := PARITY_NONE\<rparr>)
                 else if par = ''even'' then Inr (result1\<lparr>parity := PARITY_EVEN\<rparr>)
                 else if par = ''odd'' then Inr (result1\<lparr>parity := PARITY_ODD\<rparr>)
                 else if par \<noteq> [] then Inl InvalidArgument
                 else Inr result1)
              of
                Inl e \<Rightarrow> Inl e
              | Inr result2 \<Rightarrow>
                  let stop = option_text options ''stop_bits'' in
                  if stop = ''1'' then Inr (result2\<lparr>stop_bits := STOP_BITS_ONE\<rparr>)
                  else if stop = ''2'' then Inr (result2\<lparr>stop_bits := STOP_BITS_TWO\<rparr>)
                  else if stop \<noteq> [] then Inl InvalidArgument
                  else Inr result2))"

text \<open>The expression \<^verbatim>\<open>^([5-8])([neo])([12])$\<close>, matched without regard to case against the
  whole string.\<close>

definition parseSerialConfiguration :: "string \<Rightarrow> exn + SerialConfiguration" where
  "parseSerialConfiguration description =
     (case description of
        [c1, c2, c3] \<Rightarrow>
          (if c1 \<in> set ''5678'' \<and> c2 \<in> set ''neoNEO'' \<and> c3 \<in> set ''12'' then
             Inr \<lparr>byte_size = ByteSize_of (digits_value [c1]),
                  parity = (if c2 \<in> set ''nN'' then PARITY_NONE
                            else if c2 \<in> set ''eE'' then PARITY_EVEN else PARITY_ODD),
                  stop_bits = (if c3 = CHR ''1'' then STOP_BITS_ONE else STOP_BITS_TWO)\<rparr>
           else Inl InvalidArgument)
      | _ \<Rightarrow> Inl InvalidArgument)"

section \<open>Terminal settings\<close>

definition CSIZE :: "32 word" where "CSIZE = 48"
definition CS5 :: "32 word" where "CS5 = 0"
definition CS6 :: "32 word" where "CS6 = 16"
definition CS7 :: "32 word" where "CS7 = 32"
definition CS8 :: "32 word" where "CS8 = 48"
definition CSTOPB :: "32 word" where "CSTOPB = 64"
definition CREAD :: "32 word" where "CREAD = 128"
definition PARENB :: "32 word" where "PARENB = 256"
definition PARODD :: "32 word" where "PARODD = 512"
definition IGNBRK :: "32 word" where "IGNBRK = 1"

named_theorems termios_defs \<open>the bits of the terminal settings\<close>

lemmas [termios_defs] = CSIZE_def CS5_def CS6_def CS7_def CS8_def CSTOPB_def CREAD_def
  PARENB_def PARODD_def IGNBRK_def

definition serial_cflag :: "SerialConfiguration \<Rightarrow> 32 word \<Rightarrow> 32 word" where
  "serial_cflag serial_config flag =
     (let f1 = (if parity serial_config = PARITY_NONE then flag AND NOT PARENB
                else
                  let f = flag OR PARENB in
                  if parity serial_config = PARITY_EVEN then f AND NOT PARODD else f OR PARODD);
          f2 = f1 AND NOT CSIZE;
          f3 = (case byte_size serial_config of
                  BITS_5 \<Rightarrow> f2 OR CS5 | BITS_6 \<Rightarrow> f2 OR CS6 | BITS_7 \<Rightarrow> f2 OR CS7 | BITS_8 \<Rightarrow> f2 OR CS8)
      in if stop_bits serial_config = STOP_BITS_ONE then f3 AND NOT CSTOPB else f3 OR CSTOPB)"

definition setSerialConfiguration_fd ::
  "'o unix \<Rightarrow> int \<Rightarrow> SerialConfiguration \<Rightarrow> 'o \<Rightarrow> (exn + unit) \<times> 'o" where
  "setSerialConfiguration_fd S fd serial_config w =
     (case sys_tcgetattr S fd w of
        (None, w1) \<Rightarrow> throw_errno S w1
      | (Some tio, w1) \<Rightarrow>
          (case sys_tcsetattr S fd (tio\<lparr>c_cflag := serial_cflag serial_config (c_cflag tio)\<rparr>) w1 of
             (ok, w2) \<Rightarrow> if \<not> ok then throw_errno S w2 else (Inr (), w2)))"

section \<open>Baud rates\<close>

text \<open>The codes of \<^verbatim>\<open><termios.h>\<close> for the rates of \<^verbatim>\<open>SERIAL_RATES\<close> that have a case;
  \<^verbatim>\<open>SERIAL_1152000\<close> has none.\<close>

definition rate_code :: "int \<Rightarrow> int option" where
  "rate_code brate =
     (if brate = 1200 then Some 9
      else if brate = 2400 then Some 11
      else if brate = 4800 then Some 12
      else if brate = 9600 then Some 13
      else if brate = 19200 then Some 14
      else if brate = 38400 then Some 15
      else if brate = 57600 then Some 4097
      else if brate = 115200 then Some 4098
      else if brate = 230400 then Some 4099
      else if brate = 460800 then Some 4100
      else if brate = 576000 then Some 4102
      else if brate = 921600 then Some 4103
      else if brate = 1000000 then Some 4104
      else None)"

definition B38400 :: int where "B38400 = 15"
definition ASYNC_SPD_MASK :: "32 word" where "ASYNC_SPD_MASK = 0x1030"
definition ASYNC_SPD_CUST :: "32 word" where "ASYNC_SPD_CUST = 0x30"

text \<open>Signed 32-bit arithmetic: a result out of range, or a division by zero, is undefined.\<close>

definition int_op :: "int \<Rightarrow> exn + int" where
  "int_op n = (if INT_MIN \<le> n \<and> n \<le> INT_MAX then Inr n else Inl UndefinedBehaviour)"

definition int_div :: "int \<Rightarrow> int \<Rightarrow> exn + int" where
  "int_div a b = (if b = 0 then Inl UndefinedBehaviour else int_op (a sdiv b))"

text \<open>The divisor of a custom rate, \<open>None\<close> when it is zero, and then the two products that the
  check of the closest speed computes; that check only prints a message.\<close>

definition custom_divisor :: "int \<Rightarrow> int \<Rightarrow> exn + int option" where
  "custom_divisor baud_base brate =
     (case int_op (baud_base + brate sdiv 2) of
        Inl e \<Rightarrow> Inl e
      | Inr n \<Rightarrow>
          (case int_div n brate of
             Inl e \<Rightarrow> Inl e
           | Inr d \<Rightarrow>
               if d = 0 then Inr None
               else
                 (case int_div baud_base d of
                    Inl e \<Rightarrow> Inl e
                  | Inr closestSpeed \<Rightarrow>
                      (case int_op (brate * 98) of
                         Inl e \<Rightarrow> Inl e
                       | Inr low \<Rightarrow>
                           if closestSpeed < low sdiv 100 then Inr (Some d)
                           else
                             (case int_op (brate * 102) of
                                Inl e \<Rightarrow> Inl e
                              | Inr high \<Rightarrow> Inr (Some d))))))"

definition set_speed ::
  "'o unix \<Rightarrow> int \<Rightarrow> int \<Rightarrow> 'o \<Rightarrow> bool \<times> 'o" where
  "set_speed S fd tc_rate w =
     (case sys_tcgetattr S fd w of
        (None, w1) \<Rightarrow> (False, w1)
      | (Some tio, w1) \<Rightarrow>
          (case sys_cfsetispeed S tio tc_rate w1 of
             (None, w2) \<Rightarrow> (False, w2)
           | (Some tio1, w2) \<Rightarrow>
               (case sys_cfsetospeed S tio1 tc_rate w2 of
                  (None, w3) \<Rightarrow> (False, w3)
                | (Some tio2, w3) \<Rightarrow> sys_tcsetattr S fd tio2 w3)))"

definition setSerialBaudrate :: "'o unix \<Rightarrow> int \<Rightarrow> int \<Rightarrow> 'o \<Rightarrow> (exn + bool) \<times> 'o" where
  "setSerialBaudrate S fd brate w =
     (let (tc_rate, custom_rate) =
            (case rate_code brate of Some c \<Rightarrow> (c, False) | None \<Rightarrow> (B38400, True))
      in case sys_tiocgserial S fd w of
           (ss, w1) \<Rightarrow>
             (case
                (if custom_rate then
                   (case custom_divisor (ss_baud_base ss) brate of
                      Inl e \<Rightarrow> Inl e
                    | Inr None \<Rightarrow> Inr None
                    | Inr (Some d) \<Rightarrow>
                        Inr (Some (ss\<lparr>ss_flags := (ss_flags ss AND NOT ASYNC_SPD_MASK) OR ASYNC_SPD_CUST,
                                      ss_custom_divisor := d\<rparr>)))
                 else Inr (Some (ss\<lparr>ss_flags := ss_flags ss AND NOT ASYNC_SPD_MASK\<rparr>)))
              of
                Inl e \<Rightarrow> (Inl e, w1)
              | Inr None \<Rightarrow> (Inr False, w1)
              | Inr (Some ss1) \<Rightarrow>
                  (case set_speed S fd tc_rate (sys_tiocsserial S fd ss1 w1) of (ok, w2) \<Rightarrow> (Inr ok, w2))))"

section \<open>Opening a port\<close>

definition openSerialIO ::
  "('o, 't) os \<Rightarrow> 'o unix \<Rightarrow> string \<Rightarrow> int \<Rightarrow> 'o \<Rightarrow> (exn + int) \<times> 'o" where
  "openSerialIO os S port baud_rate w =
     (case sys_open S (c_str port) (O_RDWR OR O_NOCTTY OR O_SYNC OR O_NONBLOCK_flag) w of
        (None, w1) \<Rightarrow> throw_errno S w1
      | (Some fd, w1) \<Rightarrow>
          guarded os fd
            (let tio = termios_zero\<lparr>c_cflag := CS8 OR CREAD, c_iflag := IGNBRK\<rparr> in
             case sys_tcsetattr S fd tio w1 of (ok, w2) \<Rightarrow>
               if \<not> ok then throw_errno S w2
               else
                 try_then (setSerialBaudrate S fd baud_rate w2) (\<lambda>ok w3.
                   if \<not> ok then throw_errno S w3 else (Inr fd, w3))))"

end
