(* ===== verification/Driver_Open.thy ===== *)
theory Driver_Open
  imports Serial_Model
begin

text \<open>
  How a driver gets its stream: \<^verbatim>\<open>openURI\<close> and the \<^verbatim>\<open>open...\<close> methods of
  \<^verbatim>\<open>src/src/Driver.cpp\<close>. They work on the driver, on the heap of stream objects and on the
  operating system under it; a constructor that throws makes no object. Warnings that are only
  logged are left out.
\<close>

type_synonym ('o, 't, 'a) opener = "'t driver \<Rightarrow> 'o heap \<Rightarrow> (exn + 'a) \<times> 't driver \<times> 'o heap"

section \<open>Sockets\<close>

definition AI_hints :: "int \<Rightarrow> int \<Rightarrow> addrinfo" where
  "AI_hints socktype flags =
     addrinfo_zero\<lparr>ai_family := AF_UNSPEC, ai_socktype := socktype, ai_flags := flags\<rparr>"

fun bind_candidates :: "('o, 't) os \<Rightarrow> 'o unix \<Rightarrow> addrinfo list \<Rightarrow> 'o \<Rightarrow> int option \<times> 'o" where
  "bind_candidates os S [] w = (None, w)"
| "bind_candidates os S (rp # rps) w =
     (case sys_socket S (ai_family rp) (ai_socktype rp) (ai_protocol rp) w of
        (None, w1) \<Rightarrow> bind_candidates os S rps w1
      | (Some sfd, w1) \<Rightarrow>
          (case sys_bind S sfd (ai_addr rp) w1 of
             (ok, w2) \<Rightarrow>
               if ok then (Some sfd, w2) else bind_candidates os S rps (sys_close os sfd w2)))"

definition createIPServerSocket ::
  "('o, 't) os \<Rightarrow> 'o unix \<Rightarrow> string \<Rightarrow> addrinfo \<Rightarrow> 'o \<Rightarrow> (exn + int) \<times> 'o" where
  "createIPServerSocket os S port hints w =
     (case sys_getaddrinfo S None port hints w of
        (None, w1) \<Rightarrow> throw_errno S w1
      | (Some candidates, w1) \<Rightarrow>
          (case bind_candidates os S candidates w1 of
             (Some sfd, w2) \<Rightarrow> (Inr sfd, w2)
           | (None, w2) \<Rightarrow> throw_errno S w2))"

text \<open>The result is the socket and the address that accepted the connection.\<close>

fun connect_candidates ::
  "('o, 't) os \<Rightarrow> 'o unix \<Rightarrow> addrinfo list \<Rightarrow> 'o \<Rightarrow> (int \<times> byte list) option \<times> 'o" where
  "connect_candidates os S [] w = (None, w)"
| "connect_candidates os S (rp # rps) w =
     (case sys_socket S (ai_family rp) (ai_socktype rp) (ai_protocol rp) w of
        (None, w1) \<Rightarrow> connect_candidates os S rps w1
      | (Some sfd, w1) \<Rightarrow>
          (case sys_connect S sfd (ai_addr rp) w1 of
             (ok, w2) \<Rightarrow>
               if \<not> ok then connect_candidates os S rps (sys_close os sfd w2)
               else (Some (sfd, ai_addr rp), w2)))"

definition createIPClientSocket ::
  "('o, 't) os \<Rightarrow> 'o unix \<Rightarrow> string \<Rightarrow> string \<Rightarrow> addrinfo \<Rightarrow> 'o \<Rightarrow> (exn + int \<times> byte list) \<times> 'o" where
  "createIPClientSocket os S hostname port hints w =
     (case sys_getaddrinfo S (Some hostname) port hints w of
        (None, w1) \<Rightarrow> throw_errno S w1
      | (Some candidates, w1) \<Rightarrow>
          (case connect_candidates os S candidates w1 of
             (Some r, w2) \<Rightarrow> (Inr r, w2)
           | (None, w2) \<Rightarrow> throw_errno S w2))"

fun connect_fd :: "'o unix \<Rightarrow> int \<Rightarrow> addrinfo list \<Rightarrow> 'o \<Rightarrow> byte list option \<times> 'o" where
  "connect_fd S fd [] w = (None, w)"
| "connect_fd S fd (rp # rps) w =
     (case sys_connect S fd (ai_addr rp) w of
        (ok, w1) \<Rightarrow> if \<not> ok then connect_fd S fd rps w1 else (Some (ai_addr rp), w1))"

definition connectIPSocket ::
  "'o unix \<Rightarrow> int \<Rightarrow> string \<Rightarrow> string \<Rightarrow> addrinfo \<Rightarrow> 'o \<Rightarrow> (exn + byte list) \<times> 'o" where
  "connectIPSocket S fd hostname port hints w =
     (case sys_getaddrinfo S (Some hostname) port hints w of
        (None, w1) \<Rightarrow> throw_errno S w1
      | (Some candidates, w1) \<Rightarrow>
          (case connect_fd S fd candidates w1 of
             (Some peer, w2) \<Rightarrow> (Inr peer, w2)
           | (None, w2) \<Rightarrow> throw_errno S w2))"

section \<open>The main stream\<close>

text \<open>A computation on the operating system alone, inside an opener.\<close>

definition on_system :: "('o \<Rightarrow> (exn + 'a) \<times> 'o) \<Rightarrow> 'o heap \<Rightarrow> (exn + 'a) \<times> 'o heap" where
  "on_system f w = (case f (h_os w) of (r, o1) \<Rightarrow> (r, w\<lparr>h_os := o1\<rparr>))"

text \<open>\<^verbatim>\<open>setMainStream(new S(...))\<close>: the object is made first, then the old stream deleted.\<close>

definition install ::
  "'t::linordered_ab_group_add time_ops \<Rightarrow> ('o, 't) os \<Rightarrow> ('s \<Rightarrow> stream)
     \<Rightarrow> (exn + 's) \<times> 'o heap \<Rightarrow> ('o, 't, unit) opener" where
  "install T os mk r d w0 =
     (case r of
        (Inl e, w) \<Rightarrow> (Inl e, d, w)
      | (Inr s, w) \<Rightarrow>
          (case new_stream (mk s) w of
             (p, w1) \<Rightarrow>
               (case setMainStream (sys_env T os) (Some p) d w1 of (d1, w2) \<Rightarrow> (Inr (), d1, w2))))"

definition setFileDescriptor ::
  "'t::linordered_ab_group_add time_ops \<Rightarrow> ('o, 't) os \<Rightarrow> int \<Rightarrow> bool \<Rightarrow> bool \<Rightarrow> ('o, 't, unit) opener" where
  "setFileDescriptor T os fd auto_close has_eof d w =
     install T os FD (on_system (FDStream_init os fd auto_close has_eof) w) d w"

definition openTestMode ::
  "'t::linordered_ab_group_add time_ops \<Rightarrow> ('o, 't) os \<Rightarrow> ('o, 't, unit) opener" where
  "openTestMode T os d w = install T os Test (Inr TestStream_init, w) d w"

text \<open>Sequencing in an opener.\<close>

definition then_open ::
  "(exn + 'a) \<times> 't driver \<times> 'o heap \<Rightarrow> ('a \<Rightarrow> ('o, 't, 'b) opener) \<Rightarrow> (exn + 'b) \<times> 't driver \<times> 'o heap" where
  "then_open r k = (case r of (Inl e, d, w) \<Rightarrow> (Inl e, d, w) | (Inr x, d, w) \<Rightarrow> k x d w)"

lemma then_open_simps [simp]:
  "then_open (Inl e, d, w) k = (Inl e, d, w)" "then_open (Inr x, d, w) k = k x d w"
  by (simp_all add: then_open_def)

section \<open>IP\<close>

definition openIPClient ::
  "'t::linordered_ab_group_add time_ops \<Rightarrow> ('o, 't) os \<Rightarrow> 'o unix \<Rightarrow> string \<Rightarrow> int \<Rightarrow> addrinfo
     \<Rightarrow> ('o, 't, unit) opener" where
  "openIPClient T os S hostname port hints d w =
     (case on_system (createIPClientSocket os S (c_str hostname) (lexical_cast_int port) hints) w of
        (Inl e, w1) \<Rightarrow> (Inl e, d, w1)
      | (Inr (sfd, _), w1) \<Rightarrow> setFileDescriptor T os sfd True True d w1)"

definition openTCP ::
  "'t::linordered_ab_group_add time_ops \<Rightarrow> ('o, 't) os \<Rightarrow> 'o unix \<Rightarrow> string \<Rightarrow> int
     \<Rightarrow> ('o, 't, unit) opener" where
  "openTCP T os S hostname port d w =
     then_open (openIPClient T os S hostname port (AI_hints SOCK_STREAM 0) d w) (\<lambda>_ d1 w1.
       case sys_setsockopt S (getFileDescriptor (sys_env T os) d1 w1) IPPROTO_TCP TCP_NODELAY 1 (h_os w1) of
         (ok, o2) \<Rightarrow>
           let w2 = w1\<lparr>h_os := o2\<rparr> in
           if \<not> ok then
             (case close (sys_env T os) d1 w2 of
                (d2, w3) \<Rightarrow> (Inl (UnixError (sys_errno S (h_os w3))), d2, w3))
           else (Inr (), d1, w2))"

definition openInet ::
  "'t::linordered_ab_group_add time_ops \<Rightarrow> ('o, 't) os \<Rightarrow> 'o unix \<Rightarrow> string \<Rightarrow> int
     \<Rightarrow> ('o, 't, bool) opener" where
  "openInet T os S hostname port d w =
     then_open (openTCP T os S hostname port d w) (\<lambda>_ d1 w1. (Inr True, d1, w1))"

definition openUDPServer ::
  "'t::linordered_ab_group_add time_ops \<Rightarrow> ('o, 't) os \<Rightarrow> 'o unix \<Rightarrow> int \<Rightarrow> ('o, 't, unit) opener" where
  "openUDPServer T os S port d w =
     install T os UDPServer
       (on_system (\<lambda>w.
          try_then (createIPServerSocket os S (lexical_cast_int port) (AI_hints SOCK_DGRAM AI_PASSIVE) w)
            (\<lambda>sfd. UDPServerStream_init os sfd True)) w) d w"

definition openUDP ::
  "'t::linordered_ab_group_add time_ops \<Rightarrow> ('o, 't) os \<Rightarrow> 'o unix \<Rightarrow> string \<Rightarrow> int
     \<Rightarrow> ('o, 't, unit) opener" where
  "openUDP T os S hostname port d w =
     (if hostname = [] then openUDPServer T os S port d w
      else openIPClient T os S hostname port (AI_hints SOCK_DGRAM 0) d w)"

definition udp_bidirectional ::
  "('o, 't) os \<Rightarrow> 'o unix \<Rightarrow> string \<Rightarrow> int \<Rightarrow> int \<Rightarrow> bool \<Rightarrow> bool \<Rightarrow> bool \<Rightarrow> bool
     \<Rightarrow> 'o \<Rightarrow> (exn + udp_stream) \<times> 'o" where
  "udp_bidirectional os S hostname remote_port local_port ignore_connrefused connected
     ignore_hostunreach ignore_netunreach w =
     try_then (createIPServerSocket os S (lexical_cast_int local_port) (AI_hints SOCK_DGRAM AI_PASSIVE) w)
       (\<lambda>sfd w1.
     let remote_hints = AI_hints SOCK_DGRAM 0 in
     try_then
       (if connected then
          connectIPSocket S sfd (c_str hostname) (lexical_cast_int remote_port) remote_hints w1
        else
          try_then (createIPClientSocket os S (c_str hostname) (lexical_cast_int remote_port) remote_hints w1)
            (\<lambda>(fd, peer) w2. (Inr peer, sys_close os fd w2)))
       (\<lambda>peer w3.
     try_then (UDPServerStream_init_peer os sfd True peer (length peer) w3) (\<lambda>stream w4.
       (Inr (setIgnoreEnetUnreach ignore_netunreach
          (setIgnoreEhostUnreach ignore_hostunreach
             (setIgnoreEconnRefused ignore_connrefused stream))), w4))))"

definition openUDPBidirectional ::
  "'t::linordered_ab_group_add time_ops \<Rightarrow> ('o, 't) os \<Rightarrow> 'o unix \<Rightarrow> string \<Rightarrow> int \<Rightarrow> int
     \<Rightarrow> bool \<Rightarrow> bool \<Rightarrow> bool \<Rightarrow> bool \<Rightarrow> ('o, 't, unit) opener" where
  "openUDPBidirectional T os S hostname remote_port local_port ignore_connrefused connected
     ignore_hostunreach ignore_netunreach d w =
     install T os UDPServer
       (on_system (udp_bidirectional os S hostname remote_port local_port ignore_connrefused connected
          ignore_hostunreach ignore_netunreach) w) d w"

section \<open>Unix sockets\<close>

definition unix_stream_server ::
  "('o, 't) os \<Rightarrow> 'o unix \<Rightarrow> string \<Rightarrow> 'o \<Rightarrow> (exn + unix_server) \<times> 'o" where
  "unix_stream_server os S path w =
     (case sys_socket S AF_UNIX SOCK_STREAM 0 (sys_unlink S (c_str path) w) of
        (None, w1) \<Rightarrow> throw_errno S w1
      | (Some fd, w1) \<Rightarrow>
          try_then
            (guarded os fd
              (case sys_bind S fd (unix_sockaddr path) w1 of
                 (ok, w2) \<Rightarrow>
                   if \<not> ok then throw_errno S w2
                   else
                     (case sys_listen S fd 1 w2 of
                        (ok, w3) \<Rightarrow> if \<not> ok then throw_errno S w3 else (Inr fd, w3))))
            (\<lambda>fd. UnixServerStream_init os fd True))"

definition openUnixStreamServer ::
  "'t::linordered_ab_group_add time_ops \<Rightarrow> ('o, 't) os \<Rightarrow> 'o unix \<Rightarrow> string \<Rightarrow> ('o, 't, unit) opener" where
  "openUnixStreamServer T os S path d w =
     install T os UnixServer (on_system (unix_stream_server os S path) w) d w"

definition unix_stream_client ::
  "('o, 't) os \<Rightarrow> 'o unix \<Rightarrow> string \<Rightarrow> 'o \<Rightarrow> (exn + socket_stream) \<times> 'o" where
  "unix_stream_client os S path w =
     (case sys_socket S AF_UNIX SOCK_STREAM 0 w of
        (None, w1) \<Rightarrow> throw_errno S w1
      | (Some fd, w1) \<Rightarrow>
          try_then
            (guarded os fd
              (case sys_connect S fd (unix_sockaddr path) w1 of
                 (ok, w2) \<Rightarrow> if \<not> ok then throw_errno S w2 else (Inr fd, w2)))
            (\<lambda>fd w3.
              try_then (SocketStream_init os fd True True w3) (\<lambda>stream w4.
                (Inr (setSendFlags MSG_NOSIGNAL stream), w4))))"

definition openUnixStreamClient ::
  "'t::linordered_ab_group_add time_ops \<Rightarrow> ('o, 't) os \<Rightarrow> 'o unix \<Rightarrow> string \<Rightarrow> ('o, 't, unit) opener" where
  "openUnixStreamClient T os S path d w =
     install T os Socket (on_system (unix_stream_client os S path) w) d w"

definition unix_datagram_server ::
  "('o, 't) os \<Rightarrow> 'o unix \<Rightarrow> string \<Rightarrow> 'o \<Rightarrow> (exn + dgram_stream) \<times> 'o" where
  "unix_datagram_server os S path w =
     (case sys_socket S AF_UNIX SOCK_DGRAM 0 (sys_unlink S (c_str path) w) of
        (None, w1) \<Rightarrow> throw_errno S w1
      | (Some fd, w1) \<Rightarrow>
          try_then
            (guarded os fd
              (case sys_bind S fd (unix_sockaddr path) w1 of
                 (ok, w2) \<Rightarrow> if \<not> ok then throw_errno S w2 else (Inr fd, w2)))
            (\<lambda>fd. UnixDatagramStream_init os fd True))"

definition openUnixDatagramServer ::
  "'t::linordered_ab_group_add time_ops \<Rightarrow> ('o, 't) os \<Rightarrow> 'o unix \<Rightarrow> string \<Rightarrow> ('o, 't, unit) opener" where
  "openUnixDatagramServer T os S path d w =
     install T os UnixDatagram (on_system (unix_datagram_server os S path) w) d w"

definition unix_datagram_client ::
  "('o, 't) os \<Rightarrow> 'o unix \<Rightarrow> string \<Rightarrow> 'o \<Rightarrow> (exn + dgram_stream) \<times> 'o" where
  "unix_datagram_client os S path w =
     (case sys_socket S AF_UNIX SOCK_DGRAM 0 w of
        (None, w1) \<Rightarrow> throw_errno S w1
      | (Some fd, w1) \<Rightarrow> UnixDatagramStream_init_peer os fd True (unix_sockaddr path) w1)"

definition openUnixDatagramClient ::
  "'t::linordered_ab_group_add time_ops \<Rightarrow> ('o, 't) os \<Rightarrow> 'o unix \<Rightarrow> string \<Rightarrow> ('o, 't, unit) opener" where
  "openUnixDatagramClient T os S path d w =
     install T os UnixDatagram (on_system (unix_datagram_client os S path) w) d w"

section \<open>Files and serial ports\<close>

definition openFile ::
  "'t::linordered_ab_group_add time_ops \<Rightarrow> ('o, 't) os \<Rightarrow> 'o unix \<Rightarrow> string \<Rightarrow> ('o, 't, unit) opener" where
  "openFile T os S path d w =
     (case sys_open S (c_str path) (O_RDWR OR O_SYNC OR O_NONBLOCK_flag) (h_os w) of
        (None, o1) \<Rightarrow> (Inl (UnixError (sys_errno S o1)), d, w\<lparr>h_os := o1\<rparr>)
      | (Some fd, o1) \<Rightarrow> setFileDescriptor T os fd True True d (w\<lparr>h_os := o1\<rparr>))"

definition setSerialConfiguration ::
  "'t::linordered_ab_group_add time_ops \<Rightarrow> ('o, 't) os \<Rightarrow> 'o unix \<Rightarrow> SerialConfiguration
     \<Rightarrow> ('o, 't, unit) opener" where
  "setSerialConfiguration T os S serial_config d w =
     (case on_system (setSerialConfiguration_fd S (getFileDescriptor (sys_env T os) d w) serial_config) w of
        (r, w1) \<Rightarrow> (r, d, w1))"

definition Driver_setSerialBaudrate ::
  "'t::linordered_ab_group_add time_ops \<Rightarrow> ('o, 't) os \<Rightarrow> 'o unix \<Rightarrow> int \<Rightarrow> ('o, 't, bool) opener" where
  "Driver_setSerialBaudrate T os S brate d w =
     (case on_system (setSerialBaudrate S (getFileDescriptor (sys_env T os) d w) brate) w of
        (r, w1) \<Rightarrow> (r, d, w1))"

definition openSerial ::
  "'t::linordered_ab_group_add time_ops \<Rightarrow> ('o, 't) os \<Rightarrow> 'o unix \<Rightarrow> string \<Rightarrow> int
     \<Rightarrow> SerialConfiguration \<Rightarrow> ('o, 't, bool) opener" where
  "openSerial T os S device baudrate configuration d w =
     (case on_system (openSerialIO os S device baudrate) w of
        (Inl e, w1) \<Rightarrow> (Inl e, d, w1)
      | (Inr fd, w1) \<Rightarrow>
          then_open (setFileDescriptor T os fd True False d w1) (\<lambda>_ d2 w2.
          then_open (setSerialConfiguration T os S configuration d2 w2) (\<lambda>_ d3 w3.
            (Inr True, d3, w3))))"

section \<open>URIs\<close>

definition knownSchemes :: "string list" where
  "knownSchemes =
     [''serial'', ''tcp'', ''udp'', ''udpserver'', ''file'', ''test'', ''fd'',
      ''unixstreamserver'', ''unixstream'', ''unixdgramserver'', ''unixdgram'']"

definition validateURIScheme :: "string \<Rightarrow> exn + unit" where
  "validateURIScheme scheme = (if scheme \<in> set knownSchemes then Inr () else Inl RuntimeError)"

definition backwardParseBidirectionalUDP :: "string \<Rightarrow> exn + uri" where
  "backwardParseBidirectionalUDP uri_string =
     (case find_first_of ''?&='' uri_string 0 of
        Some _ \<Rightarrow> URI_parse uri_string
      | None \<Rightarrow>
          let first_colon = find_first_of '':'' uri_string 6;
              last_colon = find_last_of '':'' uri_string
          in if first_colon = last_colon then URI_parse uri_string
             else
               (case last_colon of
                  None \<Rightarrow> Inl UndefinedBehaviour
                | Some n \<Rightarrow>
                    (case substr uri_string (n + 1) None of
                       Inl e \<Rightarrow> Inl e
                     | Inr local_port \<Rightarrow>
                         (case substr uri_string 0 (Some n) of
                            Inl e \<Rightarrow> Inl e
                          | Inr new_uri \<Rightarrow> URI_parse (new_uri @ ''?local_port='' @ local_port)))))"

definition openURI_UDP ::
  "'t::linordered_ab_group_add time_ops \<Rightarrow> ('o, 't) os \<Rightarrow> 'o unix \<Rightarrow> uri \<Rightarrow> ('o, 't, unit) opener" where
  "openURI_UDP T os S uri d w =
     (if getPort uri = 0 then (Inl InvalidArgument, d, w)
      else
        let local_port = getOption uri ''local_port'' [];
            ignore_connrefused = getOption uri ''ignore_connrefused'' [];
            ignore_hostunreach = getOption uri ''ignore_hostunreach'' [];
            ignore_netunreach = getOption uri ''ignore_netunreach'' [];
            connected = getOption uri ''connected'' [];
            connected = (if connected = [] then (if local_port = [] then ''1'' else ''0'') else connected);
            is_connected = (connected = ''1'');
            ignore_connrefused =
              (if ignore_connrefused = []
               then (if is_connected then (if local_port = [] then ''0'' else ''1'') else ''1'')
               else ignore_connrefused);
            ignore_hostunreach = (if ignore_hostunreach = [] then ''0'' else ignore_hostunreach);
            ignore_netunreach = (if ignore_netunreach = [] then ''0'' else ignore_netunreach);
            local_port = (if local_port = [] then ''0'' else local_port)
        in if ignore_connrefused = ''0'' \<and> \<not> is_connected then (Inl InvalidArgument, d, w)
           else
             (case stoi local_port of
                Inl e \<Rightarrow> (Inl e, d, w)
              | Inr (n, _) \<Rightarrow>
                  openUDPBidirectional T os S (getHost uri) (getPort uri) n
                    (ignore_connrefused = ''1'') (connected = ''1'')
                    (ignore_hostunreach = ''1'') (ignore_netunreach = ''1'') d w))"

definition has_test_stream :: "'t driver \<Rightarrow> 'o heap \<Rightarrow> bool" where
  "has_test_stream d w =
     (case getMainStream d of
        None \<Rightarrow> False
      | Some p \<Rightarrow> (case h_streams w p of Some (Test _) \<Rightarrow> True | _ \<Rightarrow> False))"

definition openURI ::
  "'t::linordered_ab_group_add time_ops \<Rightarrow> ('o, 't) os \<Rightarrow> 'o unix \<Rightarrow> string \<Rightarrow> ('o, 't, unit) opener" where
  "openURI T os S uri_string d w =
     (case (if substr uri_string 0 (Some 6) = Inr ''udp://''
            then backwardParseBidirectionalUDP uri_string else URI_parse uri_string) of
        Inl e \<Rightarrow> (Inl e, d, w)
      | Inr uri \<Rightarrow>
          let scheme = getScheme uri in
          (case validateURIScheme scheme of
             Inl e \<Rightarrow> (Inl e, d, w)
           | Inr _ \<Rightarrow>
               if scheme = ''serial'' then
                 (if getPort uri = 0 then (Inl InvalidArgument, d, w)
                  else
                    (case fromURI uri of
                       Inl e \<Rightarrow> (Inl e, d, w)
                     | Inr c \<Rightarrow>
                         then_open (openSerial T os S (getHost uri) (getPort uri) c d w)
                           (\<lambda>_ d1 w1. (Inr (), d1, w1))))
               else if scheme = ''tcp'' then
                 (if getPort uri = 0 then (Inl InvalidArgument, d, w)
                  else openTCP T os S (getHost uri) (getPort uri) d w)
               else if scheme = ''udp'' then openURI_UDP T os S uri d w
               else if scheme = ''udpserver'' then
                 (case stoi (getHost uri) of
                    Inl e \<Rightarrow> (Inl e, d, w)
                  | Inr (n, _) \<Rightarrow> openUDPServer T os S n d w)
               else if scheme = ''file'' then openFile T os S (getHost uri) d w
               else if scheme = ''unixstreamserver'' then openUnixStreamServer T os S (getHost uri) d w
               else if scheme = ''unixstream'' then openUnixStreamClient T os S (getHost uri) d w
               else if scheme = ''unixdgramserver'' then openUnixDatagramServer T os S (getHost uri) d w
               else if scheme = ''unixdgram'' then openUnixDatagramClient T os S (getHost uri) d w
               else if scheme = ''test'' then
                 (if has_test_stream d w then (Inr (), d, w) else openTestMode T os d w)
               else if scheme = ''fd'' then
                 (case stoi (getHost uri) of
                    Inl e \<Rightarrow> (Inl e, d, w)
                  | Inr (n, _) \<Rightarrow>
                      setFileDescriptor T os n
                        (getOption uri ''auto_close'' ''1'' = ''1'') (getOption uri ''has_eof'' ''0'' = ''1'') d w)
               else (Inr (), d, w)))"

end
