(* ===== verification/Desk_Os.thy ===== *)
theory Desk_Os
  imports Setup_Os Pipe_Os Driver_State
begin

text \<open>
  A small system in which the contract \<open>fd_table\<close> is interpreted and the theorems about
  opening are evaluated: it counts descriptors up from three, keeps the set of those that are
  open and the terminal settings of each, resolves every name to two candidates, and fails the
  calls it is told to.
\<close>

datatype desk_call = DeskOpen | DeskSocket | DeskBind | DeskConnect | DeskListen | DeskSetsockopt
  | DeskResolve | DeskGetattr | DeskSetattr | DeskSpeed

record desk =
  dk_open :: "int list"
  dk_next :: nat
  dk_fails :: "desk_call list"
  dk_errno :: int
  dk_tty :: "int \<Rightarrow> termios"
  dk_serial :: serial_struct
  dk_peers :: "(int \<times> byte list) list"

definition desk_init :: "desk_call list \<Rightarrow> desk" where
  "desk_init fails = \<lparr>dk_open = [], dk_next = 3, dk_fails = fails, dk_errno = 0,
     dk_tty = (\<lambda>_. termios_zero),
     dk_serial = \<lparr>ss_flags = 0, ss_custom_divisor = 0, ss_baud_base = 115200, ss_other = []\<rparr>,
     dk_peers = []\<rparr>"

definition desk_try :: "desk_call \<Rightarrow> int \<Rightarrow> (desk \<Rightarrow> desk) \<Rightarrow> desk \<Rightarrow> bool \<times> desk" where
  "desk_try c err f w =
     (if c \<in> set (dk_fails w) then (False, w\<lparr>dk_errno := err\<rparr>) else (True, f w))"

text \<open>The next free number.\<close>

definition desk_fresh :: "desk \<Rightarrow> int" where
  "desk_fresh w = Max (set (2 # int (dk_next w) # dk_open w)) + 1"

definition desk_new :: "desk_call \<Rightarrow> desk \<Rightarrow> int option \<times> desk" where
  "desk_new c w =
     (if c \<in> set (dk_fails w) then (None, w\<lparr>dk_errno := 2\<rparr>)
      else (Some (desk_fresh w), w\<lparr>dk_open := desk_fresh w # dk_open w\<rparr>))"

definition desk_os :: "(desk, int) os" where
  "desk_os = \<lparr>
     sys_now = (\<lambda>w. (0, w)), sys_gettimeofday = (\<lambda>w. (\<lparr>tv_sec = 0, tv_usec = 0\<rparr>, w)),
     sys_select_read = (\<lambda>fd t w. (Inr False, w)), sys_select_write = (\<lambda>fd t w. (Inr True, w)),
     sys_read = (\<lambda>fd n w. (Inl EAGAIN, w)), sys_write = (\<lambda>fd bs w. (Inr (length bs), w)),
     sys_recv = (\<lambda>fd n fl w. (Inl EAGAIN, w)), sys_send = (\<lambda>fd bs fl w. (Inr (length bs), w)),
     sys_recvfrom = (\<lambda>fd n fl w. (Inl EAGAIN, w)),
     sys_sendto = (\<lambda>fd bs fl a w. (Inr (length bs), w)),
     sys_getfl = (\<lambda>fd w. (2, w)),
     sys_setfl = (\<lambda>fd fl w. (Inr (), w)),
     sys_accept = (\<lambda>fd w. (Inl EAGAIN, w)),
     sys_close = (\<lambda>fd w. w\<lparr>dk_open := removeAll fd (dk_open w)\<rparr>)\<rparr>"

definition desk_unix :: "desk unix" where
  "desk_unix = \<lparr>
     sys_errno = dk_errno,
     sys_open = (\<lambda>path fl. desk_new DeskOpen), sys_unlink = (\<lambda>path w. w),
     sys_socket = (\<lambda>a b c. desk_new DeskSocket),
     sys_bind = (\<lambda>fd a. desk_try DeskBind 98 id),
     sys_connect = (\<lambda>fd a. desk_try DeskConnect ECONNREFUSED (\<lambda>w. w\<lparr>dk_peers := (fd, a) # dk_peers w\<rparr>)),
     sys_listen = (\<lambda>fd n. desk_try DeskListen 98 id),
     sys_setsockopt = (\<lambda>fd l opt x. desk_try DeskSetsockopt 92 id),
     sys_getaddrinfo = (\<lambda>host port hints w.
       if DeskResolve \<in> set (dk_fails w) then (None, w)
       else (Some [hints\<lparr>ai_family := 10, ai_addr := replicate 28 6\<rparr>,
                   hints\<lparr>ai_family := 2, ai_addr := replicate 16 4\<rparr>], w)),
     sys_tcgetattr = (\<lambda>fd w. if DeskGetattr \<in> set (dk_fails w) then (None, w\<lparr>dk_errno := 25\<rparr>)
       else (Some (dk_tty w fd), w)),
     sys_tcsetattr = (\<lambda>fd tio. desk_try DeskSetattr 25 (\<lambda>w. w\<lparr>dk_tty := (dk_tty w)(fd := tio)\<rparr>)),
     sys_cfsetispeed = (\<lambda>tio b w. (if DeskSpeed \<in> set (dk_fails w) then None else Some tio, w)),
     sys_cfsetospeed = (\<lambda>tio b w. (Some tio, w)),
     sys_tiocgserial = (\<lambda>fd w. (dk_serial w, w)),
     sys_tiocsserial = (\<lambda>fd ss w. w\<lparr>dk_serial := ss\<rparr>)\<rparr>"

definition desk_fds :: "desk \<Rightarrow> int set" where
  "desk_fds w = set (dk_open w)"

lemma desk_fresh: "desk_fresh w \<notin> set (dk_open w)" "0 \<le> desk_fresh w"
proof -
  have "n < desk_fresh w" if "n \<in> set (2 # int (dk_next w) # dk_open w)" for n
    using Max_ge [OF finite_set that] by (simp add: desk_fresh_def)
  from this [of 2] this show "desk_fresh w \<notin> set (dk_open w)" "0 \<le> desk_fresh w" by force+
qed

lemma desk_try_fds: "set (dk_open (f w)) = set (dk_open w) \<Longrightarrow> desk_fds (snd (desk_try c e f w)) = desk_fds w"
  by (simp add: desk_try_def desk_fds_def)

interpretation desk: fd_table desk_os desk_unix desk_fds
proof
  fix path fl w fd w'
  assume "sys_open desk_unix path fl w = (Some fd, w')"
  then show "desk_fds w' = insert fd (desk_fds w) \<and> fd \<notin> desk_fds w \<and> 0 \<le> fd"
    using desk_fresh [of w] by (auto simp: desk_unix_def desk_new_def desk_fds_def split: if_splits)
next
  fix a b c w fd w'
  assume "sys_socket desk_unix a b c w = (Some fd, w')"
  then show "desk_fds w' = insert fd (desk_fds w) \<and> fd \<notin> desk_fds w \<and> 0 \<le> fd"
    using desk_fresh [of w] by (auto simp: desk_unix_def desk_new_def desk_fds_def split: if_splits)
qed (auto simp: desk_unix_def desk_os_def desk_new_def desk_fds_def desk_try_def split: if_splits)

lemma desk_contract: "fd_table desk_os desk_unix desk_fds"
  by (rule desk.fd_table_axioms)

text \<open>A closed driver in this system.\<close>

definition desk_driver :: "int driver" where
  "desk_driver = \<lparr>internal_buffer = replicate 8 0, internal_buffer_size = 0, MAX_PACKET_SIZE = 8,
     m_stream = None, m_listeners = [], m_auto_close = True, m_extract_last = False,
     m_read_timeout = 0, m_write_timeout = 0, m_stats = Status_init\<rparr>"

definition desk_heap :: "desk heap" where
  "desk_heap = \<lparr>h_streams = Map.empty, h_listeners = Map.empty, h_next = 0, h_os = desk_init []\<rparr>"

end
