(* ===== verification/Open_Uri.thy ===== *)
theory Open_Uri
  imports Driver_Open Desk_Os
begin

text \<open>The theorems about \<^verbatim>\<open>openURI\<close>: which opener is called, with which parameters.\<close>

section \<open>Writing UDP URIs\<close>

lemma decimal_chars: "set (decimal n) \<inter> set chars = {}" if "\<forall>c \<in> set chars. \<not> is_digit c"
  using that decimal_digits [of n] by auto

lemma decimal_marks:
  "set (decimal n) \<inter> set '':'' = {}" "set (decimal n) \<inter> set ''?&='' = {}" "set (decimal n) \<inter> set ''&'' = {}"
  by (rule decimal_chars, simp add: is_digit_def)+

lemma stoi_decimal_all: "int n \<le> INT_MAX \<Longrightarrow> stoi (decimal n) = Inr (int n, length (decimal n))"
  using stoi_decimal [of n "[]"] by simp

definition host_ok :: "string \<Rightarrow> bool" where
  "host_ok host \<longleftrightarrow> set host \<inter> set ''?:&='' = {}"

lemma udp_prefix: "substr (uri_text ''udp'' host port os) 0 (Some 6) = Inr ''udp://''"
  by (simp add: uri_text_def substr_def)

lemma backward_new_style:
  assumes "host_ok host"
  shows "backwardParseBidirectionalUDP (uri_text ''udp'' host (Some r) os)
    = URI_parse (uri_text ''udp'' host (Some r) os)"
proof (cases "os = []")
  case True
  have h: "set host \<inter> set '':'' = {}" using assms by (auto simp: host_ok_def)
  have u: "uri_text ''udp'' host (Some r) os = (''udp://'' @ host) @ CHR '':'' # decimal r"
    using True by (simp add: uri_text_def)
  have "set ((''udp://'' @ host) @ CHR '':'' # decimal r) \<inter> set ''?&='' = {}"
    using assms decimal_marks(2) [of r] by (auto simp: host_ok_def)
  then have 1: "find_first_of ''?&='' ((''udp://'' @ host) @ CHR '':'' # decimal r) 0 = None"
    using find_first_of_none [of "(''udp://'' @ host) @ CHR '':'' # decimal r" "''?&=''" 0 "[]"] by simp
  have 2: "find_first_of '':'' ((''udp://'' @ host) @ CHR '':'' # decimal r) 6 = Some (length (''udp://'' @ host))"
    using find_first_of_append [OF h, of "CHR '':''" 6 "''udp://''" "decimal r"] by simp
  have 3: "find_last_of '':'' ((''udp://'' @ host) @ CHR '':'' # decimal r) = Some (length (''udp://'' @ host))"
    by (rule find_last_of_append [OF decimal_marks(1)]) simp
  show ?thesis unfolding u backwardParseBidirectionalUDP_def 1 2 3 Let_def by simp
next
  case False
  let ?p = "''udp://'' @ host @ '':'' @ decimal r"
  have "set ?p \<inter> set ''?&='' = {}" using assms decimal_marks(2) [of r] by (auto simp: host_ok_def)
  from find_first_of_append [OF this, of "CHR ''?''" 0 "[]" "options_text os"]
  have "find_first_of ''?&='' (uri_text ''udp'' host (Some r) os) 0 = Some (length ?p)"
    using False by (simp add: uri_text_def)
  then show ?thesis by (simp add: backwardParseBidirectionalUDP_def)
qed

lemma backward_old_style:
  assumes "host_ok host"
  shows "backwardParseBidirectionalUDP (uri_text ''udp'' host (Some r) [] @ '':'' @ decimal l)
    = URI_parse (uri_text ''udp'' host (Some r) [(''local_port'', decimal l)])"
proof -
  let ?h = "''udp://'' @ host @ CHR '':'' # decimal r"
  have u: "uri_text ''udp'' host (Some r) [] @ '':'' @ decimal l = ?h @ CHR '':'' # decimal l"
    by (simp add: uri_text_def)
  have h: "set host \<inter> set '':'' = {}" using assms by (auto simp: host_ok_def)
  have "set (?h @ CHR '':'' # decimal l) \<inter> set ''?&='' = {}"
    using assms decimal_marks(2) [of r] decimal_marks(2) [of l] by (auto simp: host_ok_def)
  then have 1: "find_first_of ''?&='' (?h @ CHR '':'' # decimal l) 0 = None"
    using find_first_of_none [of "?h @ CHR '':'' # decimal l" "''?&=''" 0 "[]"] by simp
  have 2: "find_first_of '':'' (?h @ CHR '':'' # decimal l) 6 = Some (6 + length host)"
    using find_first_of_append [OF h, of "CHR '':''" 6 "''udp://''" "decimal r @ CHR '':'' # decimal l"] by simp
  have 3: "find_last_of '':'' (?h @ CHR '':'' # decimal l) = Some (length ?h)"
    by (rule find_last_of_append [OF decimal_marks(1)]) simp
  have 4: "substr (?h @ CHR '':'' # decimal l) (length ?h + 1) None = Inr (decimal l)"
    using substr_append(2) [of "length ?h + 1" "?h @ '':''" "decimal l"] by simp
  have 5: "substr (?h @ CHR '':'' # decimal l) 0 (Some (length ?h)) = Inr ?h"
    using substr_append(1) [of 0 "[]" "length ?h" ?h "CHR '':'' # decimal l"] by simp
  have ne: "Some (6 + length host) \<noteq> Some (length ?h)" by simp
  have new: "?h @ ''?local_port='' @ decimal l = uri_text ''udp'' host (Some r) [(''local_port'', decimal l)]"
    by (simp add: uri_text_def)
  show ?thesis
    unfolding u backwardParseBidirectionalUDP_def 1 2 3 Let_def option.case 4 5 sum.case if_not_P [OF ne] new by simp
qed

lemma openURI_udp:
  assumes "substr s 0 (Some 6) = Inr ''udp://''" "backwardParseBidirectionalUDP s = Inr u" "getScheme u = ''udp''"
  shows "openURI T os S s d w = openURI_UDP T os S u d w"
  using assms by (simp add: openURI_def validateURIScheme_def knownSchemes_def)

text \<open>C30 Backward compatibility. The old notation \<^verbatim>\<open>udp://host:remote_port:local_port\<close> opens what
  \<^verbatim>\<open>udp://host:remote_port?local_port=local_port\<close> opens, on every driver and system and for all
  ports.\<close>

theorem openURI_old_udp_notation:
  assumes "host_ok host"
  shows "openURI T os S (''udp://'' @ host @ '':'' @ decimal r @ '':'' @ decimal l) d w
    = openURI T os S (''udp://'' @ host @ '':'' @ decimal r @ ''?local_port='' @ decimal l) d w"
proof -
  have old: "''udp://'' @ host @ '':'' @ decimal r @ '':'' @ decimal l
    = uri_text ''udp'' host (Some r) [] @ '':'' @ decimal l"
    and new: "''udp://'' @ host @ '':'' @ decimal r @ ''?local_port='' @ decimal l
    = uri_text ''udp'' host (Some r) [(''local_port'', decimal l)]"
    by (simp_all add: uri_text_def)
  have pre: "substr (uri_text ''udp'' host (Some r) [] @ '':'' @ decimal l) 0 (Some 6) = Inr ''udp://''"
    by (simp add: uri_text_def substr_def)
  show ?thesis
    unfolding old new openURI_def pre udp_prefix backward_old_style [OF assms] backward_new_style [OF assms]
    by simp
qed

theorem openURI_old_udp_notation_witness:
  "openURI us_ops desk_os desk_unix (''udp://'' @ ''localhost'' @ '':'' @ decimal 4000 @ '':'' @ decimal 4001) desk_driver desk_heap
    = openURI us_ops desk_os desk_unix
        (''udp://'' @ ''localhost'' @ '':'' @ decimal 4000 @ ''?local_port='' @ decimal 4001) desk_driver desk_heap"
  by (rule openURI_old_udp_notation) (simp add: host_ok_def)

section \<open>The parameters of a UDP stream\<close>

text \<open>An option is absent, or zero or one.\<close>

definition flag_option :: "string \<Rightarrow> bool option \<Rightarrow> (string \<times> string) list" where
  "flag_option key b = (case b of None \<Rightarrow> [] | Some b \<Rightarrow> [(key, if b then ''1'' else ''0'')])"

definition udp_options ::
  "nat option \<Rightarrow> bool option \<Rightarrow> bool option \<Rightarrow> bool option \<Rightarrow> bool option \<Rightarrow> (string \<times> string) list" where
  "udp_options local_port connected connrefused hostunreach netunreach =
     (case local_port of None \<Rightarrow> [] | Some n \<Rightarrow> [(''local_port'', decimal n)])
     @ flag_option ''connected'' connected
     @ flag_option ''ignore_connrefused'' connrefused
     @ flag_option ''ignore_hostunreach'' hostunreach
     @ flag_option ''ignore_netunreach'' netunreach"

text \<open>The defaults of \<^verbatim>\<open>README.md\<close>: without a local port the socket is connected and reports
  refused connections, with one it is not connected and ignores them; an unconnected socket ignores
  them unless told otherwise, which is an error; unreachable hosts and networks are reported.\<close>

definition readme_connected :: "nat option \<Rightarrow> bool option \<Rightarrow> bool" where
  "readme_connected local_port connected =
     (case connected of Some b \<Rightarrow> b | None \<Rightarrow> local_port = None)"

definition readme_connrefused :: "nat option \<Rightarrow> bool option \<Rightarrow> bool option \<Rightarrow> bool" where
  "readme_connrefused local_port connected connrefused =
     (case connrefused of Some b \<Rightarrow> b
      | None \<Rightarrow> \<not> readme_connected local_port connected \<or> local_port \<noteq> None)"

lemma udp_options_ok: "\<forall>o1 \<in> set (udp_options lp c r h n). option_ok o1"
  using decimal_marks(3)
  by (auto simp: udp_options_def flag_option_def option_ok_def split: option.splits)

lemma udp_options_get:
  "map_of (rev (udp_options lp c r h n)) ''local_port'' = map_option decimal lp"
  "map_of (rev (udp_options lp c r h n)) ''connected'' = map_option (\<lambda>b. if b then ''1'' else ''0'') c"
  "map_of (rev (udp_options lp c r h n)) ''ignore_connrefused'' = map_option (\<lambda>b. if b then ''1'' else ''0'') r"
  "map_of (rev (udp_options lp c r h n)) ''ignore_hostunreach'' = map_option (\<lambda>b. if b then ''1'' else ''0'') h"
  "map_of (rev (udp_options lp c r h n)) ''ignore_netunreach'' = map_option (\<lambda>b. if b then ''1'' else ''0'') n"
  by (auto simp: udp_options_def flag_option_def map_add_def split: option.splits)

definition bit_text :: "bool \<Rightarrow> string" where
  "bit_text b = (if b then ''1'' else ''0'')"

definition opt_text :: "string option \<Rightarrow> string" where
  "opt_text v = (case v of None \<Rightarrow> [] | Some v \<Rightarrow> v)"

lemma bit_text: "(bit_text b = ''1'') = b" "(bit_text b = ''0'') = (\<not> b)" "bit_text b \<noteq> []"
  by (simp_all add: bit_text_def)

lemma udp_defaults:
  assumes "opt_text lpt = [] \<longleftrightarrow> lp = None"
  shows "(if opt_text (map_option bit_text c) = [] then if opt_text lpt = [] then ''1'' else ''0''
      else opt_text (map_option bit_text c)) = bit_text (readme_connected lp c)"
    and "(if opt_text (map_option bit_text cr) = []
      then if readme_connected lp c then if opt_text lpt = [] then ''0'' else ''1'' else ''1''
      else opt_text (map_option bit_text cr)) = bit_text (readme_connrefused lp c cr)"
    and "(if opt_text (map_option bit_text h) = [] then ''0'' else opt_text (map_option bit_text h))
      = bit_text (h = Some True)"
proof -
  have opt: "opt_text (map_option bit_text b) = (case b of None \<Rightarrow> [] | Some x \<Rightarrow> bit_text x)" for b
    by (simp add: opt_text_def split: option.split)
  show "(if opt_text (map_option bit_text c) = [] then if opt_text lpt = [] then ''1'' else ''0''
      else opt_text (map_option bit_text c)) = bit_text (readme_connected lp c)"
    unfolding opt assms by (cases c) (simp_all add: readme_connected_def bit_text_def)
  show "(if opt_text (map_option bit_text cr) = []
      then if readme_connected lp c then if opt_text lpt = [] then ''0'' else ''1'' else ''1''
      else opt_text (map_option bit_text cr)) = bit_text (readme_connrefused lp c cr)"
    unfolding opt assms by (cases cr) (simp_all add: readme_connrefused_def bit_text_def)
  show "(if opt_text (map_option bit_text h) = [] then ''0'' else opt_text (map_option bit_text h))
      = bit_text (h = Some True)"
    unfolding opt by (cases h) (simp_all add: bit_text_def)
qed

lemma openURI_UDP_options:
  assumes u: "u = uri_of ''udp'' host (Some r) (udp_options lp c cr h n)" and r: "r \<noteq> 0"
    and lp: "\<And>k. lp = Some k \<Longrightarrow> int k \<le> INT_MAX"
  shows "openURI_UDP T os S u d w =
    (if \<not> readme_connected lp c \<and> \<not> readme_connrefused lp c cr then (Inl InvalidArgument, d, w)
     else openUDPBidirectional T os S host (int r) (case lp of None \<Rightarrow> 0 | Some k \<Rightarrow> int k)
       (readme_connrefused lp c cr) (readme_connected lp c) (h = Some True) (n = Some True) d w)"
proof -
  have port: "getPort u = int r" "getHost u = host"
    by (simp_all add: u uri_of_def getPort_def getHost_def)
  have get: "getOption u k [] = opt_text (map_of (rev (udp_options lp c cr h n)) k)" for k
    by (simp add: getOption_def u uri_of_def opt_text_def)
  have opts: "getOption u ''local_port'' [] = opt_text (map_option decimal lp)"
    "getOption u ''connected'' [] = opt_text (map_option bit_text c)"
    "getOption u ''ignore_connrefused'' [] = opt_text (map_option bit_text cr)"
    "getOption u ''ignore_hostunreach'' [] = opt_text (map_option bit_text h)"
    "getOption u ''ignore_netunreach'' [] = opt_text (map_option bit_text n)"
    unfolding get udp_options_get bit_text_def by simp_all
  have lpt: "opt_text (map_option decimal lp) = [] \<longleftrightarrow> lp = None"
    using decimal_digits by (cases lp) (simp_all add: opt_text_def)
  have "\<exists>k. stoi (if opt_text (map_option decimal lp) = [] then ''0'' else opt_text (map_option decimal lp))
    = Inr (case lp of None \<Rightarrow> 0 | Some k \<Rightarrow> int k, k)"
  proof (cases lp)
    case None
    have "stoi ''0'' = Inr (0, 1)" by code_simp
    with None show ?thesis by (simp add: opt_text_def)
  next
    case (Some k)
    with stoi_decimal_all [OF lp [OF Some]] lpt show ?thesis by (auto simp: opt_text_def)
  qed
  then obtain k where k: "stoi (if opt_text (map_option decimal lp) = [] then ''0'' else opt_text (map_option decimal lp))
    = Inr (case lp of None \<Rightarrow> 0 | Some k \<Rightarrow> int k, k)" ..
  show ?thesis
    unfolding openURI_UDP_def Let_def opts port udp_defaults(1) [OF lpt] bit_text udp_defaults(2) [OF lpt]
      udp_defaults(3) [OF lpt] k sum.case prod.case
    using r by auto
qed

text \<open>C31 The options of a \<^verbatim>\<open>udp://\<close> URI mean what \<^verbatim>\<open>README.md\<close> says: for every combination of
  options that are absent, zero or one, \<^verbatim>\<open>openURI\<close> opens the bidirectional stream with the
  documented defaults, on an ephemeral local port if none is given, and throws, touching nothing,
  exactly for the documented contradiction of an unconnected socket that is to report refused
  connections.\<close>

theorem openURI_udp_documented:
  assumes "host_ok host" "0 < r" "int r \<le> INT_MAX" "case lp of None \<Rightarrow> True | Some k \<Rightarrow> int k \<le> INT_MAX"
  shows "openURI T os S (uri_text ''udp'' host (Some r) (udp_options lp c cr h n)) d w =
    (if \<not> readme_connected lp c \<and> \<not> readme_connrefused lp c cr then (Inl InvalidArgument, d, w)
     else openUDPBidirectional T os S host (int r) (case lp of None \<Rightarrow> 0 | Some k \<Rightarrow> int k)
       (readme_connrefused lp c cr) (readme_connected lp c) (h = Some True) (n = Some True) d w)"
proof -
  let ?u = "uri_of ''udp'' host (Some r) (udp_options lp c cr h n)"
  have "uri_ok ''udp'' host (Some r) (udp_options lp c cr h n)"
    using assms udp_options_ok by (auto simp: uri_ok_def host_ok_def)
  from parse_uri_text [OF this]
  have "backwardParseBidirectionalUDP (uri_text ''udp'' host (Some r) (udp_options lp c cr h n)) = Inr ?u"
    using backward_new_style [OF assms(1)] by simp
  from openURI_udp [OF udp_prefix this]
  have "openURI T os S (uri_text ''udp'' host (Some r) (udp_options lp c cr h n)) d w
    = openURI_UDP T os S ?u d w"
    by (simp add: uri_of_def getScheme_def)
  also have "\<dots> = (if \<not> readme_connected lp c \<and> \<not> readme_connrefused lp c cr then (Inl InvalidArgument, d, w)
     else openUDPBidirectional T os S host (int r) (case lp of None \<Rightarrow> 0 | Some k \<Rightarrow> int k)
       (readme_connrefused lp c cr) (readme_connected lp c) (h = Some True) (n = Some True) d w)"
    using assms by (intro openURI_UDP_options [OF refl]) auto
  finally show ?thesis .
qed

theorem openURI_udp_documented_witness:
  "openURI us_ops desk_os desk_unix (uri_text ''udp'' ''localhost'' (Some 4000) (udp_options (Some 4001) None None None (Some True))) desk_driver desk_heap
    = openUDPBidirectional us_ops desk_os desk_unix ''localhost'' 4000 4001 True False False True desk_driver desk_heap"
  using openURI_udp_documented [of "''localhost''" 4000 "Some 4001" us_ops desk_os desk_unix None None None "Some True" desk_driver desk_heap]
  by (simp add: host_ok_def INT_MAX_def readme_connected_def readme_connrefused_def)

end
