(* ===== verification/Serial_Properties.thy ===== *)
theory Serial_Properties
  imports Serial_Model Desk_Os
begin

text \<open>The theorems about serial ports.\<close>

section \<open>Terminal settings\<close>

definition serial_bits :: "32 word" where
  "serial_bits = CSIZE OR CSTOPB OR PARENB OR PARODD"

text \<open>What the flags say.\<close>

definition cflag_config :: "32 word \<Rightarrow> SerialConfiguration" where
  "cflag_config f =
     \<lparr>byte_size = (if f AND CSIZE = CS5 then BITS_5 else if f AND CSIZE = CS6 then BITS_6
                   else if f AND CSIZE = CS7 then BITS_7 else BITS_8),
      parity = (if f AND PARENB = 0 then PARITY_NONE
                else if f AND PARODD = 0 then PARITY_EVEN else PARITY_ODD),
      stop_bits = (if f AND CSTOPB = 0 then STOP_BITS_ONE else STOP_BITS_TWO)\<rparr>"

lemma serial_cflag_masks:
  "serial_cflag c f AND CSIZE = (case byte_size c of BITS_5 \<Rightarrow> CS5 | BITS_6 \<Rightarrow> CS6 | BITS_7 \<Rightarrow> CS7 | BITS_8 \<Rightarrow> CS8)"
  "serial_cflag c f AND PARENB = (if parity c = PARITY_NONE then 0 else PARENB)"
  "parity c \<noteq> PARITY_NONE \<Longrightarrow> serial_cflag c f AND PARODD = (if parity c = PARITY_EVEN then 0 else PARODD)"
  "serial_cflag c f AND CSTOPB = (if stop_bits c = STOP_BITS_ONE then 0 else CSTOPB)"
  by (simp_all add: serial_cflag_def Let_def termios_defs word_ao_dist and.assoc split: ByteSize.split)

lemma serial_cflag_rest: "serial_cflag c f AND NOT serial_bits = f AND NOT serial_bits"
  by (simp add: serial_cflag_def serial_bits_def Let_def termios_defs word_ao_dist and.assoc
      split: ByteSize.split)

lemma cflag_config_set: "cflag_config (serial_cflag c f) = c"
proof -
  have "byte_size (cflag_config (serial_cflag c f)) = byte_size c"
    by (cases "byte_size c") (simp_all add: cflag_config_def serial_cflag_masks, simp_all add: termios_defs)
  moreover have "parity (cflag_config (serial_cflag c f)) = parity c"
    by (cases "parity c") (simp_all add: cflag_config_def serial_cflag_masks, simp_all add: termios_defs)
  moreover have "stop_bits (cflag_config (serial_cflag c f)) = stop_bits c"
    by (cases "stop_bits c") (simp_all add: cflag_config_def serial_cflag_masks, simp_all add: termios_defs)
  ultimately show ?thesis by simp
qed

text \<open>C26 \<^verbatim>\<open>setSerialConfiguration\<close> succeeds only when the terminal accepted settings which say
  exactly the byte size, parity and stop bits that were asked for, whatever they were before, and
  which differ from the settings read in no other bit and no other member; otherwise it throws
  the error of the call that failed, and has set nothing unless it was the setting that
  failed.\<close>

theorem setSerialConfiguration_correct:
  "case sys_tcgetattr S fd w of
     (None, w1) \<Rightarrow> setSerialConfiguration_fd S fd c w = (Inl (UnixError (sys_errno S w1)), w1)
   | (Some tio, w1) \<Rightarrow>
       (\<exists>flag w2. cflag_config flag = c \<and> flag AND NOT serial_bits = c_cflag tio AND NOT serial_bits
          \<and> setSerialConfiguration_fd S fd c w =
              (if fst (sys_tcsetattr S fd (tio\<lparr>c_cflag := flag\<rparr>) w1) then Inr ()
               else Inl (UnixError (sys_errno S w2)), w2)
          \<and> w2 = snd (sys_tcsetattr S fd (tio\<lparr>c_cflag := flag\<rparr>) w1))"
proof (cases "sys_tcgetattr S fd w")
  case (Pair r w1)
  show ?thesis
  proof (cases r)
    case None
    with Pair show ?thesis by (simp add: setSerialConfiguration_fd_def)
  next
    case (Some tio)
    let ?f = "serial_cflag c (c_cflag tio)"
    obtain ok w2 where set: "sys_tcsetattr S fd (tio\<lparr>c_cflag := ?f\<rparr>) w1 = (ok, w2)" by fastforce
    have "setSerialConfiguration_fd S fd c w = (if ok then Inr () else Inl (UnixError (sys_errno S w2)), w2)"
      using Pair Some set by (simp add: setSerialConfiguration_fd_def)
    then show ?thesis using Pair Some set
      by (auto simp: cflag_config_set serial_cflag_rest intro!: exI [of _ ?f])
  qed
qed

section \<open>The short notation\<close>

definition config_text :: "SerialConfiguration \<Rightarrow> string" where
  "config_text c =
     [case byte_size c of BITS_5 \<Rightarrow> CHR ''5'' | BITS_6 \<Rightarrow> CHR ''6'' | BITS_7 \<Rightarrow> CHR ''7'' | BITS_8 \<Rightarrow> CHR ''8'',
      case parity c of PARITY_NONE \<Rightarrow> CHR ''N'' | PARITY_EVEN \<Rightarrow> CHR ''E'' | PARITY_ODD \<Rightarrow> CHR ''O'',
      case stop_bits c of STOP_BITS_ONE \<Rightarrow> CHR ''1'' | STOP_BITS_TWO \<Rightarrow> CHR ''2'']"

definition upper :: "char \<Rightarrow> char" where
  "upper c = (if 97 \<le> (of_char c :: nat) \<and> (of_char c :: nat) \<le> 122 then char_of (of_char c - 32 :: nat) else c)"

lemma upper_code: "n \<le> 122 \<Longrightarrow> (n - 32 :: nat) mod 256 = n - 32"
  by (rule mod_less) simp

lemma upper_eq:
  assumes "65 \<le> (of_char d :: nat)" "(of_char d :: nat) \<le> 90"
  shows "upper c = d \<longleftrightarrow> c = d \<or> c = char_of (of_char d + 32 :: nat)"
proof
  assume *: "upper c = d"
  show "c = d \<or> c = char_of (of_char d + 32 :: nat)"
  proof (cases "97 \<le> (of_char c :: nat) \<and> (of_char c :: nat) \<le> 122")
    case True
    then have "d = char_of (of_char c - 32 :: nat)" using * by (simp add: upper_def)
    with True have "(of_char d :: nat) = of_char c - 32" by (simp add: upper_code)
    with True have "(of_char d + 32 :: nat) = of_char c" by linarith
    then show ?thesis by simp
  next
    case False
    with * show ?thesis by (simp add: upper_def)
  qed
next
  assume "c = d \<or> c = char_of (of_char d + 32 :: nat)"
  then show "upper c = d" using assms by (auto simp: upper_def)
qed

lemma upper_digit:
  assumes "of_char d < (65 :: nat)"
  shows "upper c = d \<longleftrightarrow> c = d"
proof -
  have "(of_char (upper c) :: nat) \<ge> 65" if "97 \<le> (of_char c :: nat) \<and> (of_char c :: nat) \<le> 122"
    using that by (simp add: upper_def upper_code) arith
  with assms show ?thesis by (auto simp: upper_def)
qed

lemma upper_chars:
  "upper c = CHR ''N'' \<longleftrightarrow> c = CHR ''N'' \<or> c = CHR ''n''" "upper c = CHR ''E'' \<longleftrightarrow> c = CHR ''E'' \<or> c = CHR ''e''"
  "upper c = CHR ''O'' \<longleftrightarrow> c = CHR ''O'' \<or> c = CHR ''o''"
  "upper c = CHR ''5'' \<longleftrightarrow> c = CHR ''5''" "upper c = CHR ''6'' \<longleftrightarrow> c = CHR ''6''"
  "upper c = CHR ''7'' \<longleftrightarrow> c = CHR ''7''" "upper c = CHR ''8'' \<longleftrightarrow> c = CHR ''8''"
  "upper c = CHR ''1'' \<longleftrightarrow> c = CHR ''1''" "upper c = CHR ''2'' \<longleftrightarrow> c = CHR ''2''"
  by (simp_all add: upper_eq upper_digit, simp_all add: char_of_def bit_numeral_rec bit_Suc_0_iff)

lemma parse_fields:
  "c1 \<in> set ''5678'' \<and> ByteSize_of (digits_value [c1]) = b \<longleftrightarrow>
     upper c1 = (case b of BITS_5 \<Rightarrow> CHR ''5'' | BITS_6 \<Rightarrow> CHR ''6'' | BITS_7 \<Rightarrow> CHR ''7'' | BITS_8 \<Rightarrow> CHR ''8'')"
  "c2 \<in> set ''neoNEO'' \<and> (if c2 \<in> set ''nN'' then PARITY_NONE else if c2 \<in> set ''eE'' then PARITY_EVEN else PARITY_ODD) = p \<longleftrightarrow>
     upper c2 = (case p of PARITY_NONE \<Rightarrow> CHR ''N'' | PARITY_EVEN \<Rightarrow> CHR ''E'' | PARITY_ODD \<Rightarrow> CHR ''O'')"
  "c3 \<in> set ''12'' \<and> (if c3 = CHR ''1'' then STOP_BITS_ONE else STOP_BITS_TWO) = t \<longleftrightarrow>
     upper c3 = (case t of STOP_BITS_ONE \<Rightarrow> CHR ''1'' | STOP_BITS_TWO \<Rightarrow> CHR ''2'')"
proof -
  have digit: "digits_value ''5'' = 5" "digits_value ''6'' = 6" "digits_value ''7'' = 7" "digits_value ''8'' = 8"
    by (simp_all add: digits_value_def digit_value_def)
  show "c1 \<in> set ''5678'' \<and> ByteSize_of (digits_value [c1]) = b \<longleftrightarrow>
     upper c1 = (case b of BITS_5 \<Rightarrow> CHR ''5'' | BITS_6 \<Rightarrow> CHR ''6'' | BITS_7 \<Rightarrow> CHR ''7'' | BITS_8 \<Rightarrow> CHR ''8'')"
    by (cases b) (auto simp: upper_chars ByteSize_of_def digit)
  show "c2 \<in> set ''neoNEO'' \<and> (if c2 \<in> set ''nN'' then PARITY_NONE else if c2 \<in> set ''eE'' then PARITY_EVEN else PARITY_ODD) = p \<longleftrightarrow>
     upper c2 = (case p of PARITY_NONE \<Rightarrow> CHR ''N'' | PARITY_EVEN \<Rightarrow> CHR ''E'' | PARITY_ODD \<Rightarrow> CHR ''O'')"
    by (cases p) (auto simp: upper_chars)
  show "c3 \<in> set ''12'' \<and> (if c3 = CHR ''1'' then STOP_BITS_ONE else STOP_BITS_TWO) = t \<longleftrightarrow>
     upper c3 = (case t of STOP_BITS_ONE \<Rightarrow> CHR ''1'' | STOP_BITS_TWO \<Rightarrow> CHR ''2'')"
    by (cases t) (auto simp: upper_chars)
qed

lemma config_eq:
  "(if A \<and> B \<and> C then Inr \<lparr>byte_size = b, parity = p, stop_bits = t\<rparr> else Inl err) = Inr c \<longleftrightarrow>
    (A \<and> b = byte_size c) \<and> (B \<and> p = parity c) \<and> (C \<and> t = stop_bits c)"
  by (cases c) auto

lemma parse_three:
  "parseSerialConfiguration [c1, c2, c3] = Inr c \<longleftrightarrow> map upper [c1, c2, c3] = config_text c"
  unfolding parseSerialConfiguration_def list.case config_eq parse_fields by (simp add: config_text_def)

text \<open>C27 \<^verbatim>\<open>parseSerialConfiguration\<close> accepts exactly the three-character notations, a byte size
  from 5 to 8, a letter for the parity in either case and one or two stop bits, and reads from
  each the configuration that it denotes; everything else is an \<^verbatim>\<open>invalid_argument\<close>.\<close>

theorem parseSerialConfiguration_iff:
  "(parseSerialConfiguration s = Inr c) = (map upper s = config_text c)
   \<and> (parseSerialConfiguration s = Inl e) = (e = InvalidArgument \<and> (\<nexists>c'. map upper s = config_text c'))"
proof -
  have iff: "(parseSerialConfiguration s = Inr c) = (map upper s = config_text c)" for c
  proof (cases "\<exists>c1 c2 c3. s = [c1, c2, c3]")
    case True
    then obtain c1 c2 c3 where s: "s = [c1, c2, c3]" by blast
    show ?thesis unfolding s by (rule parse_three)
  next
    case False
    then have "parseSerialConfiguration s = Inl InvalidArgument"
      by (auto simp: parseSerialConfiguration_def split: list.split)
    moreover have "map upper s \<noteq> config_text c"
      using False by (auto simp: config_text_def map_eq_Cons_conv)
    ultimately show ?thesis by simp
  qed
  have inv: "e' = InvalidArgument" if "parseSerialConfiguration s = Inl e'" for e'
    using that by (auto simp: parseSerialConfiguration_def split: list.splits if_splits)
  show ?thesis
  proof (cases "parseSerialConfiguration s")
    case (Inl e')
    with inv have "e' = InvalidArgument" by blast
    moreover have "\<nexists>c'. map upper s = config_text c'" using iff Inl by (metis Inl_Inr_False)
    ultimately show ?thesis using iff Inl by auto
  next
    case (Inr c')
    then have "map upper s = config_text c'" using iff by blast
    with iff Inr show ?thesis by (metis Inl_Inr_False)
  qed
qed

section \<open>The options of a URI\<close>

text \<open>The options that ask for a configuration, as \<^verbatim>\<open>fromURI\<close> documents them.\<close>

definition config_options :: "SerialConfiguration \<Rightarrow> (string \<times> string) list" where
  "config_options c =
     [(''byte_size'', case byte_size c of BITS_5 \<Rightarrow> ''5'' | BITS_6 \<Rightarrow> ''6'' | BITS_7 \<Rightarrow> ''7'' | BITS_8 \<Rightarrow> ''8''),
      (''parity'', case parity c of PARITY_NONE \<Rightarrow> ''none'' | PARITY_EVEN \<Rightarrow> ''even'' | PARITY_ODD \<Rightarrow> ''odd''),
      (''stop_bits'', case stop_bits c of STOP_BITS_ONE \<Rightarrow> ''1'' | STOP_BITS_TWO \<Rightarrow> ''2'')]"

lemma config_options_ok: "\<forall>o1 \<in> set (config_options c). option_ok o1"
  by (simp add: config_options_def option_ok_def split: ByteSize.split ParityChecking.split StopBits.split)

lemma config_options_map:
  "map_of (rev (config_options c)) ''byte_size'' = Some (snd (config_options c ! 0))"
  "map_of (rev (config_options c)) ''parity'' = Some (snd (config_options c ! 1))"
  "map_of (rev (config_options c)) ''stop_bits'' = Some (snd (config_options c ! 2))"
  by (simp_all add: config_options_def)

lemma stoi_sizes: "stoi ''5'' = Inr (5, 1)" "stoi ''6'' = Inr (6, 1)" "stoi ''7'' = Inr (7, 1)" "stoi ''8'' = Inr (8, 1)"
  by code_simp+

lemma fromURI_options:
  assumes "m_options u = map_of (rev (config_options c))"
  shows "fromURI u = Inr c"
proof -
  have get: "option_text (getOptions u) ''byte_size'' = snd (config_options c ! 0)"
    "option_text (getOptions u) ''parity'' = snd (config_options c ! 1)"
    "option_text (getOptions u) ''stop_bits'' = snd (config_options c ! 2)"
    unfolding option_text_def getOptions_def assms config_options_map by simp_all
  show ?thesis
    unfolding fromURI_def Let_def get
    by (cases "byte_size c"; cases "parity c"; cases "stop_bits c"; cases c)
      (simp_all add: config_options_def stoi_sizes ByteSize_of_def SerialConfiguration_init_def)
qed

text \<open>C28 Any configuration can be asked for in a \<^verbatim>\<open>serial://\<close> URI: the URI written for a device, a rate
  and a configuration is parsed and read back by \<^verbatim>\<open>fromURI\<close> as that configuration; the options may
  be left out, and then the configuration is the default one, eight bits, no parity and one stop
  bit.\<close>

theorem serial_uri_roundtrip:
  assumes "set device \<inter> set ''?:'' = {}" "int rate \<le> INT_MAX"
  shows "(\<exists>u. URI_parse (uri_text ''serial'' device (Some rate) (config_options c)) = Inr u
            \<and> getHost u = device \<and> getPort u = int rate \<and> fromURI u = Inr c)
    \<and> (\<exists>u. URI_parse (uri_text ''serial'' device (Some rate) []) = Inr u
            \<and> fromURI u = Inr \<lparr>byte_size = BITS_8, parity = PARITY_NONE, stop_bits = STOP_BITS_ONE\<rparr>)"
proof -
  have ok: "uri_ok ''serial'' device (Some rate) os" if "\<forall>o1 \<in> set os. option_ok o1" for os
    using assms that by (simp add: uri_ok_def)
  have "fromURI (uri_of ''serial'' device (Some rate) (config_options c)) = Inr c"
    by (rule fromURI_options) (simp add: uri_of_def)
  moreover have "fromURI (uri_of ''serial'' device (Some rate) [])
    = Inr \<lparr>byte_size = BITS_8, parity = PARITY_NONE, stop_bits = STOP_BITS_ONE\<rparr>"
    by (simp add: fromURI_def uri_of_def option_text_def getOptions_def SerialConfiguration_init_def)
  ultimately show ?thesis
    using parse_uri_text [OF ok [OF config_options_ok]] parse_uri_text [OF ok, of "[]"]
    by (simp add: uri_of_def getHost_def getPort_def)
qed

lemma decimal_9600: "decimal 9600 = ''9600''"
  by (simp add: decimal.simps char_of_def bit_numeral_rec bit_Suc_0_iff)

theorem serial_uri_roundtrip_witness:
  "\<exists>u. URI_parse ''serial:///dev/ttyS0:9600?byte_size=7&parity=even&stop_bits=2'' = Inr u
     \<and> fromURI u = Inr \<lparr>byte_size = BITS_7, parity = PARITY_EVEN, stop_bits = STOP_BITS_TWO\<rparr>"
proof -
  let ?c = "\<lparr>byte_size = BITS_7, parity = PARITY_EVEN, stop_bits = STOP_BITS_TWO\<rparr>"
  have uri: "uri_text ''serial'' ''/dev/ttyS0'' (Some 9600) (config_options ?c)
    = ''serial:///dev/ttyS0:9600?byte_size=7&parity=even&stop_bits=2''"
    by (simp add: uri_text_def config_options_def decimal_9600)
  have ok: "set ''/dev/ttyS0'' \<inter> set ''?:'' = {}" "int 9600 \<le> INT_MAX" by (simp_all add: INT_MAX_def)
  show ?thesis using serial_uri_roundtrip [OF ok, of ?c, THEN conjunct1] unfolding uri by blast
qed

section \<open>Custom rates\<close>

lemma sdiv_nonneg: "0 \<le> (a :: int) \<Longrightarrow> 0 \<le> b \<Longrightarrow> a sdiv b = a div b"
  by (simp add: signed_divide_int_def sgn_if zero_less_mult_iff)

lemma int_div_le: "0 \<le> (a :: int) \<Longrightarrow> 0 < b \<Longrightarrow> a div b \<le> a"
  using zdiv_mono2 [of a 1 b] by simp

lemma nearest_bound:
  assumes "b + h = x + m" "0 \<le> m" "m < r" "h * 2 \<le> r" "r \<le> h * 2 + (1 :: int)"
  shows "2 * (x - b) \<le> r" "2 * (b - x) \<le> r"
proof -
  have x: "x = b + h - m" using assms(1) by simp
  show "2 * (x - b) \<le> r" using assms(2,4) unfolding x by simp
  show "2 * (b - x) \<le> r" using assms(3,5) unfolding x by simp
qed

lemma custom_divisor_nearest:
  assumes "0 < brate" "brate \<le> 21053761" "0 \<le> baud_base" "baud_base \<le> 2136956766"
  shows "\<exists>d. custom_divisor baud_base brate = Inr d
    \<and> (case d of None \<Rightarrow> 2 * baud_base < brate
       | Some n \<Rightarrow> 0 < n \<and> brate \<le> 2 * baud_base \<and> 2 * \<bar>n * brate - baud_base\<bar> \<le> brate)"
proof -
  define d where "d = (baud_base + brate div 2) div brate"
  have half: "brate div 2 * 2 \<le> brate" "brate \<le> brate div 2 * 2 + 1" by simp_all
  have eq: "baud_base + brate div 2 = d * brate + (baud_base + brate div 2) mod brate"
    unfolding d_def by simp
  have m: "0 \<le> (baud_base + brate div 2) mod brate" "(baud_base + brate div 2) mod brate < brate"
    using assms(1) by simp_all
  have d0: "0 \<le> d" using assms unfolding d_def by (simp add: pos_imp_zdiv_nonneg_iff)
  have dle: "d \<le> baud_base + brate div 2"
    using assms unfolding d_def by (intro int_div_le) simp_all
  have s: "brate sdiv 2 = brate div 2" using assms by (simp add: sdiv_nonneg)
  have op1: "int_op (baud_base + brate sdiv 2) = Inr (baud_base + brate div 2)"
    using assms half unfolding s int_op_def INT_MIN_def INT_MAX_def by simp
  have div1: "int_div (baud_base + brate div 2) brate = Inr d"
    using assms half d0 dle unfolding int_div_def int_op_def INT_MIN_def INT_MAX_def d_def
    by (simp add: sdiv_nonneg)
  show ?thesis
  proof (cases "d = 0")
    case True
    then have "custom_divisor baud_base brate = Inr None" by (simp add: custom_divisor_def op1 div1)
    moreover have "2 * baud_base < brate" using True eq m half by simp
    ultimately show ?thesis by simp
  next
    case False
    have cs: "int_div baud_base d = Inr (baud_base div d)"
    proof -
      have "baud_base div d \<le> baud_base" "0 \<le> baud_base div d"
        using assms d0 False by (simp_all add: int_div_le pos_imp_zdiv_nonneg_iff)
      then show ?thesis using assms False d0
        by (simp add: int_div_def int_op_def sdiv_nonneg INT_MIN_def INT_MAX_def)
    qed
    have "custom_divisor baud_base brate = Inr (Some d)"
      using assms False by (simp add: custom_divisor_def op1 div1 cs)
        (simp add: int_op_def INT_MIN_def INT_MAX_def)
    moreover have "brate \<le> d * brate" using False d0 assms(1) by simp
    moreover have "brate \<le> 2 * baud_base" using \<open>brate \<le> d * brate\<close> eq m half by linarith
    moreover have "2 * \<bar>d * brate - baud_base\<bar> \<le> brate"
    proof -
      have "2 * (d * brate - baud_base) \<le> brate" "2 * (baud_base - d * brate) \<le> brate"
        using nearest_bound [OF eq m half] by simp_all
      then show ?thesis by (cases "d * brate \<le> baud_base") simp_all
    qed
    ultimately show ?thesis using False d0 by simp
  qed
qed

lemma speed_bits:
  "((f AND NOT ASYNC_SPD_MASK) OR ASYNC_SPD_CUST) AND ASYNC_SPD_MASK = ASYNC_SPD_CUST"
  "((f AND NOT ASYNC_SPD_MASK) OR ASYNC_SPD_CUST) AND NOT ASYNC_SPD_MASK = f AND NOT ASYNC_SPD_MASK"
  by (simp_all add: ASYNC_SPD_MASK_def ASYNC_SPD_CUST_def word_ao_dist and.assoc)

text \<open>What the port is told, then the speed, whose outcome is the result.\<close>

definition apply_speed ::
  "'o unix \<Rightarrow> int \<Rightarrow> serial_struct \<Rightarrow> int \<Rightarrow> 'o \<Rightarrow> (exn + bool) \<times> 'o" where
  "apply_speed S fd ss c w = (case set_speed S fd c (sys_tiocsserial S fd ss w) of (ok, w') \<Rightarrow> (Inr ok, w'))"



text \<open>A rate of zero divides by zero, and a rate that \<^verbatim>\<open>SERIAL_RATES\<close> lists has no case.\<close>

lemma setSerialBaudrate_zero: "fst (setSerialBaudrate S fd 0 w) = Inl UndefinedBehaviour"
  by (auto simp: setSerialBaudrate_def rate_code_def custom_divisor_def int_op_def int_div_def
      split: prod.split sum.split)

lemma listed_rate_without_case: "rate_code 1152000 = None"
  by (simp add: rate_code_def)

text \<open>The closest speed is used even when the check says that it cannot be set: 57600 for 50000.\<close>

lemma far_rate_is_set: "custom_divisor 115200 50000 = Inr (Some 2)"
  by code_simp

end
