(* ===== verification/Open_Correct.thy ===== *)
theory Open_Correct
  imports Open_Uri Serial_Properties
begin

text \<open>
  What opening does to the driver, to the stream objects and to the descriptors of the
  process.
\<close>

section \<open>Stream objects\<close>

text \<open>A driver's stream is an object of the heap, and the next object will be a new one.\<close>

definition handle_ok :: "'t driver \<Rightarrow> 'o heap \<Rightarrow> bool" where
  "handle_ok d w \<longleftrightarrow> (\<forall>n \<ge> h_next w. h_streams w (Ptr n) = None)
     \<and> (\<forall>p. m_stream d = Some p \<longrightarrow> h_streams w p \<noteq> None)"

text \<open>From one state to another the driver changed at most its stream; a stream it left has been
  deleted, a stream it took is a new object, and all other objects are as they were.\<close>

definition replaces_stream :: "'t driver \<Rightarrow> 'o heap \<Rightarrow> 't driver \<Rightarrow> 'o heap \<Rightarrow> bool" where
  "replaces_stream d w d' w' \<longleftrightarrow> d' = d\<lparr>m_stream := m_stream d'\<rparr> \<and> handle_ok d' w'
     \<and> (\<forall>q. m_stream d = Some q \<and> m_stream d' \<noteq> Some q \<longrightarrow> h_streams w' q = None)
     \<and> (\<forall>q. m_stream d' = Some q \<and> m_stream d \<noteq> Some q \<longrightarrow> h_streams w q = None)
     \<and> (\<forall>q. m_stream d \<noteq> Some q \<and> m_stream d' \<noteq> Some q \<longrightarrow> h_streams w' q = h_streams w q)"

definition opens :: "'t driver \<Rightarrow> 'o heap \<Rightarrow> (exn + 'a) \<times> 't driver \<times> 'o heap \<Rightarrow> bool" where
  "opens d w r \<longleftrightarrow> (case r of (res, d', w') \<Rightarrow>
     replaces_stream d w d' w' \<and> ((\<exists>x. res = Inr x) \<longrightarrow> isValid d'))"

lemma replaces_refl: "handle_ok d w \<Longrightarrow> h_streams w' = h_streams w \<Longrightarrow> h_next w' = h_next w \<Longrightarrow> replaces_stream d w d w'"
  by (simp add: replaces_stream_def handle_ok_def)

lemma replaces_trans:
  assumes "replaces_stream d w d1 w1" "replaces_stream d1 w1 d2 w2"
  shows "replaces_stream d w d2 w2"
  unfolding replaces_stream_def
proof (intro conjI allI impI)
  have "d1 = d\<lparr>m_stream := m_stream d1\<rparr>" "d2 = d1\<lparr>m_stream := m_stream d2\<rparr>"
    using assms by (auto simp: replaces_stream_def)
  then show "d2 = d\<lparr>m_stream := m_stream d2\<rparr>" by (cases d; cases d1; cases d2) simp
  show "handle_ok d2 w2" using assms by (simp add: replaces_stream_def)
next
  fix q
  assume "m_stream d = Some q \<and> m_stream d2 \<noteq> Some q"
  then show "h_streams w2 q = None"
    using assms by (cases "m_stream d1 = Some q") (auto simp: replaces_stream_def)
next
  fix q
  assume "m_stream d2 = Some q \<and> m_stream d \<noteq> Some q"
  then show "h_streams w q = None"
    using assms by (cases "m_stream d1 = Some q") (auto simp: replaces_stream_def)
next
  fix q
  assume "m_stream d \<noteq> Some q \<and> m_stream d2 \<noteq> Some q"
  then show "h_streams w2 q = h_streams w q"
    using assms by (cases "m_stream d1 = Some q") (auto simp: replaces_stream_def)
qed

lemma replaces_os: "replaces_stream d w d1 w1 \<Longrightarrow> replaces_stream d w d1 (w1\<lparr>h_os := o1\<rparr>)"
  by (simp add: replaces_stream_def handle_ok_def)

lemma replaces_from_os: "replaces_stream d (w\<lparr>h_os := o1\<rparr>) d1 w1 = replaces_stream d w d1 w1"
  by (simp add: replaces_stream_def)

lemma delete_streams:
  "h_streams (delete_stream (sys_env T os) p w) = (case p of None \<Rightarrow> h_streams w | Some q \<Rightarrow> (h_streams w)(q := None))"
  "h_next (delete_stream (sys_env T os) p w) = h_next w"
  by (auto simp: delete_stream_def sys_env_def split: option.split)

lemma opens_install:
  assumes "handle_ok d w" "snd r = w\<lparr>h_os := o1\<rparr>"
  shows "opens d w (install T os mk r d w0)"
proof (cases r)
  case (Pair res w1)
  with assms(2) have w1: "w1 = w\<lparr>h_os := o1\<rparr>" by simp
  show ?thesis
  proof (cases res)
    case (Inl e)
    then show ?thesis using Pair w1 assms by (simp add: install_def opens_def replaces_refl)
  next
    case (Inr s)
    let ?p = "Ptr (h_next w)"
    have new: "h_streams w ?p = None" "m_stream d \<noteq> Some ?p" using assms by (auto simp: handle_ok_def)
    have fresh: "h_streams w (Ptr n) = None" if "h_next w \<le> n" for n using that assms by (simp add: handle_ok_def)
    show ?thesis
      using Inr Pair w1 new fresh
      by (cases "m_stream d")
        (auto simp: install_def new_stream_def Let_def setMainStream_def opens_def replaces_stream_def
          handle_ok_def delete_streams isValid_def)
  qed
qed

lemma on_system_snd: "\<exists>o1. snd (on_system f w) = w\<lparr>h_os := o1\<rparr>"
  by (auto simp: on_system_def split: prod.split)

lemma opens_system:
  assumes "handle_ok d w"
  shows "opens d w (install T os mk (on_system f w) d w0)"
  using opens_install [OF assms] on_system_snd [of f w] by blast

lemma opensD:
  assumes "opens d w (res, d1, w1)"
  shows "replaces_stream d w d1 w1" "handle_ok d1 w1" "res = Inr x \<Longrightarrow> isValid d1"
  using assms by (auto simp: opens_def replaces_stream_def)

lemma opens_then:
  assumes "opens d w r" and "\<And>x d1 w1. r = (Inr x, d1, w1) \<Longrightarrow> opens d1 w1 (k x d1 w1)"
  shows "opens d w (then_open r k)"
proof (cases r)
  case (fields res d1 w1)
  show ?thesis
  proof (cases res)
    case (Inl e)
    with assms(1) fields show ?thesis by (simp add: opens_def)
  next
    case (Inr x)
    with assms fields have "opens d1 w1 (k x d1 w1)" by simp
    with assms(1) fields Inr show ?thesis
      by (auto simp: opens_def intro: replaces_trans)
  qed
qed

lemma opens_throw: "handle_ok d w \<Longrightarrow> opens d w (Inl e, d, w\<lparr>h_os := o1\<rparr>)" "handle_ok d w \<Longrightarrow> opens d w (Inl e, d, w)"
  by (simp_all add: opens_def replaces_refl)

lemma handle_ok_os [simp]: "handle_ok d (w\<lparr>h_os := o1\<rparr>) = handle_ok d w"
  by (simp add: handle_ok_def)

lemma opens_from_os: "opens d (w\<lparr>h_os := o1\<rparr>) r \<Longrightarrow> opens d w r"
  by (auto simp: opens_def replaces_from_os)

lemma opens_setFileDescriptor: "handle_ok d w \<Longrightarrow> opens d w (setFileDescriptor T os fd a b d w)"
  unfolding setFileDescriptor_def by (rule opens_system)

lemma opens_openIPClient: "handle_ok d w \<Longrightarrow> opens d w (openIPClient T os S host port hints d w)"
  unfolding openIPClient_def on_system_def
  by (auto split: prod.split sum.split intro!: opens_throw opens_from_os [OF opens_setFileDescriptor])

lemma opens_close:
  assumes "handle_ok d w"
  shows "opens d w (Inl e, fst (close (sys_env T os) d w), snd (close (sys_env T os) d w))"
  using assms by (cases "m_stream d") (auto simp: close_def opens_def replaces_stream_def handle_ok_def delete_streams)

lemma opens_openTCP:
  assumes "handle_ok d w"
  shows "opens d w (openTCP T os S host port d w)"
  unfolding openTCP_def
proof (rule opens_then [OF opens_openIPClient [OF assms]], goal_cases)
  case (1 x d1 w1)
  with opens_openIPClient [OF assms, of T os S host port "AI_hints SOCK_STREAM 0"]
  have ok: "handle_ok d1 w1" "isValid d1" by (auto dest: opensD)
  obtain good o2 where set: "sys_setsockopt S (getFileDescriptor (sys_env T os) d1 w1) IPPROTO_TCP TCP_NODELAY 1 (h_os w1) = (good, o2)"
    by fastforce
  have "opens d1 w1 (Inr (), d1, w1\<lparr>h_os := o2\<rparr>)" using ok by (simp add: opens_def replaces_refl)
  moreover have "opens d1 w1 (Inl e :: exn + unit, fst (close (sys_env T os) d1 (w1\<lparr>h_os := o2\<rparr>)),
    snd (close (sys_env T os) d1 (w1\<lparr>h_os := o2\<rparr>)))" for e
    using ok by (intro opens_from_os [OF opens_close]) simp
  ultimately show ?case by (simp add: set Let_def close_def)
qed

lemma opens_serial_config:
  assumes "handle_ok d w" "isValid d"
  shows "opens d w (setSerialConfiguration T os S c d w)"
  using assms by (auto simp: setSerialConfiguration_def on_system_def opens_def replaces_refl split: prod.split)

lemma opens_result: "opens d w (Inr x, d1, w1) \<Longrightarrow> opens d1 w1 (Inr y, d1, w1)"
  by (auto simp: opens_def replaces_stream_def)

lemma opens_openSerial:
  assumes "handle_ok d w"
  shows "opens d w (openSerial T os S dev rate c d w)"
proof (cases "on_system (openSerialIO os S dev rate) w")
  case (Pair r w1)
  with on_system_snd [of "openSerialIO os S dev rate" w] obtain o1 where w1: "w1 = w\<lparr>h_os := o1\<rparr>" by auto
  show ?thesis
  proof (cases r)
    case (Inl e)
    with Pair w1 assms show ?thesis by (simp add: openSerial_def opens_throw)
  next
    case (Inr fd)
    have 1: "opens d w1 (setFileDescriptor T os fd True False d w1)"
      using assms w1 by (intro opens_setFileDescriptor) simp
    have "opens d w1 (then_open (setFileDescriptor T os fd True False d w1) (\<lambda>_ d2 w2.
          then_open (setSerialConfiguration T os S c d2 w2) (\<lambda>_ d3 w3. (Inr True, d3, w3))))"
    proof (rule opens_then [OF 1], goal_cases)
      case (1 x d2 w2)
      with \<open>opens d w1 _\<close> have "handle_ok d2 w2" "isValid d2" by (auto dest: opensD)
      then have 2: "opens d2 w2 (setSerialConfiguration T os S c d2 w2)" by (rule opens_serial_config)
      show ?case by (rule opens_then [OF 2]) (use 2 opens_result in metis)
    qed
    with Pair Inr w1 show ?thesis by (auto simp: openSerial_def intro: opens_from_os)
  qed
qed

lemma opens_simple:
  assumes "handle_ok d w"
  shows "opens d w (openUDPServer T os S port d w)"
    and "opens d w (openUnixStreamServer T os S path d w)"
    and "opens d w (openUnixStreamClient T os S path d w)"
    and "opens d w (openUnixDatagramServer T os S path d w)"
    and "opens d w (openUnixDatagramClient T os S path d w)"
    and "opens d w (openUDPBidirectional T os S host rp lp a b c e d w)"
  unfolding openUDPServer_def openUnixStreamServer_def openUnixStreamClient_def openUnixDatagramServer_def
    openUnixDatagramClient_def openUDPBidirectional_def
  by (rule opens_system [OF assms])+

lemma opens_openFile: "handle_ok d w \<Longrightarrow> opens d w (openFile T os S path d w)"
  unfolding openFile_def
  by (auto split: prod.split option.split intro!: opens_throw opens_from_os [OF opens_setFileDescriptor])

lemma opens_openTestMode: "handle_ok d w \<Longrightarrow> opens d w (openTestMode T os d w)"
  unfolding openTestMode_def by (rule opens_install [where ?o1.0 = "h_os w"]) simp_all

lemma opens_done: "opens d w r \<Longrightarrow> opens d w (then_open r (\<lambda>_ d1 w1. (Inr (), d1, w1)))"
  by (rule opens_then) (auto dest: opens_result)

lemma opens_openURI_UDP: "handle_ok d w \<Longrightarrow> opens d w (openURI_UDP T os S u d w)"
  unfolding openURI_UDP_def Let_def
  by (auto split: sum.split prod.split intro!: opens_throw(2) opens_simple)

lemma opens_openURI:
  assumes "handle_ok d w"
  shows "opens d w (openURI T os S s d w)"
proof (cases "if substr s 0 (Some 6) = Inr ''udp://'' then backwardParseBidirectionalUDP s else URI_parse s")
  case (Inl e)
  then show ?thesis using assms by (simp only: openURI_def sum.case) (rule opens_throw)
next
  case (Inr u)
  note ok = opens_throw(2) [OF assms] opens_openTCP [OF assms] opens_openURI_UDP [OF assms]
    opens_simple [OF assms] opens_openFile [OF assms] opens_openTestMode [OF assms]
    opens_setFileDescriptor [OF assms] opens_done [OF opens_openSerial [OF assms]]
  have test: "has_test_stream d w \<Longrightarrow> opens d w (Inr (), d, w)"
    using assms by (auto simp: has_test_stream_def opens_def isValid_def getMainStream_def replaces_refl
        split: option.splits)
  show ?thesis
    unfolding openURI_def Inr sum.case Let_def
    by (auto split: sum.split prod.split intro: ok test simp: validateURIScheme_def knownSchemes_def)
qed

text \<open>C32 Whatever the URI and whatever the system answers, \<^verbatim>\<open>openURI\<close> changes nothing of the
  driver but its stream, and keeps the objects in order: the driver's handle is valid or null, a
  stream that is replaced is deleted, no object is left behind that the driver does not own, other
  objects are untouched; when it returns the driver has a stream. The bytes already queued are
  kept, also when they came from the old stream.\<close>

theorem openURI_replaces_stream:
  assumes "handle_ok d w" and "openURI T os S s d w = (r, d', w')"
  shows "replaces_stream d w d' w' \<and> (r = Inr () \<longrightarrow> isValid d')
    \<and> (driver_wf d \<longrightarrow> driver_wf d') \<and> queued d' = queued d"
proof -
  have "opens d w (r, d', w')" using opens_openURI [OF assms(1), of T os S s] assms(2) by simp
  then have rep: "replaces_stream d w d' w'" and valid: "r = Inr () \<Longrightarrow> isValid d'" by (auto dest: opensD)
  obtain p where "d' = d\<lparr>m_stream := p\<rparr>" using rep by (auto simp: replaces_stream_def)
  then show ?thesis using rep valid by simp
qed

lemma desk_handle: "handle_ok desk_driver desk_heap"
  by (simp add: handle_ok_def desk_driver_def desk_heap_def)

theorem openURI_replaces_stream_witness:
  "\<exists>d' w'. openURI us_ops desk_os desk_unix ''test://'' desk_driver desk_heap = (Inr (), d', w')
     \<and> replaces_stream desk_driver desk_heap d' w' \<and> isValid d'"
proof -
  have "URI_parse ''test://'' = Inr (uri_of ''test'' [] None [])"
    using parse_uri_text [of "''test''" "[]" None "[]"] by (simp add: uri_ok_def uri_text_def)
  then obtain d' w' where "openURI us_ops desk_os desk_unix ''test://'' desk_driver desk_heap = (Inr (), d', w')"
    by (simp add: openURI_def substr_def uri_of_def getScheme_def validateURIScheme_def knownSchemes_def
        has_test_stream_def getMainStream_def desk_driver_def openTestMode_def install_def new_stream_def
        Let_def setMainStream_def)
  with openURI_replaces_stream [OF desk_handle this] show ?thesis by blast
qed

section \<open>Descriptors\<close>

text \<open>An operation that gets a descriptor or throws: in the first case it is a new one and the only
  new one, in the second there is none.\<close>

definition acquires ::
  "('o \<Rightarrow> int set) \<Rightarrow> ('a \<Rightarrow> int) \<Rightarrow> 'o \<Rightarrow> (exn + 'a) \<times> 'o \<Rightarrow> bool" where
  "acquires open_fds fd w r \<longleftrightarrow>
     (case r of
        (Inl e, w') \<Rightarrow> open_fds w' = open_fds w
      | (Inr x, w') \<Rightarrow> open_fds w' = insert (fd x) (open_fds w) \<and> fd x \<notin> open_fds w)"

text \<open>Making a socket non-blocking does not fail on a descriptor that was just opened.\<close>

definition setfl_succeeds :: "('o, 't) os \<Rightarrow> bool" where
  "setfl_succeeds os \<longleftrightarrow> (\<forall>fd fl w. \<exists>w'. sys_setfl os fd fl w = (Inr (), w'))"

lemma acquires_simps:
  "acquires F fd w (Inl e, w') \<longleftrightarrow> F w' = F w"
  "acquires F fd w (Inr x, w') \<longleftrightarrow> F w' = insert (fd x) (F w) \<and> fd x \<notin> F w"
  by (simp_all add: acquires_def)

context fd_table
begin

lemma fds_call:
  "sys_bind S fd adr w = (b, w') \<Longrightarrow> open_fds w' = open_fds w"
  "sys_connect S fd adr w = (b, w') \<Longrightarrow> open_fds w' = open_fds w"
  "sys_listen S fd n w = (b, w') \<Longrightarrow> open_fds w' = open_fds w"
  "sys_getaddrinfo S host port hints w = (c, w') \<Longrightarrow> open_fds w' = open_fds w"
  "sys_tcgetattr S fd w = (t, w') \<Longrightarrow> open_fds w' = open_fds w"
  "sys_tcsetattr S fd tio w = (b, w') \<Longrightarrow> open_fds w' = open_fds w"
  "sys_cfsetispeed S tio n2 w = (t, w') \<Longrightarrow> open_fds w' = open_fds w"
  "sys_cfsetospeed S tio n2 w = (t, w') \<Longrightarrow> open_fds w' = open_fds w"
  "sys_tiocgserial S fd w = (ss, w') \<Longrightarrow> open_fds w' = open_fds w"
  "sys_getfl os fd w = (fl, w') \<Longrightarrow> open_fds w' = open_fds w"
  "sys_setfl os fd fl w = (u, w') \<Longrightarrow> open_fds w' = open_fds w"
  by (metis other_fds snd_conv)+

lemma closed_again: "open_fds w1 = insert fd (open_fds w) \<Longrightarrow> fd \<notin> open_fds w \<Longrightarrow> open_fds (sys_close os fd w1) = open_fds w"
  by (simp add: close_fds)

lemma fds_set_speed: "set_speed S fd c w = (b, w') \<Longrightarrow> open_fds w' = open_fds w"
  unfolding set_speed_def
  by (auto split: prod.splits option.splits dest!: fds_call)

lemma fds_baudrate: "setSerialBaudrate S fd b w = (r, w') \<Longrightarrow> open_fds w' = open_fds w"
  unfolding setSerialBaudrate_def Let_def
  by (auto split: prod.splits sum.splits option.splits if_splits dest!: fds_call fds_set_speed simp: other_fds)

lemma acquires_openSerialIO: "acquires open_fds id w (openSerialIO os S port b w)"
proof (cases "sys_open S (c_str port) (O_RDWR OR O_NOCTTY OR O_SYNC OR O_NONBLOCK_flag) w")
  case (Pair r w1)
  show ?thesis
  proof (cases r)
    case None
    with Pair open_none show ?thesis by (auto simp: openSerialIO_def acquires_simps)
  next
    case (Some fd)
    with Pair open_some have fd: "open_fds w1 = insert fd (open_fds w)" "fd \<notin> open_fds w" "fd \<noteq> - 1" by fastforce+
    obtain ok w2 where attr: "sys_tcsetattr S fd (termios_zero\<lparr>c_cflag := CS8 OR CREAD, c_iflag := IGNBRK\<rparr>) w1 = (ok, w2)"
      by fastforce
    obtain br w3 where baud: "setSerialBaudrate S fd b w2 = (br, w3)" by fastforce
    have same: "open_fds w2 = open_fds w1" "open_fds w3 = open_fds w1"
      using fds_call(6) [OF attr] fds_baudrate [OF baud] by simp_all
    show ?thesis
      using Pair Some fd attr baud same
      by (cases br) (auto simp: openSerialIO_def Let_def acquires_simps closed_again)
  qed
qed

lemma socket_cases:
  obtains (none) w1 where "sys_socket S a b c w = (None, w1)" "open_fds w1 = open_fds w"
  | (some) fd w1 where "sys_socket S a b c w = (Some fd, w1)" "open_fds w1 = insert fd (open_fds w)"
      "fd \<notin> open_fds w" "fd \<noteq> - 1"
proof (cases "sys_socket S a b c w")
  case (Pair r w1)
  show ?thesis
  proof (cases r)
    case None
    then show ?thesis using Pair socket_none none by blast
  next
    case (Some fd)
    then have "open_fds w1 = insert fd (open_fds w) \<and> fd \<notin> open_fds w \<and> 0 \<le> fd" using Pair socket_some by blast
    then show ?thesis using Pair Some some [of fd w1] by auto
  qed
qed

lemma fds_bind_candidates:
  "bind_candidates os S rps w = (r, w') \<Longrightarrow>
    (case r of None \<Rightarrow> open_fds w' = open_fds w | Some fd \<Rightarrow> open_fds w' = insert fd (open_fds w) \<and> fd \<notin> open_fds w)"
proof (induction rps arbitrary: w)
  case (Cons rp rps)
  show ?case
  proof (cases rule: socket_cases [of "ai_family rp" "ai_socktype rp" "ai_protocol rp" w])
    case (none w1)
    with Cons.prems Cons.IH [of w1] show ?thesis by (cases r) simp_all
  next
    case (some fd w1)
    obtain ok w2 where bind: "sys_bind S fd (ai_addr rp) w1 = (ok, w2)" by fastforce
    have w2: "open_fds w2 = insert fd (open_fds w)" using fds_call(1) [OF bind] some by simp
    show ?thesis
      using Cons.prems some bind w2 closed_again [OF w2 some(3)] Cons.IH [of "sys_close os fd w2"]
      by (cases ok; cases r) auto
  qed
qed simp

lemma fds_connect_candidates:
  "connect_candidates os S rps w = (r, w') \<Longrightarrow>
    (case r of None \<Rightarrow> open_fds w' = open_fds w
     | Some x \<Rightarrow> open_fds w' = insert (fst x) (open_fds w) \<and> fst x \<notin> open_fds w)"
proof (induction rps arbitrary: w)
  case (Cons rp rps)
  show ?case
  proof (cases rule: socket_cases [of "ai_family rp" "ai_socktype rp" "ai_protocol rp" w])
    case (none w1)
    with Cons.prems Cons.IH [of w1] show ?thesis by (cases r) simp_all
  next
    case (some fd w1)
    obtain ok w2 where conn: "sys_connect S fd (ai_addr rp) w1 = (ok, w2)" by fastforce
    have w2: "open_fds w2 = insert fd (open_fds w)" using fds_call(2) [OF conn] some by simp
    show ?thesis
      using Cons.prems some conn w2 closed_again [OF w2 some(3)] Cons.IH [of "sys_close os fd w2"]
      by (cases ok; cases r) auto
  qed
qed simp

lemma acquires_createIPServerSocket: "acquires open_fds id w (createIPServerSocket os S port hints w)"
proof -
  obtain c w1 where res: "sys_getaddrinfo S None port hints w = (c, w1)" by fastforce
  show ?thesis
  proof (cases c)
    case None
    with res fds_call(4) [OF res] show ?thesis by (simp add: createIPServerSocket_def acquires_simps)
  next
    case (Some rps)
    obtain r w2 where b: "bind_candidates os S rps w1 = (r, w2)" by fastforce
    with Some res fds_call(4) [OF res] fds_bind_candidates [OF b] show ?thesis
      by (cases r) (simp_all add: createIPServerSocket_def acquires_simps)
  qed
qed

lemma acquires_createIPClientSocket: "acquires open_fds fst w (createIPClientSocket os S host port hints w)"
proof -
  obtain c w1 where res: "sys_getaddrinfo S (Some host) port hints w = (c, w1)" by fastforce
  show ?thesis
  proof (cases c)
    case None
    with res fds_call(4) [OF res] show ?thesis by (simp add: createIPClientSocket_def acquires_simps)
  next
    case (Some rps)
    obtain r w2 where b: "connect_candidates os S rps w1 = (r, w2)" by fastforce
    with Some res fds_call(4) [OF res] fds_connect_candidates [OF b] show ?thesis
      by (cases r) (simp_all add: createIPClientSocket_def acquires_simps)
  qed
qed

lemma FDStream_init_acquired:
  assumes "setfl_succeeds os"
  shows "\<exists>s w'. FDStream_init os fd ac he w = (Inr s, w') \<and> fd_no s = fd \<and> open_fds w' = open_fds w"
proof -
  obtain fl w1 where getfl: "sys_getfl os fd w = (fl, w1)" by fastforce
  obtain w2 where setfl: "sys_setfl os fd (fl OR O_NONBLOCK) w1 = (Inr (), w2)"
    using assms unfolding setfl_succeeds_def by blast
  show ?thesis
    using setNonBlockingFlag_cases [OF getfl] setfl fds_call(10) [OF getfl] fds_call(11) [OF setfl]
    by (simp add: FDStream_init_def)
qed

lemma SocketStream_init_acquired:
  assumes "setfl_succeeds os"
  shows "\<exists>s w'. SocketStream_init os fd ac he w = (Inr s, w') \<and> so_fd s = fd \<and> open_fds w' = open_fds w"
proof -
  obtain fl w1 where getfl: "sys_getfl os fd w = (fl, w1)" by fastforce
  obtain w2 where setfl: "sys_setfl os fd (fl OR O_NONBLOCK) w1 = (Inr (), w2)"
    using assms unfolding setfl_succeeds_def by blast
  show ?thesis
    using setNonBlockingFlag_cases [OF getfl] setfl fds_call(10) [OF getfl] fds_call(11) [OF setfl]
    by (simp add: SocketStream_init_def)
qed

lemma acquires_guarded:
  assumes "open_fds w1 = insert fd (open_fds w)" "fd \<notin> open_fds w" "fd \<noteq> - 1"
    and "snd r = w2" "open_fds w2 = open_fds w1" "fst r = Inr fd \<or> (\<exists>e. fst r = Inl e)"
    and "\<And>w'. open_fds w' = open_fds w1 \<Longrightarrow> \<exists>s w''. k fd w' = (Inr s, w'') \<and> get s = fd \<and> open_fds w'' = open_fds w'"
  shows "acquires open_fds get w (try_then (guarded os fd r) k)"
proof (cases "fst r")
  case (Inl e)
  then have "r = (Inl e, w2)" using assms(4) by (cases r) simp
  then show ?thesis using assms(1,2,3,5) by (simp add: acquires_simps closed_again)
next
  case (Inr x)
  then have "r = (Inr fd, w2)" using assms(4,6) by (cases r) auto
  moreover obtain s w'' where "k fd w2 = (Inr s, w'')" "get s = fd" "open_fds w'' = open_fds w2"
    using assms(5,7) by blast
  ultimately show ?thesis using assms by (simp add: acquires_simps)
qed

lemma acquires_unix_stream_server:
  assumes "setfl_succeeds os"
  shows "acquires open_fds us_server_fd w (unix_stream_server os S path w)"
proof (cases rule: socket_cases [of AF_UNIX SOCK_STREAM 0 "sys_unlink S (c_str path) w"])
  case (none w1)
  then show ?thesis by (simp add: unix_stream_server_def acquires_simps other_fds)
next
  case (some fd w1)
  obtain ok w2 where bind: "sys_bind S fd (unix_sockaddr path) w1 = (ok, w2)" by fastforce
  obtain ok' w3 where listen: "sys_listen S fd 1 w2 = (ok', w3)" by fastforce
  have fds: "open_fds w1 = insert fd (open_fds w)" "fd \<notin> open_fds w" "open_fds w2 = open_fds w1" "open_fds w3 = open_fds w1"
    using some fds_call(1) [OF bind] fds_call(3) [OF listen] by (simp_all add: other_fds)
  show ?thesis
    unfolding unix_stream_server_def some(1) prod.case option.case bind listen
  proof (rule acquires_guarded [OF fds(1,2) some(4) refl])
    fix w'
    show "\<exists>s w''. UnixServerStream_init os fd True w' = (Inr s, w'') \<and> us_server_fd s = fd \<and> open_fds w'' = open_fds w'"
      using FDStream_init_acquired [OF assms, of fd False True w'] by (auto simp: UnixServerStream_init_def)
  qed (use fds in auto)
qed

lemma acquires_unix_stream_client:
  assumes "setfl_succeeds os"
  shows "acquires open_fds so_fd w (unix_stream_client os S path w)"
proof (cases rule: socket_cases [of AF_UNIX SOCK_STREAM 0 w])
  case (none w1)
  then show ?thesis by (simp add: unix_stream_client_def acquires_simps)
next
  case (some fd w1)
  obtain ok w2 where conn: "sys_connect S fd (unix_sockaddr path) w1 = (ok, w2)" by fastforce
  have fds: "open_fds w2 = open_fds w1" using fds_call(2) [OF conn] .
  show ?thesis
    unfolding unix_stream_client_def some(1) prod.case option.case conn
  proof (rule acquires_guarded [OF some(2,3,4) refl])
    fix w'
    show "\<exists>s w''. try_then (SocketStream_init os fd True True w')
        (\<lambda>stream w4. (Inr (setSendFlags MSG_NOSIGNAL stream), w4)) = (Inr s, w'')
      \<and> so_fd s = fd \<and> open_fds w'' = open_fds w'"
      using SocketStream_init_acquired [OF assms, of fd True True w'] by (auto simp: setSendFlags_def)
  qed (use fds in auto)
qed

lemma acquires_unix_datagram_server:
  assumes "setfl_succeeds os"
  shows "acquires open_fds fd_no w (unix_datagram_server os S path w)"
proof (cases rule: socket_cases [of AF_UNIX SOCK_DGRAM 0 "sys_unlink S (c_str path) w"])
  case (none w1)
  then show ?thesis by (simp add: unix_datagram_server_def acquires_simps other_fds)
next
  case (some fd w1)
  obtain ok w2 where bind: "sys_bind S fd (unix_sockaddr path) w1 = (ok, w2)" by fastforce
  have fds: "open_fds w1 = insert fd (open_fds w)" "fd \<notin> open_fds w" "open_fds w2 = open_fds w1"
    using some fds_call(1) [OF bind] by (simp_all add: other_fds)
  show ?thesis
    unfolding unix_datagram_server_def some(1) prod.case option.case bind
  proof (rule acquires_guarded [OF fds(1,2) some(4) refl])
    fix w'
    show "\<exists>s w''. UnixDatagramStream_init os fd True w' = (Inr s, w'') \<and> fd_no s = fd \<and> open_fds w'' = open_fds w'"
      using FDStream_init_acquired [OF assms, of fd True True w']
      by (auto simp: UnixDatagramStream_init_def fd_stream.defs)
  qed (use fds in auto)
qed

end



text \<open>\<^verbatim>\<open>openUDPBidirectional\<close> binds the local socket first and has no guard for it: when the remote
  host does not resolve or connect, it throws and the socket stays open.\<close>

lemma udp_bidirectional_leaks:
  "\<exists>w'. udp_bidirectional desk_os desk_unix ''localhost'' 4000 4001 True connected False False (desk_init [DeskConnect])
      = (Inl (UnixError ECONNREFUSED), w') \<and> desk_fds w' \<noteq> desk_fds (desk_init [DeskConnect])"
  by (cases connected)
    (simp_all add: udp_bidirectional_def createIPServerSocket_def connectIPSocket_def createIPClientSocket_def
      desk_os_def desk_unix_def desk_init_def desk_new_def desk_try_def desk_fresh_def desk_fds_def AI_hints_def
      addrinfo_zero_def Let_def)

section \<open>Rejected URIs\<close>



end
