(* ===== verification/Fixture_Model.thy ===== *)
theory Fixture_Model
  imports Driver_Open Desk_Os Driver_Read Driver_Write
begin

text \<open>
  The test harness of \<^verbatim>\<open>src/src/Fixture.hpp\<close> with the mock contexts of
  \<^verbatim>\<open>src/src/FixtureBoostTest.hpp\<close> and \<^verbatim>\<open>src/src/FixtureGTest.hpp\<close>: a driver, the buffer for
  its packets, and the \<^verbatim>\<open>TestStream\<close> behind it, which is found through the driver's pointer.
\<close>

record 't fixture =
  packetBuffer :: "byte list"
  fx_driver :: "'t driver"

definition Fixture_init :: "'t driver \<Rightarrow> 't fixture" where
  "Fixture_init d = \<lparr>packetBuffer = replicate (nat (MAX_PACKET_SIZE d)) 0, fx_driver = d\<rparr>"

text \<open>\<^verbatim>\<open>dynamic_cast\<close> gives a null pointer when the stream is of another class.\<close>

definition getStream ::
  "'t::linordered_ab_group_add time_ops \<Rightarrow> ('o, 't) os \<Rightarrow> 't fixture \<Rightarrow> 'o heap
     \<Rightarrow> ptr option \<times> 't fixture \<times> 'o heap" where
  "getStream T os f w =
     (let (d1, w1) =
        (if getMainStream (fx_driver f) = None
         then (case openTestMode T os (fx_driver f) w of (_, d1, w1) \<Rightarrow> (d1, w1))
         else (fx_driver f, w))
      in (if has_test_stream d1 w1 then getMainStream d1 else None, f\<lparr>fx_driver := d1\<rparr>, w1))"

text \<open>\<^verbatim>\<open>getStream()->op(...)\<close>; a call through the null pointer is undefined.\<close>

definition on_test ::
  "'t::linordered_ab_group_add time_ops \<Rightarrow> ('o, 't) os \<Rightarrow> (test_stream \<Rightarrow> (exn + 'a) \<times> test_stream)
     \<Rightarrow> 't fixture \<Rightarrow> 'o heap \<Rightarrow> (exn + 'a) \<times> 't fixture \<times> 'o heap" where
  "on_test T os g f w =
     (case getStream T os f w of (p, f1, w1) \<Rightarrow>
        (case p of
           None \<Rightarrow> (Inl UndefinedBehaviour, f1, w1)
         | Some q \<Rightarrow>
             (case h_streams w1 q of
                Some (Test s) \<Rightarrow>
                  (case g s of (r, s1) \<Rightarrow> (r, f1, w1\<lparr>h_streams := (h_streams w1)(q \<mapsto> Test s1)\<rparr>))
              | _ \<Rightarrow> (Inl UndefinedBehaviour, f1, w1))))"

definition Fixture_readPacket ::
  "'t::linordered_ab_group_add time_ops \<Rightarrow> ('o, 't) os \<Rightarrow> (byte list \<Rightarrow> int) \<Rightarrow> 't fixture \<Rightarrow> 'o heap
     \<Rightarrow> ((exn + byte list) \<times> 't fixture \<times> 'o heap) option" where
  "Fixture_readPacket T os ext f w =
     map_option (\<lambda>(r, d1, buffer1, w1).
         (map_sum id (\<lambda>n. take n buffer1) r, f\<lparr>packetBuffer := buffer1, fx_driver := d1\<rparr>, w1))
       (readPacket_default (sys_env T os) ext (packetBuffer f) (int (length (packetBuffer f)))
          (fx_driver f) w)"

definition Fixture_writePacket ::
  "'t::linordered_ab_group_add time_ops \<Rightarrow> ('o, 't) os \<Rightarrow> byte list \<Rightarrow> 't fixture \<Rightarrow> 'o heap
     \<Rightarrow> ((exn + unit) \<times> 't fixture \<times> 'o heap) option" where
  "Fixture_writePacket T os buffer f w =
     map_option (\<lambda>(r, d1, w1). (map_sum id (\<lambda>_. ()) r, f\<lparr>fx_driver := d1\<rparr>, w1))
       (writePacket_default (fromMicroseconds T) (toMilliseconds T) (sys_env T os) buffer
          (int (length buffer)) (fx_driver f) w)"

definition Fixture_pushDataToDriver ::
  "'t::linordered_ab_group_add time_ops \<Rightarrow> ('o, 't) os \<Rightarrow> byte list \<Rightarrow> 't fixture \<Rightarrow> 'o heap
     \<Rightarrow> (exn + unit) \<times> 't fixture \<times> 'o heap" where
  "Fixture_pushDataToDriver T os data = on_test T os (\<lambda>s. (Inr (), pushDataToDriver data s))"

definition Fixture_readDataFromDriver ::
  "'t::linordered_ab_group_add time_ops \<Rightarrow> ('o, 't) os \<Rightarrow> 't fixture \<Rightarrow> 'o heap
     \<Rightarrow> (exn + byte list) \<times> 't fixture \<times> 'o heap" where
  "Fixture_readDataFromDriver T os =
     on_test T os (\<lambda>s. case readDataFromDriver s of (bs, s1) \<Rightarrow> (Inr bs, s1))"

definition getQueuedBytes :: "'t fixture \<Rightarrow> u32 \<times> 't fixture" where
  "getQueuedBytes f =
     (case getStatus (fx_driver f) of (s, d1) \<Rightarrow> (queued_bytes s, f\<lparr>fx_driver := d1\<rparr>))"

definition Fixture_EXPECT_REPLY ::
  "'t::linordered_ab_group_add time_ops \<Rightarrow> ('o, 't) os \<Rightarrow> byte list \<Rightarrow> byte list \<Rightarrow> 't fixture \<Rightarrow> 'o heap
     \<Rightarrow> (exn + unit) \<times> 't fixture \<times> 'o heap" where
  "Fixture_EXPECT_REPLY T os expectation reply = on_test T os (EXPECT_REPLY expectation reply)"

definition validateExpectationsAreEmpty ::
  "'t::linordered_ab_group_add time_ops \<Rightarrow> ('o, 't) os \<Rightarrow> 't fixture \<Rightarrow> 'o heap
     \<Rightarrow> (exn + unit) \<times> 't fixture \<times> 'o heap" where
  "validateExpectationsAreEmpty T os =
     on_test T os (\<lambda>s. (if \<not> expectationsAreEmpty s then Inl TestEndsWithExpectationsLeft else Inr (), s))"

definition Fixture_setMockMode ::
  "'t::linordered_ab_group_add time_ops \<Rightarrow> ('o, 't) os \<Rightarrow> bool \<Rightarrow> 't fixture \<Rightarrow> 'o heap
     \<Rightarrow> (exn + unit) \<times> 't fixture \<times> 'o heap" where
  "Fixture_setMockMode T os mode = on_test T os (\<lambda>s. (Inr (), setMockMode mode s))"

definition Fixture_clearExpectations ::
  "'t::linordered_ab_group_add time_ops \<Rightarrow> ('o, 't) os \<Rightarrow> 't fixture \<Rightarrow> 'o heap
     \<Rightarrow> (exn + unit) \<times> 't fixture \<times> 'o heap" where
  "Fixture_clearExpectations T os = on_test T os (\<lambda>s. (Inr (), clearExpectations s))"

section \<open>The mock contexts\<close>

text \<open>Sequencing; the value of the whole is whether the test is marked as failed.\<close>

definition then_fixture ::
  "(exn + 'a) \<times> 't fixture \<times> 'o heap \<Rightarrow> ('a \<Rightarrow> 't fixture \<Rightarrow> 'o heap \<Rightarrow> (exn + 'b) \<times> 't fixture \<times> 'o heap)
     \<Rightarrow> (exn + 'b) \<times> 't fixture \<times> 'o heap" where
  "then_fixture r k = (case r of (Inl e, f, w) \<Rightarrow> (Inl e, f, w) | (Inr x, f, w) \<Rightarrow> k x f w)"

definition tearDown ::
  "'t::linordered_ab_group_add time_ops \<Rightarrow> ('o, 't) os \<Rightarrow> 't fixture \<Rightarrow> 'o heap
     \<Rightarrow> (exn + bool) \<times> 't fixture \<times> 'o heap" where
  "tearDown T os f w =
     (case validateExpectationsAreEmpty T os f w of
        (Inl TestEndsWithExpectationsLeft, r) \<Rightarrow> (Inr True, r)
      | (Inl e, r) \<Rightarrow> (Inl e, r)
      | (Inr _, r) \<Rightarrow> (Inr False, r))"

definition MockContext_init ::
  "'t::linordered_ab_group_add time_ops \<Rightarrow> ('o, 't) os \<Rightarrow> 't fixture \<Rightarrow> 'o heap
     \<Rightarrow> (exn + unit) \<times> 't fixture \<times> 'o heap" where
  "MockContext_init T os = Fixture_setMockMode T os True"

definition BoostMockContext_destroy ::
  "'t::linordered_ab_group_add time_ops \<Rightarrow> ('o, 't) os \<Rightarrow> 't fixture \<Rightarrow> 'o heap
     \<Rightarrow> (exn + bool) \<times> 't fixture \<times> 'o heap" where
  "BoostMockContext_destroy T os f w =
     then_fixture (tearDown T os f w) (\<lambda>failed f1 w1.
     then_fixture (Fixture_setMockMode T os False f1 w1) (\<lambda>_ f2 w2. (Inr failed, f2, w2)))"

definition GTestMockContext_destroy ::
  "'t::linordered_ab_group_add time_ops \<Rightarrow> ('o, 't) os \<Rightarrow> 't fixture \<Rightarrow> 'o heap
     \<Rightarrow> (exn + bool) \<times> 't fixture \<times> 'o heap" where
  "GTestMockContext_destroy T os f w =
     then_fixture (Fixture_setMockMode T os False f w) (\<lambda>_ f1 w1.
     then_fixture (Fixture_clearExpectations T os f1 w1) (\<lambda>_. tearDown T os))"

section \<open>Lemmas\<close>

text \<open>A fixture whose driver is open on a test stream.\<close>

definition test_stream_of :: "'t fixture \<Rightarrow> 'o heap \<Rightarrow> test_stream option" where
  "test_stream_of f w =
     (case m_stream (fx_driver f) of
        None \<Rightarrow> None
      | Some p \<Rightarrow> (case h_streams w p of Some (Test s) \<Rightarrow> Some s | _ \<Rightarrow> None))"

lemma on_test_open:
  assumes "test_stream_of f w = Some s" "g s = (r, s1)"
  shows "\<exists>w1. on_test T os g f w = (r, f, w1) \<and> test_stream_of f w1 = Some s1"
proof -
  obtain p where p: "m_stream (fx_driver f) = Some p" "h_streams w p = Some (Test s)"
    using assms(1) by (auto simp: test_stream_of_def split: option.splits stream.splits)
  then have "getStream T os f w = (Some p, f, w)"
    by (simp add: getStream_def getMainStream_def has_test_stream_def)
  with p assms(2) show ?thesis by (simp add: on_test_def test_stream_of_def)
qed

text \<open>The harness opens a test stream by itself.\<close>

lemma on_test_closed:
  assumes "m_stream (fx_driver f) = None"
  shows "on_test T os g f w = on_test T os g
    (f\<lparr>fx_driver := (fx_driver f)\<lparr>m_stream := Some (Ptr (h_next w))\<rparr>\<rparr>)
    (w\<lparr>h_streams := (h_streams w)(Ptr (h_next w) \<mapsto> Test TestStream_init), h_next := h_next w + 1\<rparr>)"
  using assms
  by (simp add: on_test_def getStream_def getMainStream_def openTestMode_def install_def new_stream_def Let_def
      setMainStream_def delete_stream_def has_test_stream_def)

lemma tearDown_open:
  assumes "test_stream_of f w = Some s"
  shows "\<exists>w1. tearDown T os f w = (Inr (expectations s \<noteq> []), f, w1) \<and> test_stream_of f w1 = Some s"
proof -
  let ?g = "\<lambda>s. (if \<not> expectationsAreEmpty s then Inl TestEndsWithExpectationsLeft else Inr (), s)"
  have "?g s = (if expectations s \<noteq> [] then Inl TestEndsWithExpectationsLeft else Inr (), s)"
    by (simp add: expectationsAreEmpty_def)
  from on_test_open [where g = ?g and T = T and os = os, OF assms this] obtain w1 where
    "validateExpectationsAreEmpty T os f w
      = (if expectations s \<noteq> [] then Inl TestEndsWithExpectationsLeft else Inr (), f, w1)"
    "test_stream_of f w1 = Some s"
    unfolding validateExpectationsAreEmpty_def by blast
  then show ?thesis by (cases "expectations s = []") (simp_all add: tearDown_def)
qed

lemma setMockMode_open:
  assumes "test_stream_of f w = Some s"
  shows "\<exists>w1. Fixture_setMockMode T os b f w = (Inr (), f, w1) \<and> test_stream_of f w1 = Some (setMockMode b s)"
  unfolding Fixture_setMockMode_def by (rule on_test_open [OF assms]) simp

lemma clearExpectations_open:
  assumes "test_stream_of f w = Some s"
  shows "\<exists>w1. Fixture_clearExpectations T os f w = (Inr (), f, w1) \<and> test_stream_of f w1 = Some (clearExpectations s)"
  unfolding Fixture_clearExpectations_def by (rule on_test_open [OF assms]) simp

text \<open>C35 The mock protocol. On a test stream in mock mode, requests written one after the other are
  accepted if and only if they are the first of the expected requests, in order, each written whole;
  the canned replies are then queued for the driver in the same order, and what is left to expect is
  the rest; and the requests of a conversation that is accepted to the end leave nothing for the
  harness to report.\<close>

theorem mock_protocol:
  assumes "m_mock_mode s" "from_driver s = []" "test_stream_wf s"
  shows "(\<exists>s'. write_all ms s = (Inr (), s')) = (\<exists>es. expectations s = ms @ es)
    \<and> (\<forall>es. expectations s = ms @ es \<longrightarrow>
        write_all ms s = (Inr (), s\<lparr>to_driver := to_driver s @ concat (take (length ms) (replies s)),
          expectations := es, replies := drop (length ms) (replies s)\<rparr>))
    \<and> (\<forall>s'. write_all ms s = (Inr (), s') \<longrightarrow> expectationsAreEmpty s' = (expectations s = ms))"
proof (intro conjI allI impI)
  show "(\<exists>s'. write_all ms s = (Inr (), s')) = (\<exists>es. expectations s = ms @ es)"
    using write_all_accepts [OF assms] write_all_rejects [OF assms] by blast
  show "write_all ms s = (Inr (), s\<lparr>to_driver := to_driver s @ concat (take (length ms) (replies s)),
          expectations := es, replies := drop (length ms) (replies s)\<rparr>)" if "expectations s = ms @ es" for es
    by (rule write_all_accepts [OF assms that])
  show "expectationsAreEmpty s' = (expectations s = ms)" if "write_all ms s = (Inr (), s')" for s'
    using write_all_rejects [OF assms that] by (auto simp: expectationsAreEmpty_def)
qed

theorem mock_protocol_witness:
  "\<exists>s'. write_all [[1, 2], [3]] \<lparr>to_driver = [], from_driver = [], expectations = [[1, 2], [3]], replies = [[9], [8, 7]],
     m_mock_mode = True, m_eof = False\<rparr> = (Inr (), s') \<and> to_driver s' = [9, 8, 7] \<and> expectationsAreEmpty s'"
  using mock_protocol [of "\<lparr>to_driver = [], from_driver = [], expectations = [[1, 2], [3]], replies = [[9], [8, 7]],
     m_mock_mode = True, m_eof = False\<rparr>" "[[1, 2], [3]]"]
  by (simp add: test_stream_wf_def expectationsAreEmpty_def)

text \<open>C36 When a test with Boost ends, its mock context marks the test as failed exactly when
  expectations are left, and leaves mock mode. The harness works as well on a driver that is not
  open: entering the context opens a test stream, in mock mode and with nothing to expect.\<close>

theorem BoostMockContext_reports:
  "(\<forall>s. test_stream_of f w = Some s \<longrightarrow>
      (\<exists>w'. BoostMockContext_destroy T os f w = (Inr (expectations s \<noteq> []), f, w')
         \<and> test_stream_of f w' = Some (setMockMode False s)))
   \<and> (m_stream (fx_driver f) = None \<longrightarrow>
      (\<exists>f' w'. MockContext_init T os f w = (Inr (), f', w')
         \<and> test_stream_of f' w' = Some (setMockMode True TestStream_init)))"
proof (intro conjI allI impI)
  fix s
  assume s: "test_stream_of f w = Some s"
  from tearDown_open [OF s] obtain w1 where
    w1: "tearDown T os f w = (Inr (expectations s \<noteq> []), f, w1)" "test_stream_of f w1 = Some s" by blast
  from setMockMode_open [OF w1(2)] obtain w2 where
    "Fixture_setMockMode T os False f w1 = (Inr (), f, w2)" "test_stream_of f w2 = Some (setMockMode False s)"
    by blast
  with w1 show "\<exists>w'. BoostMockContext_destroy T os f w = (Inr (expectations s \<noteq> []), f, w')
      \<and> test_stream_of f w' = Some (setMockMode False s)"
    by (simp add: BoostMockContext_destroy_def then_fixture_def)
next
  assume closed: "m_stream (fx_driver f) = None"
  show "\<exists>f' w'. MockContext_init T os f w = (Inr (), f', w')
         \<and> test_stream_of f' w' = Some (setMockMode True TestStream_init)"
    unfolding MockContext_init_def Fixture_setMockMode_def on_test_closed [OF closed]
    by (rule exI, rule on_test_open) (simp_all add: test_stream_of_def)
qed

theorem BoostMockContext_reports_witness:
  "\<exists>s w'. expectations s = [[1]] \<and> BoostMockContext_destroy us_ops desk_os
       \<lparr>packetBuffer = [], fx_driver = projr (Driver_init (\<lambda>_. 0) 8 False)\<lparr>m_stream := Some (Ptr 0)\<rparr>\<rparr>
       \<lparr>h_streams = Map.empty(Ptr 0 \<mapsto> Test s), h_listeners = Map.empty, h_next = 1, h_os = desk_init []\<rparr>
     = (Inr True, \<lparr>packetBuffer = [], fx_driver = projr (Driver_init (\<lambda>_. 0) 8 False)\<lparr>m_stream := Some (Ptr 0)\<rparr>\<rparr>, w')"
proof -
  let ?s = "snd (EXPECT_REPLY [1] [2] (setMockMode True TestStream_init))"
  let ?f = "\<lparr>packetBuffer = [], fx_driver = (projr (Driver_init (\<lambda>_. 0) 8 False) :: int driver)\<lparr>m_stream := Some (Ptr 0)\<rparr>\<rparr>"
  let ?w = "\<lparr>h_streams = Map.empty(Ptr 0 \<mapsto> Test ?s), h_listeners = Map.empty, h_next = 1, h_os = desk_init []\<rparr>"
  have s: "expectations ?s = [[1]]" by (simp add: EXPECT_REPLY_def setMockMode_def TestStream_init_def)
  have "test_stream_of ?f ?w = Some ?s" by (simp add: test_stream_of_def)
  with BoostMockContext_reports [of ?f ?w us_ops desk_os] s show ?thesis by fastforce
qed

text \<open>The context for Google Test clears the expectations before it looks at them, so it never marks
  a test as failed.\<close>

lemma GTestMockContext_never_reports:
  assumes "test_stream_of f w = Some s"
  shows "\<exists>w'. GTestMockContext_destroy T os f w = (Inr False, f, w')"
proof -
  from setMockMode_open [OF assms] obtain w1 where
    1: "Fixture_setMockMode T os False f w = (Inr (), f, w1)" "test_stream_of f w1 = Some (setMockMode False s)"
    by blast
  from clearExpectations_open [OF 1(2)] obtain w2 where
    2: "Fixture_clearExpectations T os f w1 = (Inr (), f, w2)"
      "test_stream_of f w2 = Some (clearExpectations (setMockMode False s))"
    by blast
  from tearDown_open [OF 2(2)] 1 2 show ?thesis
    by (auto simp: GTestMockContext_destroy_def then_fixture_def clearExpectations_def)
qed

end
