(* ===== verification/Com_Format.thy ===== *)
theory Com_Format
  imports Iodrivers_Prelude "HOL-Library.Word"
begin

text \<open>
  \<^verbatim>\<open>Driver::printable_com\<close> and \<^verbatim>\<open>Driver::binary_com\<close> of \<^verbatim>\<open>src/src/Driver.cpp\<close>, which write a
  packet for a log.
\<close>

unbundle bit_operations_syntax

section \<open>The functions\<close>

definition printable_char :: "char \<Rightarrow> string" where
  "printable_char c =
     (if (of_char c :: nat) = 0 then [CHR 0x5C, CHR ''x'', CHR ''0'', CHR ''0'']
      else if c = CHR 0x0A then [CHR 0x5C, CHR ''n'']
      else if c = CHR 0x0D then [CHR 0x5C, CHR ''r'']
      else [c])"

definition printable_com :: "string \<Rightarrow> string" where
  "printable_com str = [CHR 0x22] @ concat (map printable_char str) @ [CHR 0x22]"

text \<open>\<^verbatim>\<open>hex\<close> output of a number below sixteen; \<^verbatim>\<open>char\<close> is signed, so its code is sign-extended
  before the two digits are masked out.\<close>

definition hex_digit :: "32 word \<Rightarrow> char" where
  "hex_digit n = (if n < 10 then char_of (48 + unat n) else char_of (87 + unat n))"

definition binary_com :: "string \<Rightarrow> string" where
  "binary_com str =
     concat (map (\<lambda>c.
       let code = scast (of_nat (of_char c) :: 8 word) :: 32 word
       in [hex_digit (drop_bit 4 (code AND 0xF0)), hex_digit (code AND 0xF)]) str)"

section \<open>Reading them back\<close>

definition hex_value :: "char \<Rightarrow> nat" where
  "hex_value c = (if of_char c < (58 :: nat) then of_char c - 48 else of_char c - 87)"

fun unhex :: "string \<Rightarrow> string" where
  "unhex (a # b # s) = char_of (16 * hex_value a + hex_value b) # unhex s"
| "unhex _ = []"

lemma hex_value_digit:
  assumes "n < 16"
  shows "hex_value (hex_digit n) = unat n"
proof -
  have "unat n < 16" using assms by (simp add: word_less_nat_alt)
  moreover have "n < 10 \<longleftrightarrow> unat n < 10" by (simp add: word_less_nat_alt)
  ultimately show ?thesis by (auto simp: hex_value_def hex_digit_def)
qed

lemma unat_byte: "unat (b :: 8 word) < 256"
  using unsigned_less [of b] by simp

lemma code_low: "(scast (b :: 8 word) :: 32 word) AND 0xFF = ucast b"
proof (rule bit_word_eqI)
  fix n
  assume "n < LENGTH(32)"
  have "(0xFF :: 32 word) = mask 8" by (simp add: mask_eq_exp_minus_1)
  then show "bit ((scast b :: 32 word) AND 0xFF) n = bit (ucast b :: 32 word) n"
    using \<open>n < LENGTH(32)\<close> unfolding \<open>0xFF = mask 8\<close> bit_and_iff bit_mask_iff
    by (cases "n = 7") (auto simp: bit_simps min_def dest: bit_imp_le_length)
qed

lemma nibbles:
  fixes b :: "8 word"
  shows "unat (drop_bit 4 ((scast b :: 32 word) AND 0xF0)) = unat b div 16"
    and "unat ((scast b :: 32 word) AND 0xF) = unat b mod 16"
proof -
  let ?u = "ucast b :: 32 word"
  have u: "unat ?u = unat b" by (simp add: unsigned_ucast_eq take_bit_nat_eq_self_iff order_less_trans [OF unsigned_less])
  have hi: "(scast b :: 32 word) AND 0xF0 = ?u AND 0xF0"
    using arg_cong [OF code_low [of b], of "\<lambda>x. x AND 0xF0"] by (simp add: and.assoc)
  have lo: "(scast b :: 32 word) AND 0xF = ?u AND 0xF"
    using arg_cong [OF code_low [of b], of "\<lambda>x. x AND 0xF"] by (simp add: and.assoc)
  have "drop_bit 4 (?u AND 0xF0) = drop_bit 4 ?u AND 0xF" by (simp add: drop_bit_and)
  also have "\<dots> = take_bit 4 (drop_bit 4 ?u)" by (simp add: take_bit_eq_mask mask_eq_exp_minus_1)
  finally show "unat (drop_bit 4 ((scast b :: 32 word) AND 0xF0)) = unat b div 16"
    unfolding hi using unat_byte [of b]
    by (simp only: unsigned_take_bit_eq unsigned_drop_bit_eq u) (simp add: take_bit_eq_mod drop_bit_eq_div)
  have "?u AND 0xF = take_bit 4 ?u" by (simp add: take_bit_eq_mask mask_eq_exp_minus_1)
  then show "unat ((scast b :: 32 word) AND 0xF) = unat b mod 16"
    unfolding lo by (simp only: unsigned_take_bit_eq u) (simp add: take_bit_eq_mod)
qed

text \<open>C37 \<^verbatim>\<open>binary_com\<close> loses nothing: it writes two lower-case digits for each byte, from which the
  bytes can be read back, also those above 127, whose \<^verbatim>\<open>char\<close> is negative.\<close>

theorem binary_com_roundtrip:
  "unhex (binary_com s) = s \<and> length (binary_com s) = 2 * length s"
proof (induction s)
  case (Cons c s)
  define b where "b = (of_nat (of_char c) :: 8 word)"
  have "unat b = of_char c" unfolding b_def by (simp add: unat_of_nat)
  have "16 * hex_value (hex_digit (drop_bit 4 ((scast b :: 32 word) AND 0xF0)))
      + hex_value (hex_digit ((scast b :: 32 word) AND 0xF)) = unat b"
  proof -
    have "drop_bit 4 ((scast b :: 32 word) AND 0xF0) < 16" "(scast b :: 32 word) AND 0xF < 16"
      unfolding word_less_nat_alt nibbles using unat_byte [of b] by simp_all
    then show ?thesis by (simp only: hex_value_digit nibbles) simp
  qed
  with Cons \<open>unat b = of_char c\<close> show ?case by (simp add: binary_com_def Let_def b_def)
qed (simp add: binary_com_def)

lemma printable_char_clean:
  "d \<in> set (printable_char c) \<Longrightarrow> (of_char d :: nat) \<noteq> 0 \<and> d \<noteq> CHR 0x0A \<and> d \<noteq> CHR 0x0D"
  by (auto simp: printable_char_def split: if_splits)

text \<open>What \<^verbatim>\<open>printable_com\<close> writes is one line in quotes: no null, newline or carriage return of
  the packet is left in it, and a packet that has none of them is written as it is.\<close>

theorem printable_com_one_line:
  "{c \<in> set (printable_com s). (of_char c :: nat) = 0 \<or> c = CHR 0x0A \<or> c = CHR 0x0D} = {}
   \<and> printable_com (filter (\<lambda>c. (of_char c :: nat) \<noteq> 0 \<and> c \<noteq> CHR 0x0A \<and> c \<noteq> CHR 0x0D) s)
     = [CHR 0x22] @ filter (\<lambda>c. (of_char c :: nat) \<noteq> 0 \<and> c \<noteq> CHR 0x0A \<and> c \<noteq> CHR 0x0D) s @ [CHR 0x22]"
proof -
  have "{c \<in> set (printable_com s). (of_char c :: nat) = 0 \<or> c = CHR 0x0A \<or> c = CHR 0x0D} = {}"
    by (auto simp: printable_com_def dest: printable_char_clean)
  moreover have "concat (map printable_char (filter (\<lambda>c. (of_char c :: nat) \<noteq> 0 \<and> c \<noteq> CHR 0x0A \<and> c \<noteq> CHR 0x0D) s))
    = filter (\<lambda>c. (of_char c :: nat) \<noteq> 0 \<and> c \<noteq> CHR 0x0A \<and> c \<noteq> CHR 0x0D) s"
    by (induction s) (simp_all add: printable_char_def)
  ultimately show ?thesis by (simp add: printable_com_def)
qed

text \<open>The escapes are not themselves escaped: two packets may be printed alike.\<close>

lemma printable_com_ambiguous: "printable_com [CHR 0x0A] = printable_com [CHR 0x5C, CHR ''n'']"
  by (simp add: printable_com_def printable_char_def)

end
