(* ===== verification/Bus_Model.thy ===== *)
theory Bus_Model
  imports Driver_Reading Driver_Writing
begin

text \<open>
  \<^verbatim>\<open>src/src/Bus.cpp\<close>: a driver whose packets are found by the parsers docked on it. A parser is
  a pointer; \<open>parse\<close> is its \<^verbatim>\<open>extractPacket\<close>, a method of a class outside the library, and
  \<open>is_handler\<close> tells whether it is a \<^verbatim>\<open>BusHandler\<close>. The mutex serialises the methods, which are
  modelled one at a time.
\<close>

section \<open>State\<close>

record 't bus =
  bus_driver :: "'t driver"
  bus_parsers :: "ptr list"
  bus_caller :: "ptr option"

definition Bus_init :: "(nat \<Rightarrow> byte) \<Rightarrow> int \<Rightarrow> bool \<Rightarrow> exn + 't::zero bus" where
  "Bus_init raw max_packet_size extract_last =
     map_sum id (\<lambda>d. \<lparr>bus_driver = d, bus_parsers = [], bus_caller = None\<rparr>)
       (Driver_init raw max_packet_size extract_last)"

definition addParser :: "ptr \<Rightarrow> 't bus \<Rightarrow> 't bus" where
  "addParser p b = b\<lparr>bus_parsers := bus_parsers b @ [p]\<rparr>"

text \<open>\<^verbatim>\<open>std::list::remove\<close> removes every occurrence.\<close>

definition removeParser :: "ptr \<Rightarrow> 't bus \<Rightarrow> 't bus" where
  "removeParser p b = b\<lparr>bus_parsers := removeAll p (bus_parsers b)\<rparr>"

definition BusHandler_init :: "ptr \<Rightarrow> bool \<Rightarrow> 't bus \<Rightarrow> 't bus" where
  "BusHandler_init this auto_register b = (if auto_register then addParser this b else b)"

definition BusHandler_destroy :: "ptr \<Rightarrow> 't bus \<Rightarrow> 't bus" where
  "BusHandler_destroy this b = removeParser this b"

section \<open>Extraction\<close>

text \<open>The loop over the parsers: the minimal amount, and the calls of \<^verbatim>\<open>packedReady\<close> with the size
  each was given.\<close>

fun bus_scan ::
  "(ptr \<Rightarrow> byte list \<Rightarrow> int) \<Rightarrow> (ptr \<Rightarrow> bool) \<Rightarrow> byte list \<Rightarrow> ptr list \<Rightarrow> int
     \<Rightarrow> int \<times> (ptr \<times> byte list \<times> int) list" where
  "bus_scan parse is_handler buffer [] minSkip = (minSkip, [])"
| "bus_scan parse is_handler buffer (p # ps) minSkip =
     (let tmp = parse p buffer;
          ready = (if tmp > 0 \<and> is_handler p then [(p, buffer, minSkip)] else []);
          minSkip' = (if \<bar>tmp\<bar> < minSkip then \<bar>tmp\<bar> else minSkip)
      in case bus_scan parse is_handler buffer ps minSkip' of (r, calls) \<Rightarrow> (r, ready @ calls))"

definition Bus_extractPacket ::
  "(ptr \<Rightarrow> byte list \<Rightarrow> int) \<Rightarrow> (ptr \<Rightarrow> bool) \<Rightarrow> 't bus \<Rightarrow> byte list
     \<Rightarrow> int \<times> (ptr \<times> byte list \<times> int) list" where
  "Bus_extractPacket parse is_handler b buffer =
     (case bus_caller b of
        Some p \<Rightarrow> (parse p buffer, [])
      | None \<Rightarrow> bus_scan parse is_handler buffer (bus_parsers b) (int (length buffer)))"

section \<open>Reading and writing\<close>

text \<open>The caller is reset when the read throws, and stays when it returns.\<close>

definition Bus_readPacket ::
  "(int \<Rightarrow> 't) \<Rightarrow> ('w, 't::linordered_ab_group_add) env \<Rightarrow> (ptr \<Rightarrow> byte list \<Rightarrow> int) \<Rightarrow> (ptr \<Rightarrow> bool)
     \<Rightarrow> byte list \<Rightarrow> int \<Rightarrow> int \<Rightarrow> int \<Rightarrow> ptr option \<Rightarrow> 't bus \<Rightarrow> 'w
     \<Rightarrow> ((exn + nat) \<times> 't bus \<times> byte list \<times> 'w) option" where
  "Bus_readPacket fromMilliseconds env parse is_handler buffer buffer_size packet_timeout
     first_byte_timeout parser b w =
     (let b1 = b\<lparr>bus_caller := parser\<rparr> in
      map_option (\<lambda>(r, d, buffer', w').
          (r, b1\<lparr>bus_driver := d, bus_caller := (case r of Inl _ \<Rightarrow> None | Inr _ \<Rightarrow> parser)\<rparr>, buffer', w'))
        (readPacket_ms fromMilliseconds env (\<lambda>bs. fst (Bus_extractPacket parse is_handler b1 bs))
           buffer buffer_size packet_timeout first_byte_timeout (bus_driver b1) w))"

definition Parser_readPacket ::
  "(int \<Rightarrow> 't) \<Rightarrow> ('w, 't::linordered_ab_group_add) env \<Rightarrow> (ptr \<Rightarrow> byte list \<Rightarrow> int) \<Rightarrow> (ptr \<Rightarrow> bool)
     \<Rightarrow> byte list \<Rightarrow> int \<Rightarrow> int \<Rightarrow> int \<Rightarrow> ptr \<Rightarrow> 't bus \<Rightarrow> 'w
     \<Rightarrow> ((exn + nat) \<times> 't bus \<times> byte list \<times> 'w) option" where
  "Parser_readPacket fromMilliseconds env parse is_handler buffer buffer_size packet_timeout
     first_byte_timeout this =
     Bus_readPacket fromMilliseconds env parse is_handler buffer buffer_size packet_timeout
       first_byte_timeout (Some this)"

definition BusHandler_readPacket ::
  "(int \<Rightarrow> 't) \<Rightarrow> ('w, 't::linordered_ab_group_add) env \<Rightarrow> (ptr \<Rightarrow> byte list \<Rightarrow> int) \<Rightarrow> (ptr \<Rightarrow> bool)
     \<Rightarrow> byte list \<Rightarrow> int \<Rightarrow> int \<Rightarrow> int \<Rightarrow> 't bus \<Rightarrow> 'w
     \<Rightarrow> ((exn + nat) \<times> 't bus \<times> byte list \<times> 'w) option" where
  "BusHandler_readPacket fromMilliseconds env parse is_handler buffer buffer_size packet_timeout
     first_byte_timeout =
     Bus_readPacket fromMilliseconds env parse is_handler buffer buffer_size packet_timeout
       first_byte_timeout None"

definition Bus_writePacket ::
  "(int \<Rightarrow> 't) \<Rightarrow> ('w, 't) env \<Rightarrow> byte list \<Rightarrow> int \<Rightarrow> int \<Rightarrow> 't bus \<Rightarrow> 'w
     \<Rightarrow> ((exn + bool) \<times> 't bus \<times> 'w) option" where
  "Bus_writePacket fromMicroseconds env buffer buffer_size timeout b w =
     map_option (\<lambda>(r, d, w'). (r, b\<lparr>bus_driver := d\<rparr>, w'))
       (writePacket_ms fromMicroseconds env buffer buffer_size timeout (bus_driver b) w)"

definition Parser_writePacket ::
  "(int \<Rightarrow> 't) \<Rightarrow> ('w, 't) env \<Rightarrow> byte list \<Rightarrow> int \<Rightarrow> int \<Rightarrow> 't bus \<Rightarrow> 'w
     \<Rightarrow> ((exn + bool) \<times> 't bus \<times> 'w) option" where
  "Parser_writePacket fromMicroseconds env buffer bufsize timeout =
     Bus_writePacket fromMicroseconds env buffer bufsize timeout"

section \<open>What the scan finds\<close>

lemma bus_scan_fst:
  "0 \<le> m \<Longrightarrow> fst (bus_scan parse h bs ps m) = Min (insert m ((\<lambda>p. \<bar>parse p bs\<bar>) ` set ps))"
proof (induction ps arbitrary: m)
  case (Cons p ps)
  let ?m = "if \<bar>parse p bs\<bar> < m then \<bar>parse p bs\<bar> else m"
  have "fst (bus_scan parse h bs (p # ps) m) = fst (bus_scan parse h bs ps ?m)"
    by (simp add: Let_def split: prod.split)
  also have "\<dots> = Min (insert ?m ((\<lambda>p. \<bar>parse p bs\<bar>) ` set ps))" using Cons.prems by (intro Cons.IH) simp
  also have "?m = min m \<bar>parse p bs\<bar>" by (simp add: min_def)
  also have "Min (insert (min m \<bar>parse p bs\<bar>) ((\<lambda>p. \<bar>parse p bs\<bar>) ` set ps))
    = Min (insert m ((\<lambda>p. \<bar>parse p bs\<bar>) ` set (p # ps)))"
    by (cases "set ps = {}") (simp_all add: Min_insert min.assoc)
  finally show ?case .
qed simp

lemma bus_scan_snd:
  "map fst (snd (bus_scan parse h bs ps m)) = filter (\<lambda>p. 0 < parse p bs \<and> h p) ps
   \<and> (\<forall>c \<in> set (snd (bus_scan parse h bs ps m)). fst (snd c) = bs)"
proof (induction ps arbitrary: m)
  case (Cons p ps)
  let ?m = "if \<bar>parse p bs\<bar> < m then \<bar>parse p bs\<bar> else m"
  obtain r calls where c: "bus_scan parse h bs ps ?m = (r, calls)" by fastforce
  then have "bus_scan parse h bs (p # ps) m
      = (r, (if 0 < parse p bs \<and> h p then [(p, bs, m)] else []) @ calls)"
    by (simp add: Let_def)
  then show ?case using Cons.IH [of ?m] c by (cases "0 < parse p bs \<and> h p") (simp_all only: snd_conv fst_conv, auto)
qed simp

lemma bus_extractor:
  assumes "\<And>p. packet_extractor (parse p)"
  shows "packet_extractor (\<lambda>bs. fst (Bus_extractPacket parse h b bs))"
proof (cases "bus_caller b")
  case None
  show ?thesis
  proof
    fix bs :: "byte list"
    assume "bs \<noteq> []"
    let ?M = "insert (int (length bs)) ((\<lambda>p. \<bar>parse p bs\<bar>) ` set (bus_parsers b))"
    have m: "fst (Bus_extractPacket parse h b bs) = Min ?M"
      using None by (simp add: Bus_extractPacket_def bus_scan_fst)
    have "Min ?M \<le> int (length bs)" by (rule Min_le) simp_all
    moreover have "0 \<le> Min ?M" by (subst Min_ge_iff) auto
    ultimately show "- int (length bs) \<le> fst (Bus_extractPacket parse h b bs)"
      "fst (Bus_extractPacket parse h b bs) \<le> int (length bs)"
      unfolding m by linarith+
  qed
next
  case (Some p)
  then show ?thesis using assms [of p] by (simp add: Bus_extractPacket_def)
qed

section \<open>Reading through the bus\<close>

text \<open>What C1 says of a driver, said of a bus: a read through it frames the bytes with the extractor of
  its caller, leaves the list of parsers alone, and keeps the caller unless it throws.\<close>

lemma Bus_readPacket_correct:
  fixes b :: "'t::linordered_ab_group_add bus"
  assumes "io_contract env" "\<And>p. packet_extractor (parse p)"
    and "driver_wf (bus_driver b)" "m_stream (bus_driver b) = Some q"
    and "MAX_PACKET_SIZE (bus_driver b) \<le> bufsize" "nat (MAX_PACKET_SIZE (bus_driver b)) \<le> length buffer"
    and "Bus_readPacket fromMs env parse h buffer bufsize pt fb c b w = Some (res, b', buffer', w')"
  defines "p_time \<equiv> fromMs pt" and "f_time \<equiv> fromMs (if fb = - 1 then pt else fb)"
    and "ext \<equiv> \<lambda>bs. fst (Bus_extractPacket parse h (b\<lparr>bus_caller := c\<rparr>) bs)"
  shows "bus_parsers b' = bus_parsers b
    \<and> bus_caller b' = (case res of Inl _ \<Rightarrow> None | Inr _ \<Rightarrow> c)
    \<and> (\<exists>t0 es ps. io_run env w (EvNow t0 # es) w'
        \<and> reads_as ext q (bus_driver b) es ps (bus_driver b')
        \<and> packet_post ext q p_time (t0 + min p_time f_time) (t0 + p_time) FIRST_BYTE
            (bus_driver b) es ps res (bus_driver b') buffer')"
proof -
  from assms(7) obtain d where
    r: "readPacket env ext buffer bufsize p_time f_time (bus_driver b) w = Some (res, d, buffer', w')"
    and b': "b' = b\<lparr>bus_driver := d, bus_caller := (case res of Inl _ \<Rightarrow> None | Inr _ \<Rightarrow> c)\<rparr>"
    unfolding ext_def p_time_def f_time_def
    by (auto simp: Bus_readPacket_def readPacket_ms_def Let_def)
  have "packet_extractor ext" unfolding ext_def using assms(2) by (rule bus_extractor)
  note reads = driver_env.readPacket_reads [OF driver_env.intro [OF assms(1) this] r assms(3-6)]
  have "\<exists>t0 es ps. io_run env w (EvNow t0 # es) w' \<and> reads_as ext q (bus_driver b) es ps d
    \<and> packet_post ext q p_time (t0 + min p_time f_time) (t0 + p_time) FIRST_BYTE (bus_driver b) es ps res d buffer'"
    by (rule reads) blast
  then show ?thesis unfolding b' by simp
qed

text \<open>Two parsers of the class tested in \<^verbatim>\<open>src/test/test_Driver.cpp\<close>, docked on one bus.\<close>

definition demo_bus :: "ptr option \<Rightarrow> int bus" where
  "demo_bus c = \<lparr>bus_driver = demo_driver False, bus_parsers = [Ptr 11, Ptr 12], bus_caller = c\<rparr>"

interpretation bus: packet_extractor
  "\<lambda>bs. fst (Bus_extractPacket (\<lambda>_. DriverTest_extractPacket) h b bs)" for h b
  by (rule bus_extractor) (rule extractor_contracts)



text \<open>The sign is lost: a byte that every parser rejects is handed out as a packet of one byte.\<close>

lemma bus_rejected_byte_is_packet:
  "DriverTest_extractPacket [7, 0, 1, 2, 0] = - 1
   \<and> fst (Bus_extractPacket (\<lambda>_. DriverTest_extractPacket) (\<lambda>_. True) (demo_bus None) [7, 0, 1, 2, 0]) = 1"
  by code_simp

text \<open>A handler is given the size of what was found before it, not of its packet.\<close>

lemma bus_handler_gets_wrong_size:
  "snd (Bus_extractPacket (\<lambda>_. DriverTest_extractPacket) (\<lambda>_. True) (demo_bus None) [0, 1, 2, 0, 5])
   = [(Ptr 11, [0, 1, 2, 0, 5], 5), (Ptr 12, [0, 1, 2, 0, 5], 4)]"
  by code_simp

end
