(* ===== verification/Tcp_Model.thy ===== *)
theory Tcp_Model
  imports Open_Correct Driver_Reading Driver_Writing
begin

text \<open>
  \<^verbatim>\<open>src/src/TCPDriver.cpp\<close>: a driver that listens on a port, serves one client at a time and
  drops it for the next one that connects. The two descriptors are not initialised by the
  constructor; \<open>None\<close> is such a member, and its use is undefined. Output with \<^verbatim>\<open>printf\<close> is left
  out.
\<close>

record 't tcp_driver =
  tcp_driver :: "'t driver"
  socked_fd :: "int option"
  client_fd :: "int option"

text \<open>\<open>ignored_sigpipe\<close> is whether \<^verbatim>\<open>signal(SIGPIPE, SIG_IGN)\<close> succeeded.\<close>

definition TCPDriver_init ::
  "'o unix \<Rightarrow> (nat \<Rightarrow> byte) \<Rightarrow> int \<Rightarrow> bool \<Rightarrow> bool \<Rightarrow> 'o \<Rightarrow> exn + 't::zero tcp_driver" where
  "TCPDriver_init S raw max_packet_size extract_last ignored_sigpipe w =
     (case Driver_init raw max_packet_size extract_last of
        Inl e \<Rightarrow> Inl e
      | Inr d \<Rightarrow>
          if \<not> ignored_sigpipe then Inl (UnixError (sys_errno S w))
          else Inr \<lparr>tcp_driver = d, socked_fd = None, client_fd = None\<rparr>)"

text \<open>\<^verbatim>\<open>htons\<close> puts the high byte of the port first; \<open>zero\<close> is what the member \<^verbatim>\<open>sin_zero\<close> of the
  variable on the stack holds.\<close>

definition server_address :: "byte list \<Rightarrow> int \<Rightarrow> byte list" where
  "server_address zero port =
     [2, 0, word_of_int (port div 256), word_of_int port, 0, 0, 0, 0] @ zero"

definition F_SETFL_NONBLOCK :: "64 word" where "F_SETFL_NONBLOCK = O_NONBLOCK"

definition tcp_server_init ::
  "('o, 't) os \<Rightarrow> 'o unix \<Rightarrow> byte list \<Rightarrow> int \<Rightarrow> 't tcp_driver \<Rightarrow> 'o heap
     \<Rightarrow> (exn + unit) \<times> 't tcp_driver \<times> 'o heap" where
  "tcp_server_init os S zero port t w =
     (case sys_socket S 2 SOCK_STREAM 0 (h_os w) of
        (None, o1) \<Rightarrow> (Inl (UnixError (sys_errno S o1)), t\<lparr>socked_fd := Some (- 1)\<rparr>, w\<lparr>h_os := o1\<rparr>)
      | (Some fd, o1) \<Rightarrow>
          let t1 = t\<lparr>socked_fd := Some fd\<rparr> in
          (case sys_bind S fd (server_address zero port) o1 of
             (ok, o2) \<Rightarrow>
               if \<not> ok then (Inl (UnixError (sys_errno S o2)), t1, w\<lparr>h_os := o2\<rparr>)
               else
                 (case sys_listen S fd 5 o2 of
                    (_, o3) \<Rightarrow>
                      (case sys_setfl os fd F_SETFL_NONBLOCK o3 of
                         (_, o4) \<Rightarrow> (Inr (), t1\<lparr>client_fd := Some 0\<rparr>, w\<lparr>h_os := o4\<rparr>)))))"

definition checkClientConnection ::
  "'t::linordered_ab_group_add time_ops \<Rightarrow> ('o, 't) os \<Rightarrow> 't tcp_driver \<Rightarrow> 'o heap
     \<Rightarrow> (exn + unit) \<times> 't tcp_driver \<times> 'o heap" where
  "checkClientConnection T os t w =
     (case socked_fd t of
        None \<Rightarrow> (Inl UndefinedBehaviour, t, w)
      | Some listening \<Rightarrow>
          (case sys_accept os listening (h_os w) of
             (Inl _, o1) \<Rightarrow> (Inr (), t, w\<lparr>h_os := o1\<rparr>)
           | (Inr new_client, o1) \<Rightarrow>
               if new_client > 0 then
                 (case client_fd t of
                    None \<Rightarrow> (Inl UndefinedBehaviour, t, w\<lparr>h_os := o1\<rparr>)
                  | Some old \<Rightarrow>
                      let o2 = (if old \<noteq> 0 then sys_close os old o1 else o1);
                          t1 = t\<lparr>client_fd := Some new_client\<rparr> in
                      (case setFileDescriptor T os new_client False True (tcp_driver t1) (w\<lparr>h_os := o2\<rparr>) of
                         (r, d, w2) \<Rightarrow> (r, t1\<lparr>tcp_driver := d\<rparr>, w2)))
               else (Inr (), t, w\<lparr>h_os := o1\<rparr>)))"

definition TCPDriver_destroy ::
  "'t::linordered_ab_group_add time_ops \<Rightarrow> ('o, 't) os \<Rightarrow> 't tcp_driver \<Rightarrow> 'o heap \<Rightarrow> exn + 'o heap" where
  "TCPDriver_destroy T os t w =
     (case (socked_fd t, client_fd t) of
        (Some s, Some c) \<Rightarrow>
          (let o1 = sys_close os s (h_os w);
               o2 = (if c \<noteq> 0 then sys_close os c o1 else o1)
           in Inr (Driver_destroy (sys_env T os) (tcp_driver t) (w\<lparr>h_os := o2\<rparr>)))
      | _ \<Rightarrow> Inl UndefinedBehaviour)"

text \<open>\<open>catch (UnixError&)\<close>: a broken pipe drops the client and is no error, anything else is thrown
  again.\<close>

definition drop_broken_client ::
  "('o, 't) os \<Rightarrow> 'a \<Rightarrow> int \<Rightarrow> (exn + 'a) \<times> 't tcp_driver \<times> 'o heap \<Rightarrow> (exn + 'a) \<times> 't tcp_driver \<times> 'o heap" where
  "drop_broken_client os nothing client r =
     (case r of
        (Inl (UnixError e), t, w) \<Rightarrow>
          if e = 32 then (Inr nothing, t\<lparr>client_fd := Some 0\<rparr>, w\<lparr>h_os := sys_close os client (h_os w)\<rparr>)
          else (Inl (UnixError e), t, w)
      | _ \<Rightarrow> r)"

definition TCPDriver_readPacket ::
  "'t::linordered_ab_group_add time_ops \<Rightarrow> ('o, 't) os \<Rightarrow> (byte list \<Rightarrow> int) \<Rightarrow> byte list \<Rightarrow> int \<Rightarrow> 't \<Rightarrow> 't
     \<Rightarrow> 't tcp_driver \<Rightarrow> 'o heap \<Rightarrow> ((exn + nat) \<times> byte list \<times> 't tcp_driver \<times> 'o heap) option" where
  "TCPDriver_readPacket T os ext buffer bufsize packet_timeout first_byte_timeout t w =
     (case checkClientConnection T os t w of
        (Inl e, t1, w1) \<Rightarrow> Some (Inl e, buffer, t1, w1)
      | (Inr _, t1, w1) \<Rightarrow>
          (case client_fd t1 of
             None \<Rightarrow> Some (Inl UndefinedBehaviour, buffer, t1, w1)
           | Some client \<Rightarrow>
               if client \<noteq> 0 then
                 map_option (\<lambda>(r, d, buffer1, w2).
                     case drop_broken_client os 0 client (r, t1\<lparr>tcp_driver := d\<rparr>, w2) of
                       (r', t2, w3) \<Rightarrow> (r', buffer1, t2, w3))
                   (readPacket (sys_env T os) ext buffer bufsize packet_timeout first_byte_timeout
                      (tcp_driver t1) w1)
               else Some (Inr 0, buffer, t1, w1)))"

text \<open>The overload without timeouts has no handler.\<close>

definition TCPDriver_readPacket_default ::
  "'t::linordered_ab_group_add time_ops \<Rightarrow> ('o, 't) os \<Rightarrow> (byte list \<Rightarrow> int) \<Rightarrow> byte list \<Rightarrow> int
     \<Rightarrow> 't tcp_driver \<Rightarrow> 'o heap \<Rightarrow> ((exn + nat) \<times> byte list \<times> 't tcp_driver \<times> 'o heap) option" where
  "TCPDriver_readPacket_default T os ext buffer bufsize t w =
     (case checkClientConnection T os t w of
        (Inl e, t1, w1) \<Rightarrow> Some (Inl e, buffer, t1, w1)
      | (Inr _, t1, w1) \<Rightarrow>
          (case client_fd t1 of
             None \<Rightarrow> Some (Inl UndefinedBehaviour, buffer, t1, w1)
           | Some client \<Rightarrow>
               if client \<noteq> 0 then
                 map_option (\<lambda>(r, d, buffer1, w2). (r, buffer1, t1\<lparr>tcp_driver := d\<rparr>, w2))
                   (readPacket_default (sys_env T os) ext buffer bufsize (tcp_driver t1) w1)
               else Some (Inr 0, buffer, t1, w1)))"

definition TCPDriver_writePacket ::
  "'t::linordered_ab_group_add time_ops \<Rightarrow> ('o, 't) os \<Rightarrow> byte list \<Rightarrow> int \<Rightarrow> 't
     \<Rightarrow> 't tcp_driver \<Rightarrow> 'o heap \<Rightarrow> ((exn + bool) \<times> 't tcp_driver \<times> 'o heap) option" where
  "TCPDriver_writePacket T os buffer bufsize timeout t w =
     (case checkClientConnection T os t w of
        (Inl e, t1, w1) \<Rightarrow> Some (Inl e, t1, w1)
      | (Inr _, t1, w1) \<Rightarrow>
          (case client_fd t1 of
             None \<Rightarrow> Some (Inl UndefinedBehaviour, t1, w1)
           | Some client \<Rightarrow>
               if client \<noteq> 0 then
                 map_option (\<lambda>(r, d, w2). drop_broken_client os False client (r, t1\<lparr>tcp_driver := d\<rparr>, w2))
                   (writePacket (fromMicroseconds T) (toMilliseconds T) (sys_env T os) buffer bufsize timeout
                      (tcp_driver t1) w1)
               else Some (Inr False, t1, w1)))"

definition hasOpenSocked :: "'t tcp_driver \<Rightarrow> exn + bool" where
  "hasOpenSocked t =
     (case socked_fd t of None \<Rightarrow> Inl UndefinedBehaviour | Some fd \<Rightarrow> Inr (fd \<noteq> 0))"

section \<open>One client at a time\<close>

text \<open>After \<open>tcp_server_init\<close>, and for ever after.\<close>

definition tcp_ready :: "'t tcp_driver \<Rightarrow> bool" where
  "tcp_ready t \<longleftrightarrow> socked_fd t \<noteq> None \<and> client_fd t \<noteq> None"

lemma setFileDescriptor_fd:
  assumes "handle_ok d w" "setFileDescriptor T os fd ac he d w = (Inr (), d', w')"
  shows "getFileDescriptor (sys_env T os) d' w' = fd"
proof -
  let ?p = "Ptr (h_next w)"
  obtain s o1 where s: "FDStream_init os fd ac he (h_os w) = (Inr s, o1)"
    using assms(2) by (auto simp: setFileDescriptor_def install_def on_system_def split: prod.splits sum.splits)
  then have fd: "fd_no s = fd"
    by (auto simp: FDStream_init_def try_then_def split: prod.splits sum.splits)
  have new: "m_stream d \<noteq> Some ?p" using assms(1) by (auto simp: handle_ok_def)
  have d': "d' = d\<lparr>m_stream := Some ?p\<rparr>"
    and w': "w' = delete_stream (sys_env T os) (m_stream d)
      (w\<lparr>h_os := o1, h_streams := (h_streams w)(?p \<mapsto> FD s), h_next := h_next w + 1\<rparr>)"
    using assms(2) s by (auto simp: setFileDescriptor_def install_def on_system_def new_stream_def Let_def setMainStream_def)
  have "h_streams w' ?p = Some (FD s)" unfolding w' delete_streams using new by (cases "m_stream d") auto
  then show ?thesis
    by (simp add: getFileDescriptor_def d' sys_env_def FDStream_getFileDescriptor_def fd)
qed

lemma opens_then_replaces: "opens d w (r, d', w') \<Longrightarrow> replaces_stream d w d' w'"
  by (rule opensD(1))

lemma checkClientConnection_replaces:
  assumes "tcp_ready t" "handle_ok (tcp_driver t) w" "checkClientConnection T os t w = (r, t', w')"
  shows "tcp_ready t' \<and> replaces_stream (tcp_driver t) w (tcp_driver t') w' \<and> socked_fd t' = socked_fd t
    \<and> (case sys_accept os (the (socked_fd t)) (h_os w) of
         (Inl _, o1) \<Rightarrow> r = Inr () \<and> t' = t \<and> w' = w\<lparr>h_os := o1\<rparr>
       | (Inr fd, o1) \<Rightarrow>
           (0 < fd \<longrightarrow> client_fd t' = Some fd
              \<and> (r = Inr () \<longrightarrow> getFileDescriptor (sys_env T os) (tcp_driver t') w' = fd))
           \<and> (fd \<le> 0 \<longrightarrow> t' = t))"
proof -
  obtain listening old where fds: "socked_fd t = Some listening" "client_fd t = Some old"
    using assms(1) by (auto simp: tcp_ready_def)
  obtain a o1 where acc: "sys_accept os listening (h_os w) = (a, o1)" by fastforce
  show ?thesis
  proof (cases "\<exists>fd > 0. a = Inr fd")
    case False
    then have "r = Inr () \<and> t' = t \<and> w' = w\<lparr>h_os := o1\<rparr>"
      using assms(3) fds acc by (cases a) (auto simp: checkClientConnection_def)
    moreover have "replaces_stream (tcp_driver t) w (tcp_driver t) (w\<lparr>h_os := o1\<rparr>)"
      using assms(2) by (simp add: replaces_refl)
    ultimately show ?thesis using False assms(1) fds acc by (cases a) auto
  next
    case True
    then obtain fd where fd: "0 < fd" "a = Inr fd" by blast
    define o2 where "o2 = (if old \<noteq> 0 then sys_close os old o1 else o1)"
    obtain rr d w2 where set: "setFileDescriptor T os fd False True (tcp_driver t) (w\<lparr>h_os := o2\<rparr>) = (rr, d, w2)"
      by (metis prod_cases3)
    have res: "r = rr" "t' = t\<lparr>client_fd := Some fd, tcp_driver := d\<rparr>" "w' = w2"
      using assms(3) fds acc fd set unfolding checkClientConnection_def o2_def by (auto simp: Let_def)
    have ok: "handle_ok (tcp_driver t) (w\<lparr>h_os := o2\<rparr>)" using assms(2) by simp
    have "replaces_stream (tcp_driver t) w d w2"
      using opens_then_replaces [OF opens_from_os [OF opens_setFileDescriptor [OF ok, of T os fd False True, unfolded set]]] .
    moreover have "rr = Inr () \<Longrightarrow> getFileDescriptor (sys_env T os) d w2 = fd"
      using setFileDescriptor_fd [OF ok] set by blast
    ultimately show ?thesis using res fds acc fd by (simp add: tcp_ready_def)
  qed
qed


definition demo_tcp :: "int tcp_driver" where
  "demo_tcp = \<lparr>tcp_driver = desk_driver, socked_fd = Some 3, client_fd = Some 0\<rparr>"


text \<open>Before \<^verbatim>\<open>tcp_server_init\<close> every method, the destructor too, uses a member that is not set.\<close>

lemma TCPDriver_uninitialised:
  assumes "TCPDriver_init S raw n b True w = Inr t"
  shows "TCPDriver_destroy T os t h = Inl UndefinedBehaviour"
    and "fst (checkClientConnection T os t h) = Inl UndefinedBehaviour"
  using assms by (auto simp: TCPDriver_init_def TCPDriver_destroy_def checkClientConnection_def split: sum.splits)

end
