(* ===== verification/Driver_Life.thy ===== *)
theory Driver_Life
  imports Open_Correct Driver_Raw Driver_Writing
begin

text \<open>
  The life of a \<^verbatim>\<open>Driver\<close> object (\<^verbatim>\<open>src/src/Driver.cpp\<close>): the constructor, then any public
  operations in any order, while the system moves on. Every state of such a life is well-typed.
\<close>

section \<open>A life\<close>

text \<open>The allocator has handed out the addresses below \<open>h_next\<close> only.\<close>

definition heap_ok :: "'o heap \<Rightarrow> bool" where
  "heap_ok w \<longleftrightarrow> (\<forall>n \<ge> h_next w. h_streams w (Ptr n) = None)"

text \<open>A caller hands arrays of the size it announces, and stream objects it has just made.\<close>

inductive driver_life ::
  "'t::linordered_ab_group_add time_ops \<Rightarrow> ('o, 't) os \<Rightarrow> 'o unix \<Rightarrow> (byte list \<Rightarrow> int) \<Rightarrow> 't driver
     \<Rightarrow> 'o heap \<Rightarrow> bool" for T os S ext where
  life_created: "Driver_init mem n b = Inr d \<Longrightarrow> n < 2 ^ 31 \<Longrightarrow> heap_ok w \<Longrightarrow> driver_life T os S ext d w"
| life_system: "driver_life T os S ext d w \<Longrightarrow> driver_life T os S ext d (w\<lparr>h_os := os1\<rparr>)"
| life_setExtractLastPacket:
    "driver_life T os S ext d w \<Longrightarrow> driver_life T os S ext (setExtractLastPacket b d) w"
| life_setReadTimeout: "driver_life T os S ext d w \<Longrightarrow> driver_life T os S ext (setReadTimeout t d) w"
| life_setWriteTimeout: "driver_life T os S ext d w \<Longrightarrow> driver_life T os S ext (setWriteTimeout t d) w"
| life_addListener: "driver_life T os S ext d w \<Longrightarrow> driver_life T os S ext (addListener l d) w"
| life_removeListener: "driver_life T os S ext d w \<Longrightarrow> driver_life T os S ext (removeListener l d) w"
| life_getStatus: "driver_life T os S ext d w \<Longrightarrow> driver_life T os S ext (snd (getStatus d)) w"
| life_resetStatus: "driver_life T os S ext d w \<Longrightarrow> driver_life T os S ext (resetStatus d) w"
| life_clear:
    "driver_life T os S ext d w \<Longrightarrow> clear (sys_env T os) d w = (d', w') \<Longrightarrow> driver_life T os S ext d' w'"
| life_close:
    "driver_life T os S ext d w \<Longrightarrow> close (sys_env T os) d w = (d', w') \<Longrightarrow> driver_life T os S ext d' w'"
| life_setMainStream:
    "driver_life T os S ext d w \<Longrightarrow> new_stream s w = (p, w1) \<Longrightarrow>
       setMainStream (sys_env T os) (Some p) d w1 = (d', w') \<Longrightarrow> driver_life T os S ext d' w'"
| life_openURI:
    "driver_life T os S ext d w \<Longrightarrow> openURI T os S uri d w = (r, d', w') \<Longrightarrow> driver_life T os S ext d' w'"
| life_hasPacket:
    "driver_life T os S ext d w \<Longrightarrow> hasPacket (sys_env T os) ext d w = (r, d', w') \<Longrightarrow>
       driver_life T os S ext d' w'"
| life_readPacket:
    "driver_life T os S ext d w \<Longrightarrow> length buffer = nat bufsize \<Longrightarrow>
       readPacket (sys_env T os) ext buffer bufsize pt fb d w = Some (r, d', buffer', w') \<Longrightarrow>
       driver_life T os S ext d' w'"
| life_readRaw:
    "driver_life T os S ext d w \<Longrightarrow> 0 \<le> bufsize \<Longrightarrow> length buffer = nat bufsize \<Longrightarrow>
       readRaw (sys_env T os) buffer bufsize pt fb ib d w = Some (r, d', buffer', w') \<Longrightarrow>
       driver_life T os S ext d' w'"
| life_writePacket:
    "driver_life T os S ext d w \<Longrightarrow> 0 \<le> bufsize \<Longrightarrow> length buffer = nat bufsize \<Longrightarrow>
       writePacket_ms fromMicros (sys_env T os) buffer bufsize ms d w = Some (r, d', w') \<Longrightarrow>
       driver_life T os S ext d' w'"

section \<open>Every operation keeps the types\<close>

text \<open>The calls a driver makes neither create nor delete a stream object.\<close>

definition same_objects :: "'o heap \<Rightarrow> 'o heap \<Rightarrow> bool" where
  "same_objects w w' \<longleftrightarrow> h_next w' = h_next w \<and> (\<forall>q. h_streams w' q = None \<longleftrightarrow> h_streams w q = None)"

lemma same_objects_step: "io_step (sys_env T os) w e w' \<Longrightarrow> same_objects w w'"
  by (cases e)
    (auto simp: same_objects_def sys_env_def on_object_def on_os_def on_heap_listener_def
      split: option.splits prod.splits if_splits)

lemma same_objects_run: "io_run (sys_env T os) w es w' \<Longrightarrow> same_objects w w'"
proof (induction rule: io_run.induct)
  case (run_cons w e w1 es w2)
  then show ?case using same_objects_step [OF run_cons(1)] by (simp add: same_objects_def)
qed (simp add: same_objects_def)

lemma handle_ok_same:
  "handle_ok d w \<Longrightarrow> same_objects w w' \<Longrightarrow> m_stream d' = m_stream d \<Longrightarrow> handle_ok d' w'"
  by (auto simp: handle_ok_def same_objects_def)

lemma handle_ok_run:
  "handle_ok d w \<Longrightarrow> io_run (sys_env T os) w es w' \<Longrightarrow> m_stream d' = m_stream d \<Longrightarrow> handle_ok d' w'"
  by (rule handle_ok_same [OF _ same_objects_run])

lemma handle_ok_setters:
  assumes "handle_ok d w"
  shows "handle_ok (setExtractLastPacket b d) w" "handle_ok (setReadTimeout t d) w"
    "handle_ok (setWriteTimeout t d) w" "handle_ok (addListener l d) w" "handle_ok (removeListener l d) w"
    "handle_ok (snd (getStatus d)) w"
  using assms
  by (simp_all add: handle_ok_def setExtractLastPacket_def setReadTimeout_def setWriteTimeout_def
      addListener_def removeListener_def getStatus_def Let_def)

lemma handle_ok_resetStatus: "handle_ok (resetStatus d) w = handle_ok d w"
  by (simp add: handle_ok_def resetStatus_def)

lemma handle_ok_clear:
  assumes "handle_ok d w" "clear (sys_env T os) d w = (d', w')"
  shows "handle_ok d' w'"
  using assms by (cases "m_stream d") (auto simp: clear_def handle_ok_def sys_env_def)

lemma handle_ok_close:
  assumes "handle_ok d w" "close (sys_env T os) d w = (d', w')"
  shows "handle_ok d' w'"
  using opens_close [OF assms(1), of "undefined :: exn" T os] assms(2) by (auto dest: opensD(2))

context packet_extractor
begin

lemma hasPacket_keeps:
  assumes "hasPacket env ext d w = (r, d', w')" "driver_wf d"
  obtains es st where "io_run env w es w'" "d' = d\<lparr>m_stats := st\<rparr>"
proof (cases "internal_buffer_size d = 0")
  case True
  with assms(1) that [of "[]" "m_stats d"] show thesis by (auto simp: hasPacket_def)
next
  case False
  then have "queued d \<noteq> []" using assms(2) by (simp add: queued_empty_iff)
  show thesis
  proof (cases "m_extract_last d")
    case True
    obtain st' w1 es where
      "findPacket env ext True (queued d) (m_stats d) w = (Inr (last_packet (segments ext (queued d))), st', w1)"
      "io_run env w es w1" by (rule findPacket_last [OF \<open>queued d \<noteq> []\<close>, of env "m_stats d" w])
    with False True assms(1) that [of es st'] show thesis
      by (auto simp: hasPacket_def split: prod.splits)
  next
    case first: False
    obtain off sz where
      "findPacket env ext False (queued d) (m_stats d) w = (Inr (off, sz), m_stats d, w)"
      by (rule findPacket_first [OF \<open>queued d \<noteq> []\<close>, of env "m_stats d" w])
    with False first assms(1) that [of "[]" "m_stats d"] show thesis
      by (auto simp: hasPacket_def)
  qed
qed

lemma readPacket_keeps:
  assumes "io_contract env" "readPacket env ext buffer bufsize pt fb d w = Some (r, d', buffer', w')"
    and "driver_wf d" "length buffer = nat bufsize"
  obtains es where "io_run env w es w'" "driver_wf d'" "m_stream d' = m_stream d"
proof (cases "bufsize < MAX_PACKET_SIZE d")
  case True
  with assms(2,3) that [of "[]"] show thesis by (auto simp: readPacket_def)
next
  case False
  then have big: "MAX_PACKET_SIZE d \<le> bufsize" "nat (MAX_PACKET_SIZE d) \<le> length buffer"
    using assms(4) by auto
  show thesis
  proof (cases "m_stream d")
    case None
    obtain m d1 b1 w1 es where
      "extractFromInternal_loop env ext buffer 0 d w = (Inr m, d1, b1, w1)"
      "driver_wf d1" "same_config d d1" "io_run env w es w1"
      by (rule extractFromInternal_loop_total [OF assms(3) big(2), of 0 env w]) auto
    with False None assms(2) that [of es] show thesis
      by (auto simp: readPacket_def extractPacketFromInternalBuffer_def dest: same_configD split: if_splits)
  next
    case (Some p)
    obtain t0 es ps where "io_run env w (EvNow t0 # es) w'" "reads_as ext p d es ps d'"
      by (rule driver_env.readPacket_reads [OF driver_env.intro [OF assms(1) packet_extractor_axioms]
            assms(2,3) Some big])
    then show thesis using that reads_asD(1,2) same_configD(2) by blast
  qed
qed

end

context io_contract
begin

lemma readRaw_keeps:
  assumes "readRaw env buffer n pt fb ib d w = Some (r, d', buffer', w')"
    and "driver_wf d" "0 \<le> n" "length buffer = nat n"
  obtains es where "io_run env w es w'" "driver_wf d'" "m_stream d' = m_stream d"
proof (cases "m_stream d")
  case None
  with assms(1,2) that [of "[]"] show thesis by (auto simp: readRaw_def)
next
  case (Some p)
  have "n \<le> int (length buffer)" using assms(3,4) by simp
  from readRaw_runs [OF assms(2) Some assms(3) this assms(1)] obtain t0 es where
    "io_run env w (EvNow t0 # es) w'" "driver_wf d'" "same_config d d'" by blast
  with that show thesis using same_configD(2) by blast
qed

lemma writePacket_keeps:
  assumes "writePacket_ms fromMicros env buffer n ms d w = Some (r, d', w')"
    and "driver_wf d" "0 \<le> n" "length buffer = nat n"
  obtains es where "io_run env w es w'" "driver_wf d'" "m_stream d' = m_stream d"
proof (cases "m_stream d")
  case None
  with assms(1,2) that [of "[]"] show thesis by (auto simp: writePacket_ms_def)
next
  case (Some p)
  have "nat n \<le> length buffer" using assms(4) by simp
  from writePacket_runs [OF assms(2) Some assms(3) this assms(1)] obtain start es k where
    run: "io_run env w (EvTimeOfDay start # es) w'" and res: "case r of
         Inr b \<Rightarrow> b \<and> k = nat n
           \<and> (\<exists>now. d' = d\<lparr>m_stats := (m_stats d)\<lparr>stamp := now, tx := tx (m_stats d) + of_nat (nat n)\<rparr>\<rparr>)
       | Inl e \<Rightarrow> k \<le> nat n \<and> (0 < n \<longrightarrow> k < nat n) \<and> d' = d
           \<and> write_reason p \<lparr>timeout_ms = word_of_int ms, start_time = start\<rparr> es e" by blast
  have "driver_wf d' \<and> m_stream d' = m_stream d"
    using res assms(2) by (cases r) auto
  with that [OF run] show thesis by blast
qed

end

lemma handle_ok_setMainStream:
  assumes "handle_ok d w" "new_stream s w = (p, w1)" "setMainStream (sys_env T os) (Some p) d w1 = (d', w')"
  shows "handle_ok d' w'"
  using assms
  by (cases "m_stream d")
    (auto simp: new_stream_def Let_def setMainStream_def delete_stream_def handle_ok_def sys_env_def
      split: option.splits)

lemma replaced_wf: "d' = d\<lparr>m_stream := p\<rparr> \<Longrightarrow> driver_wf d \<Longrightarrow> driver_wf d'"
  by simp

section \<open>The invariant of a life\<close>

text \<open>C13 Type safety of \<^verbatim>\<open>Driver\<close>: in every state that public operations can lead to, in any
  order and with any arguments that keep to their documentation, whatever throws, the internal
  buffer is the array of \<open>MAX_PACKET_SIZE\<close> bytes with at most that many in use, the set of
  listeners has no duplicates, and the stream is null or a live object.\<close>

theorem driver_life_typed:
  assumes "driver_life T os S ext d w" "posix os" "packet_extractor ext"
  shows "driver_wf d \<and> handle_ok d w"
  using assms(1)
proof induction
  case (life_created mem n b d w)
  from wf_init [OF life_created(1,2)] life_created(1,3) show ?case
    by (auto simp: Driver_init_def handle_ok_def heap_ok_def split: if_splits)
next
  case (life_clear d w d' w')
  with wf_clear [of d "sys_env T os" w] show ?case by (auto intro: handle_ok_clear)
next
  case (life_close d w d' w')
  with wf_setters(5) [of d "sys_env T os" w] show ?case by (auto intro: handle_ok_close)
next
  case (life_setMainStream d w s p w1 d' w')
  with wf_setMainStream [of d "sys_env T os" "Some p" w1] show ?case
    by (auto intro: handle_ok_setMainStream)
next
  case (life_openURI d w uri r d' w')
  then have "replaces_stream d w d' w'"
    using opens_openURI [of d w T os S uri] by (auto simp: opens_def)
  with life_openURI(3) show ?case by (auto simp: replaces_stream_def dest: replaced_wf)
next
  case (life_hasPacket d w r d' w')
  then have wf: "driver_wf d" "handle_ok d w" by auto
  obtain es st where "io_run (sys_env T os) w es w'" "d' = d\<lparr>m_stats := st\<rparr>"
    by (rule packet_extractor.hasPacket_keeps [OF assms(3) life_hasPacket(2) wf(1)])
  with wf handle_ok_run [OF wf(2), of T os es w' d'] show ?case by simp
next
  case (life_readPacket d w buffer bufsize pt fb r d' buffer' w')
  then have wf: "driver_wf d" "handle_ok d w" by auto
  show ?case
    by (rule packet_extractor.readPacket_keeps [OF assms(3) posix.sys_env_contract [OF assms(2)]
          life_readPacket(3) wf(1) life_readPacket(2)])
      (blast intro: handle_ok_run [OF wf(2)])
next
  case (life_readRaw d w bufsize buffer pt fb ib r d' buffer' w')
  then have wf: "driver_wf d" "handle_ok d w" by auto
  show ?case
    by (rule io_contract.readRaw_keeps [OF posix.sys_env_contract [OF assms(2)]
          life_readRaw(4) wf(1) life_readRaw(2,3)])
      (blast intro: handle_ok_run [OF wf(2)])
next
  case (life_writePacket d w bufsize buffer fromMicros ms r d' w')
  then have wf: "driver_wf d" "handle_ok d w" by auto
  show ?case
    by (rule io_contract.writePacket_keeps [OF posix.sys_env_contract [OF assms(2)]
          life_writePacket(4) wf(1) life_writePacket(2,3)])
      (blast intro: handle_ok_run [OF wf(2)])
qed (simp_all add: wf_intros handle_ok_setters handle_ok_resetStatus)

definition empty_heap :: "'o \<Rightarrow> 'o heap" where
  "empty_heap os = \<lparr>h_streams = (\<lambda>_. None), h_listeners = (\<lambda>_. None), h_next = 0, h_os = os\<rparr>"

theorem driver_life_typed_witness:
  "\<forall>S. driver_life us_ops pipe_os S DriverTest_extractPacket
        ((projr (Driver_init (\<lambda>_. 0) 8 False) :: int driver)\<lparr>m_stream := Some (Ptr 0)\<rparr>)
        (snd (new_stream (Test TestStream_init) (empty_heap pipes_init)))
     \<and> handle_ok ((projr (Driver_init (\<lambda>_. 0) 8 False) :: int driver)\<lparr>m_stream := Some (Ptr 0)\<rparr>)
        (snd (new_stream (Test TestStream_init) (empty_heap pipes_init)))"
proof
  fix S
  let ?d = "projr (Driver_init (\<lambda>_. 0) 8 False) :: int driver"
  let ?w = "empty_heap pipes_init"
  have "driver_life us_ops pipe_os S DriverTest_extractPacket ?d ?w"
    by (rule life_created [of "\<lambda>_. 0" 8 False]) (simp_all add: Driver_init_def heap_ok_def empty_heap_def)
  moreover have "new_stream (Test TestStream_init) ?w = (Ptr 0, snd (new_stream (Test TestStream_init) ?w))"
    by (simp add: new_stream_def empty_heap_def Let_def)
  ultimately have life: "driver_life us_ops pipe_os S DriverTest_extractPacket (?d\<lparr>m_stream := Some (Ptr 0)\<rparr>)
      (snd (new_stream (Test TestStream_init) ?w))"
    by (rule life_setMainStream) (simp add: setMainStream_def delete_stream_def Driver_init_def)
  from driver_life_typed [OF life pipe_contracts(1) extractor_contracts(3)] life
  show "driver_life us_ops pipe_os S DriverTest_extractPacket (?d\<lparr>m_stream := Some (Ptr 0)\<rparr>)
        (snd (new_stream (Test TestStream_init) ?w))
     \<and> handle_ok (?d\<lparr>m_stream := Some (Ptr 0)\<rparr>) (snd (new_stream (Test TestStream_init) ?w))" by blast
qed

end
