(* ===== verification/Stream_Progress.thy ===== *)
theory Stream_Progress
  imports Stream_Objects Read_Termination Read_Raw_Correct
begin

text \<open>
  Why a driver on a real stream makes progress (\<^verbatim>\<open>src/src/IOStream.cpp\<close>): quantities of the
  system that its calls do not raise are not raised by the streams either, so that a moving clock
  and a finite supply of bytes under the streams are a moving clock and a finite source under
  the driver.
\<close>

section \<open>Quantities that calls do not raise\<close>

fun sends :: "'t syscall \<Rightarrow> bool" where
  "sends (CallWrite fd bs) = True"
| "sends (CallSend fd bs fl) = True"
| "sends (CallSendto fd bs fl a) = True"
| "sends _ = False"

text \<open>\<open>sending\<close>: the calls that send keep the measure too.\<close>

locale os_measure =
  fixes os :: "('o, 't::linordered_ab_group_add) os" and sending :: bool and m :: "'o \<Rightarrow> nat"
  assumes kept: "(sends c \<longrightarrow> sending) \<Longrightarrow> m (after os c w) \<le> m w"
begin

lemma calls_le:
  "sys_getfl os fd w = (x1, w') \<Longrightarrow> m w' \<le> m w"
  "sys_setfl os fd fl w = (x2, w') \<Longrightarrow> m w' \<le> m w"
  "sys_accept os fd w = (x3, w') \<Longrightarrow> m w' \<le> m w"
  "sys_now os w = (x4, w') \<Longrightarrow> m w' \<le> m w"
  "sys_gettimeofday os w = (x5, w') \<Longrightarrow> m w' \<le> m w"
  "sys_select_read os fd tv w = (x6, w') \<Longrightarrow> m w' \<le> m w"
  "sys_select_write os fd tv w = (x7, w') \<Longrightarrow> m w' \<le> m w"
  "sys_read os fd n w = (x8, w') \<Longrightarrow> m w' \<le> m w"
  "sys_recv os fd n k w = (x9, w') \<Longrightarrow> m w' \<le> m w"
  "sys_recvfrom os fd n k w = (x10, w') \<Longrightarrow> m w' \<le> m w"
  using kept [of "CallGetfl fd" w] kept [of "CallSetfl fd fl" w] kept [of "CallAccept fd" w]
    kept [of CallNow w] kept [of CallTimeOfDay w] kept [of "CallSelectRead fd tv" w]
    kept [of "CallSelectWrite fd tv" w] kept [of "CallRead fd n" w] kept [of "CallRecv fd n k" w]
    kept [of "CallRecvfrom fd n k" w]
  by auto

lemma sends_le:
  assumes sending
  shows "sys_write os fd bs w = (x1, w') \<Longrightarrow> m w' \<le> m w"
    "sys_send os fd bs k w = (x2, w') \<Longrightarrow> m w' \<le> m w"
    "sys_sendto os fd bs k a w = (x3, w') \<Longrightarrow> m w' \<le> m w"
  using assms kept [of "CallWrite fd bs" w] kept [of "CallSend fd bs k" w] kept [of "CallSendto fd bs k a" w]
  by auto

lemma select_le:
  "select_fd (sys_select_read os) fd tv w = (x1, w') \<Longrightarrow> m w' \<le> m w"
  "select_fd (sys_select_write os) fd tv w = (x2, w') \<Longrightarrow> m w' \<le> m w"
  by (auto simp: select_fd_def dest: calls_le split: if_splits sum.splits prod.splits)

lemma SocketStream_init_le: "SocketStream_init os fd ac he w = (r, w') \<Longrightarrow> m w' \<le> m w"
  by (auto simp: SocketStream_init_def setNonBlockingFlag_def try_then_def dest!: calls_le
      split: if_splits sum.splits prod.splits)

lemma udp_wait_loop_le:
  assumes "udp_wait_loop T os deadline now s w = Some (r, s', w')"
  shows "m w' \<le> m w"
proof -
  let ?P = "\<lambda>T' os' deadline now s w r. os' = os \<longrightarrow> m (snd (snd r)) \<le> m w"
  have "?P T os deadline now s w (r, s', w')"
  proof (rule udp_wait_loop.raw_induct [where P = ?P, OF _ assms], goal_cases)
    case (1 f T' os' deadline now s w r)
    obtain rr w1 where sel: "FDStream_waitRead T' os' (deadline - now) s w = (rr, w1)" by fastforce
    obtain now' w2 where now': "sys_now os' w1 = (now', w2)" by fastforce
    obtain pr w3 where peek: "sys_recvfrom os' (fd_no s) 0 MSG_PEEK w2 = (pr, w3)" by fastforce
    show ?case
    proof
      assume os: "os' = os"
      have le: "m w1 \<le> m w" "m w2 \<le> m w1" "m w3 \<le> m w2"
        using sel now' peek by (auto simp: os FDStream_waitRead_def dest: select_le calls_le)
      consider "now \<le> deadline" "rr = Inr True" "\<exists>err. pr = Inl err \<and> ignored s err"
        | "\<not> now \<le> deadline"
        | "now \<le> deadline" "\<not> (rr = Inr True \<and> (\<exists>err. pr = Inl err \<and> ignored s err))" by blast
      then show "m (snd (snd r)) \<le> m w"
      proof cases
        case again: 1
        with 1(2) sel now' peek have "f T' os' deadline now' s w3 = Some r" by auto
        from 1(1) [OF this] le show ?thesis by (simp add: os)
      next
        case 2
        with 1(2) show ?thesis
          by (auto simp: os FDStream_waitRead_def dest: select_le split: prod.splits)
      next
        case 3
        with 1(2) sel now' peek le show ?thesis
          by (cases rr; cases pr) (auto split: if_splits)
      qed
    qed
  qed
  then show ?thesis by simp
qed

lemma UnixServerStream_accept_le:
  "UnixServerStream_accept os s w = (r, s', w') \<Longrightarrow> m w' \<le> m w"
  by (auto simp: UnixServerStream_accept_def dest!: calls_le(3) SocketStream_init_le
      split: sum.splits prod.splits)

lemma UnixServerStream_waitRead_le:
  "UnixServerStream_waitRead T os t s w = (r, s', w') \<Longrightarrow> m w' \<le> m w"
  by (auto simp: UnixServerStream_waitRead_def SocketStream_waitRead_def FDStream_waitRead_def
      dest!: UnixServerStream_accept_le select_le(1)
      split: option.splits sum.splits prod.splits if_splits)

lemma stream_waitRead_le: "stream_waitRead T os t s w = Some (r, s', w') \<Longrightarrow> m w' \<le> m w"
  by (cases s)
    (auto simp: FDStream_waitRead_def SocketStream_waitRead_def UDPServerStream_waitRead_def
      dest: select_le(1) calls_le(4) udp_wait_loop_le UnixServerStream_waitRead_le
      split: prod.splits if_splits intro: order_trans)

lemma stream_waitWrite_le: "stream_waitWrite T os t s w = (r, w') \<Longrightarrow> m w' \<le> m w"
  by (cases s)
    (auto simp: FDStream_waitWrite_def SocketStream_waitWrite_def UnixServerStream_waitWrite_def
      dest: select_le(2) split: option.splits)

lemma SocketStream_read_le: "SocketStream_read os n s w = (r, s', w') \<Longrightarrow> m w' \<le> m w"
  by (auto simp: SocketStream_read_def dest: calls_le split: sum.splits prod.splits if_splits)

lemma stream_read_le: "stream_read T os n s w = (r, s', w') \<Longrightarrow> m w' \<le> m w"
  by (cases s)
    (auto simp: FDStream_read_def UDPServerStream_read_def UnixDatagramStream_read_def
      UnixServerStream_read_def Let_def
      dest!: calls_le(8,10) SocketStream_read_le UnixServerStream_waitRead_le
      split: option.splits sum.splits prod.splits if_splits)

lemma stream_write_le:
  assumes "stream_write os bs s w = (r, s', w')" sending
  shows "m w' \<le> m w"
  using assms(1) sends_le [OF assms(2)]
  by (cases s)
    (auto simp: FDStream_write_def SocketStream_write_def UDPServerStream_write_def
      UnixDatagramStream_write_def UnixServerStream_write_def
      split: option.splits sum.splits prod.splits if_splits)

text \<open>In a heap of streams, as a driver calls them.\<close>

lemma heap_step_le:
  assumes "io_step (sys_env T os) w e w'" "is_write e \<longrightarrow> sending"
  shows "m (h_os w') \<le> m (h_os w)"
  using assms
  by (cases e)
    (auto simp: on_os_def on_object_def on_heap_listener_def sys_env_def
      dest: calls_le(4,5) stream_waitRead_le stream_waitWrite_le stream_read_le stream_write_le
      split: option.splits prod.splits)

end

section \<open>A clock that moves\<close>

sublocale live_posix < readings: os_measure os True "readings_left d" for d
  by unfold_locales (rule clock_kept)

sublocale live_posix < clock: moving_clock "sys_env T os" "\<lambda>d w. readings_left d (h_os w)" for T
proof
  fix w t w' d
  assume "io_now (sys_env T os) w = (t, w')" "t \<le> d"
  then show "readings_left d (h_os w') < readings_left d (h_os w)"
    by (auto simp: on_os_def dest: clock_moves split: prod.splits)
next
  fix w e w' d
  assume "io_step (sys_env T os) w e w'"
  then show "readings_left d (h_os w') \<le> readings_left d (h_os w)"
    by (rule readings.heap_step_le) simp
qed

section \<open>A finite supply of bytes\<close>

text \<open>\<open>pending fd w\<close> bounds the bytes that can still be received on \<open>fd\<close>, or on the connections it
  will accept, before anything more is sent. Receiving takes from it what it delivers, unless it
  only peeks.\<close>

locale draining_posix = live_posix os readings_left
  for os :: "('o, 't::linordered_ab_group_add) os" and readings_left +
  fixes pending :: "int \<Rightarrow> 'o \<Rightarrow> nat"
  assumes pending_kept: "\<not> sends c \<Longrightarrow> pending fd (after os c w) \<le> pending fd w"
    and read_takes: "sys_read os fd n w = (Inr bs, w') \<Longrightarrow> pending fd w' + length bs \<le> pending fd w"
    and recv_takes: "sys_recv os fd n fl w = (Inr bs, w') \<Longrightarrow> fl AND MSG_PEEK = 0 \<Longrightarrow>
      pending fd w' + length bs \<le> pending fd w"
    and recvfrom_takes: "sys_recvfrom os fd n fl w = (Inr (bs, a), w') \<Longrightarrow> fl AND MSG_PEEK = 0 \<Longrightarrow>
      pending fd w' + length bs \<le> pending fd w"
    and accept_takes: "sys_accept os fd w = (Inr newfd, w') \<Longrightarrow> pending newfd w' \<le> pending fd w"

text \<open>Streams that were not told to peek, and the bytes a test stream holds itself.\<close>

fun peekless :: "stream \<Rightarrow> bool" where
  "peekless (Socket s) \<longleftrightarrow> so_recv_flags s AND MSG_PEEK = 0"
| "peekless (UnixServer s) \<longleftrightarrow>
     (case us_client s of None \<Rightarrow> True | Some c \<Rightarrow> so_recv_flags c AND MSG_PEEK = 0)"
| "peekless _ \<longleftrightarrow> True"

fun held :: "stream \<Rightarrow> nat" where
  "held (Test s) = length (to_driver s)"
| "held _ = 0"

definition stream_drains :: "ptr \<Rightarrow> 'o heap \<Rightarrow> bool" where
  "stream_drains p w \<longleftrightarrow> (case h_streams w p of None \<Rightarrow> True | Some s \<Rightarrow> peekless s)"

definition bytes_left :: "(int \<Rightarrow> 'o \<Rightarrow> nat) \<Rightarrow> ptr \<Rightarrow> 'o heap \<Rightarrow> nat" where
  "bytes_left pending p w = (case h_streams w p of
     None \<Rightarrow> 0 | Some s \<Rightarrow> pending (stream_getFileDescriptor s) (h_os w) + held s)"

lemma SocketStream_init_Inr:
  "SocketStream_init os fd ac he w = (Inr c, w') \<Longrightarrow> so_fd c = fd \<and> so_recv_flags c = 0"
  by (auto simp: SocketStream_init_def try_then_def split: sum.splits prod.splits)

lemma SocketStream_read_same:
  "SocketStream_read os n s w = (r, s', w') \<Longrightarrow> so_fd s' = so_fd s \<and> so_recv_flags s' = so_recv_flags s"
  by (auto simp: SocketStream_read_def split: sum.splits prod.splits if_splits)

lemmas fd_defs = FDStream_getFileDescriptor_def SocketStream_getFileDescriptor_def
  UnixServerStream_getFileDescriptor_def

sublocale draining_posix < bytes: os_measure os False "pending fd" for fd
  by unfold_locales (simp add: pending_kept)

context draining_posix
begin

abbreviation to_come :: "stream \<Rightarrow> 'o \<Rightarrow> nat" where
  "to_come s w \<equiv> pending (stream_getFileDescriptor s) w + held s"

lemma SocketStream_read_takes:
  "SocketStream_read os n s w = (Inr bs, s', w') \<Longrightarrow> so_recv_flags s AND MSG_PEEK = 0 \<Longrightarrow>
     pending (so_fd s) w' + length bs \<le> pending (so_fd s) w"
  by (auto simp: SocketStream_read_def dest: recv_takes bytes.calls_le(9)
      split: sum.splits prod.splits if_splits)

lemma UnixServerStream_accept_takes:
  assumes "UnixServerStream_accept os s w = (r, s', w')" "peekless (UnixServer s)"
  shows "peekless (UnixServer s') \<and> to_come (UnixServer s') w' \<le> to_come (UnixServer s) w"
proof -
  let ?fd = "UnixServerStream_getFileDescriptor s"
  obtain ar w1 where a: "sys_accept os ?fd w = (ar, w1)" by fastforce
  show ?thesis
  proof (cases ar)
    case (Inl e)
    with a assms bytes.calls_le(3) [OF a] show ?thesis by (auto simp: UnixServerStream_accept_def)
  next
    case (Inr newfd)
    obtain cr w2 where c: "SocketStream_init os newfd True True w1 = (cr, w2)" by fastforce
    note le = bytes.SocketStream_init_le [OF c]
    show ?thesis
    proof (cases cr)
      case (Inl e)
      with a c Inr assms have "s' = s" "w' = w2" by (auto simp: UnixServerStream_accept_def)
      with assms(2) bytes.calls_le(3) [OF a, of ?fd] le [of ?fd] show ?thesis by simp
    next
      case made: (Inr cl)
      with a c Inr assms have "s' = s\<lparr>us_client := Some (setSendFlags MSG_NOSIGNAL cl)\<rparr>" "w' = w2"
        by (auto simp: UnixServerStream_accept_def)
      with accept_takes [OF a [unfolded Inr]] le [of newfd] SocketStream_init_Inr [OF c [unfolded made]]
      show ?thesis by (simp add: setSendFlags_def fd_defs)
    qed
  qed
qed

lemma UnixServerStream_waitRead_takes:
  assumes "UnixServerStream_waitRead T os t s w = (r, s', w')" "peekless (UnixServer s)"
  shows "peekless (UnixServer s') \<and> to_come (UnixServer s') w' \<le> to_come (UnixServer s) w"
proof (cases "us_client s")
  case (Some c)
  with assms bytes.UnixServerStream_waitRead_le [OF assms(1)] show ?thesis
    by (auto simp: UnixServerStream_waitRead_def split: prod.splits)
next
  case None
  obtain rr w1 where wait: "FDStream_waitRead T os t (us_fd_stream s) w = (rr, w1)" by fastforce
  have le: "to_come (UnixServer s) w1 \<le> to_come (UnixServer s) w"
    using wait by (auto simp: FDStream_waitRead_def dest: bytes.select_le(1))
  show ?thesis
  proof (cases "rr = Inr True")
    case True
    obtain ra sa wa where acc: "UnixServerStream_accept os s w1 = (ra, sa, wa)" by (metis prod_cases3)
    with None wait True assms have "s' = sa" "w' = wa"
      by (auto simp: UnixServerStream_waitRead_def split: sum.splits)
    with UnixServerStream_accept_takes [OF acc assms(2)] le show ?thesis by auto
  next
    case False
    with None wait assms have "s' = s" "w' = w1"
      by (auto simp: UnixServerStream_waitRead_def split: sum.splits prod.splits if_splits)
    with le assms(2) show ?thesis by simp
  qed
qed

lemma UDPServerStream_waitRead_fd:
  assumes "UDPServerStream_waitRead T os t s w = Some (r, s', w')"
  shows "fd_no s' = fd_no s"
proof (cases "m_wait_read_error s = 0")
  case True
  then obtain now w1 where "udp_wait_loop T os (now + t) now s w1 = Some (r, s', w')"
    using assms by (auto simp: UDPServerStream_waitRead_def split: prod.splits)
  from udp_wait_loop_state [OF this] show ?thesis by auto
qed (use assms in \<open>simp add: UDPServerStream_waitRead_def\<close>)

lemma stream_waitRead_takes:
  assumes "stream_waitRead T os t s w = Some (r, s', w')" "peekless s"
  shows "peekless s' \<and> to_come s' w' \<le> to_come s w"
proof (cases s)
  case (UnixServer u)
  then show ?thesis using assms UnixServerStream_waitRead_takes
    by (auto split: prod.splits simp del: stream_getFileDescriptor.simps)
qed (use assms bytes.stream_waitRead_le [OF assms(1)] in
    \<open>auto simp: fd_defs dest: UDPServerStream_waitRead_fd split: prod.splits\<close>)

lemma UnixServerStream_read_takes:
  assumes "UnixServerStream_read T os n s w = (r, s', w')" "peekless (UnixServer s)"
  shows "peekless (UnixServer s')
    \<and> to_come (UnixServer s') w' + length (case_sum (\<lambda>_. []) id r) \<le> to_come (UnixServer s) w"
proof -
  obtain rr s1 w1 where first: "(case us_client s of None \<Rightarrow> UnixServerStream_waitRead T os 0 s w
      | Some _ \<Rightarrow> (Inr True, s, w)) = (rr, s1, w1)" by (metis prod_cases3)
  have one: "peekless (UnixServer s1) \<and> to_come (UnixServer s1) w1 \<le> to_come (UnixServer s) w"
  proof (cases "us_client s")
    case None
    with first have "UnixServerStream_waitRead T os 0 s w = (rr, s1, w1)" by simp
    then show ?thesis by (rule UnixServerStream_waitRead_takes) (rule assms(2))
  qed (use first assms(2) in simp)
  show ?thesis
  proof (cases "rr = Inr True \<and> us_client s1 \<noteq> None")
    case True
    then obtain c where c: "rr = Inr True" "us_client s1 = Some c" by auto
    obtain rc c' w2 where rd: "SocketStream_read os n c w1 = (rc, c', w2)" by (metis prod_cases3)
    have s': "r = rc" "s' = s1\<lparr>us_client := Some c'\<rparr>" "w' = w2"
      using assms(1) first c rd by (auto simp: UnixServerStream_read_def)
    have "pending (so_fd c) w2 + length (case_sum (\<lambda>_. []) id rc) \<le> pending (so_fd c) w1"
    proof (cases rc)
      case (Inl e)
      with bytes.SocketStream_read_le [OF rd, of "so_fd c"] show ?thesis by simp
    next
      case (Inr bs)
      with SocketStream_read_takes [OF rd [unfolded Inr]] one c show ?thesis by simp
    qed
    with one c s' SocketStream_read_same [OF rd] show ?thesis by (simp add: fd_defs)
  next
    case False
    with assms(1) first have "case_sum (\<lambda>_. []) id r = []" "s' = s1" "w' = w1"
      by (auto simp: UnixServerStream_read_def split: sum.splits option.splits if_splits)
    with one show ?thesis by simp
  qed
qed

lemma stream_read_takes:
  assumes "stream_read T os n s w = (r, s', w')" "peekless s"
  shows "peekless s' \<and> to_come s' w' + length (case_sum (\<lambda>_. []) id r) \<le> to_come s w"
proof (cases s)
  case (UnixServer u)
  then show ?thesis using assms UnixServerStream_read_takes
    by (auto split: prod.splits simp del: stream_getFileDescriptor.simps)
next
  case (Socket u)
  with assms obtain u' where rd: "SocketStream_read os n u w = (r, u', w')" "s' = Socket u'"
    by (auto split: prod.splits)
  show ?thesis
  proof (cases r)
    case (Inl e)
    with bytes.stream_read_le [OF assms(1)] SocketStream_read_same [OF rd(1)] rd(2) Socket assms(2)
    show ?thesis by (simp add: fd_defs)
  next
    case (Inr bs)
    with SocketStream_read_takes [OF rd(1) [unfolded Inr]] SocketStream_read_same [OF rd(1)] rd(2) Socket assms(2)
    show ?thesis by (simp add: fd_defs)
  qed
next
  case (Test u)
  then show ?thesis using assms by (auto dest: TestStream_read_split split: prod.splits)
next
  case (FD u)
  then show ?thesis using assms
    by (auto simp: fd_defs FDStream_read_def dest: read_takes bytes.calls_le(8)
        split: prod.splits sum.splits if_splits)
next
  case (UDPServer u)
  then show ?thesis using assms
    by (auto simp: fd_defs UDPServerStream_read_def Let_def dest: recvfrom_takes bytes.calls_le(10)
        split: prod.splits sum.splits if_splits)
next
  case (UnixDatagram u)
  then show ?thesis using assms
    by (auto simp: fd_defs UnixDatagramStream_read_def Let_def dest: recvfrom_takes bytes.calls_le(10)
        split: prod.splits sum.splits if_splits)
qed

text \<open>What a call of the driver does to the stream \<open>p\<close>.\<close>

lemma heap_step_stream [consumes 1, case_names other waited got sent_to]:
  assumes "io_step (sys_env T os) w e w'"
  obtains (other) "h_streams w' p = h_streams w p" "read_by p e = []"
    | (waited) s s' t r where "e = EvWaitRead p t r" "h_streams w p = Some s" "h_streams w' p = Some s'"
        "stream_waitRead T os t s (h_os w) = Some (r, s', h_os w')"
    | (got) s s' n r where "e = EvRead p n r" "h_streams w p = Some s" "h_streams w' p = Some s'"
        "stream_read T os n s (h_os w) = (r, s', h_os w')"
    | (sent_to) s s' bs r where "e = EvWrite p bs r" "h_streams w p = Some s" "h_streams w' p = Some s'"
        "stream_write os bs s (h_os w) = (r, s', h_os w')"
proof (cases "(p, e)" rule: read_by.cases)
  case (1 q x n bs)
  with assms that show thesis
    by (cases "q = x") (auto simp: on_object_def split: option.splits prod.splits)
qed (use assms that in
    \<open>force simp: on_os_def on_object_def on_heap_listener_def sys_env_def split: option.splits prod.splits if_splits\<close>)+

lemma stream_write_peekless: "stream_write os bs s w = (r, s', w') \<Longrightarrow> peekless s' = peekless s"
  by (cases s) (auto split: prod.splits)

end

sublocale draining_posix < source: draining_source "sys_env T os" stream_drains "bytes_left pending" for T
proof
  fix p w e w'
  assume *: "stream_drains p w" "io_step (sys_env T os) w e w'"
  show "stream_drains p w'"
    by (rule heap_step_stream [OF *(2), of p])
      (use *(1) stream_waitRead_takes stream_read_takes stream_write_peekless in
        \<open>fastforce simp: stream_drains_def\<close>)+
next
  fix p w e w'
  assume *: "stream_drains p w" "io_step (sys_env T os) w e w'" "\<not> is_write e"
  show "bytes_left pending p w' + length (read_by p e) \<le> bytes_left pending p w"
    using *(2)
  proof (cases rule: heap_step_stream [where p = p])
    case other
    with bytes.heap_step_le [OF *(2)] *(3) show ?thesis
      by (auto simp: bytes_left_def split: option.split)
  next
    case (waited s s' t r)
    with stream_waitRead_takes [OF waited(4)] *(1) show ?thesis
      by (simp add: bytes_left_def stream_drains_def)
  next
    case (got s s' n r)
    with stream_read_takes [OF got(4)] *(1) show ?thesis
      by (cases r) (simp_all add: bytes_left_def stream_drains_def)
  next
    case (sent_to s s' bs r)
    with *(3) show ?thesis by simp
  qed
qed

section \<open>The driver on the system\<close>

context live_posix
begin

lemma readRaw_on_system:
  "\<exists>res d' buffer' w'. readRaw (sys_env T os) buffer n pt fb ib d w = Some (res, d', buffer', w')"
  by (rule clock.readRaw_total)

end

context draining_posix
begin

lemma system_live_driver:
  "packet_extractor ext \<Longrightarrow>
     live_driver (sys_env T os) ext stream_drains (bytes_left pending) (\<lambda>d w. readings_left d (h_os w))"
  by (intro live_driver.intro finite_driver.intro driver_env.intro sys_env_contract
      source.draining_source_axioms clock.moving_clock_axioms)

end

end
