(* ===== verification/System_Driver.thy ===== *)
theory System_Driver
  imports Stream_Progress Stream_Properties
begin

text \<open>
  A driver on the streams of \<^verbatim>\<open>src/src/IOStream.cpp\<close> over the system: its reading calls return.
\<close>

section \<open>The pipes run dry\<close>

definition waiting :: "pipes \<Rightarrow> int \<Rightarrow> nat" where
  "waiting w fd = (\<Sum>m \<leftarrow> p_messages w fd. length (fst m))"

definition pipe_pending :: "int \<Rightarrow> pipes \<Rightarrow> nat" where
  "pipe_pending fd w = waiting w fd + (\<Sum>c \<leftarrow> p_clients w. waiting w c)"

lemma pipe_pending_le:
  assumes "\<And>q. waiting w' q \<le> waiting w q" "p_clients w' = p_clients w"
  shows "pipe_pending fd w' \<le> pipe_pending fd w"
  using assms by (auto simp: pipe_pending_def intro!: add_mono sum_list_mono)

lemma pipe_pending_takes:
  assumes "\<And>q. waiting w' q \<le> waiting w q" "p_clients w' = p_clients w" "waiting w' fd + n \<le> waiting w fd"
  shows "pipe_pending fd w' + n \<le> pipe_pending fd w"
proof -
  have "(\<Sum>c \<leftarrow> p_clients w. waiting w' c) \<le> (\<Sum>c \<leftarrow> p_clients w. waiting w c)"
    using assms(1) by (intro sum_list_mono) auto
  with assms(2,3) show ?thesis by (simp add: pipe_pending_def)
qed

lemma pipe_take_waiting:
  assumes "pipe_take k n fd w = (r, w')" "\<And>m. (\<Sum>x \<leftarrow> k m. length (fst x)) \<le> length (fst m)"
  shows "waiting w' q \<le> waiting w q" "p_clients w' = p_clients w"
  using assms by (auto simp: pipe_take_def waiting_def split: list.splits prod.splits)

lemma pipe_take_takes:
  assumes "pipe_take k n fd w = (Inr (bs, a), w')"
    and "\<And>m. (\<Sum>x \<leftarrow> k m. length (fst x)) + length (take n (fst m)) \<le> length (fst m)"
  shows "waiting w' fd + length bs \<le> waiting w fd"
  using assms by (auto simp: pipe_take_def waiting_def split: list.splits prod.splits)

lemma pipe_read_waiting:
  assumes "pipe_read fd n w = (r, w')"
  shows "waiting w' q \<le> waiting w q" "p_clients w' = p_clients w"
    "r = Inr bs \<Longrightarrow> waiting w' fd + length bs \<le> waiting w fd"
proof -
  let ?keep = "\<lambda>(bs, from). if length bs \<le> n then [] else [(drop n bs, from)]"
  obtain r0 where t: "pipe_take ?keep n fd w = (r0, w')" "r = map_sum id fst r0"
    using assms by (auto simp: pipe_read_def split: prod.splits)
  from pipe_take_waiting [OF t(1)]
  show "waiting w' q \<le> waiting w q" "p_clients w' = p_clients w" by (auto split: prod.splits)
  assume "r = Inr bs"
  with t(2) obtain a where "r0 = Inr (bs, a)" by (cases r0) auto
  with pipe_take_takes [of ?keep n fd w bs a w'] t(1)
  show "waiting w' fd + length bs \<le> waiting w fd" by (auto split: prod.splits)
qed

lemma accept_pending:
  "sys_accept pipe_os fd w = (Inr newfd, w') \<Longrightarrow> p_clients w = newfd # p_clients w' \<and> p_messages w' = p_messages w"
  by (auto simp: pipe_os_def split: list.splits)

lemma pipe_pending_kept:
  assumes "\<not> sends c"
  shows "pipe_pending fd (after pipe_os c w) \<le> pipe_pending fd w"
proof (cases c)
  case (CallRead q n)
  obtain r w' where "pipe_read q n w = (r, w')" by fastforce
  with pipe_pending_le [of w' w] pipe_read_waiting(1,2) CallRead show ?thesis by simp
next
  case (CallRecv q n fl)
  obtain r w' where "pipe_read q n w = (r, w')" by fastforce
  with pipe_pending_le [of w' w] pipe_read_waiting(1,2) CallRecv show ?thesis by simp
next
  case (CallRecvfrom q n fl)
  obtain r w' where t: "pipe_take (\<lambda>m. if fl = MSG_PEEK then [m] else []) n q w = (r, w')" by fastforce
  with CallRecvfrom have "after pipe_os c w = w'" by simp
  with pipe_pending_le [of w' w] pipe_take_waiting [OF t] show ?thesis by (auto split: if_splits)
next
  case (CallAccept q)
  show ?thesis
  proof (cases "p_clients w")
    case (Cons d ds)
    with CallAccept show ?thesis by (simp add: pipe_os_def pipe_pending_def waiting_def)
  qed (use CallAccept in \<open>simp add: pipe_os_def\<close>)
qed (use assms in \<open>simp_all add: pipe_os_def pipe_pending_def waiting_def\<close>)

interpretation pipes: draining_posix pipe_os pipe_readings pipe_pending
proof
  fix c :: "int syscall" and fd w
  assume "\<not> sends c"
  then show "pipe_pending fd (after pipe_os c w) \<le> pipe_pending fd w" by (rule pipe_pending_kept)
next
  fix fd n w bs w'
  assume "sys_read pipe_os fd n w = (Inr bs, w')"
  then have r: "pipe_read fd n w = (Inr bs, w')" by simp
  show "pipe_pending fd w' + length bs \<le> pipe_pending fd w"
    by (rule pipe_pending_takes) (use pipe_read_waiting [OF r] in auto)
next
  fix fd n fl w bs w'
  assume "sys_recv pipe_os fd n fl w = (Inr bs, w')"
  then have r: "pipe_read fd n w = (Inr bs, w')" by simp
  show "pipe_pending fd w' + length bs \<le> pipe_pending fd w"
    by (rule pipe_pending_takes) (use pipe_read_waiting [OF r] in auto)
next
  fix fd n fl w bs a w'
  assume "sys_recvfrom pipe_os fd n fl w = (Inr (bs, a), w')" "fl AND MSG_PEEK = 0"
  moreover from this(2) have "fl \<noteq> MSG_PEEK" by (auto simp: MSG_PEEK_def)
  ultimately have r: "pipe_take (\<lambda>m. []) n fd w = (Inr (bs, a), w')" by simp
  show "pipe_pending fd w' + length bs \<le> pipe_pending fd w"
    by (rule pipe_pending_takes)
      (use pipe_take_waiting [OF r] pipe_take_takes [OF r] in auto)
next
  fix fd w newfd w'
  assume "sys_accept pipe_os fd w = (Inr newfd, w')"
  from accept_pending [OF this]
  show "pipe_pending newfd w' \<le> pipe_pending fd w"
    by (simp add: pipe_pending_def waiting_def)
qed

section \<open>The reading calls return\<close>


text \<open>The UDP stream on descriptor 7 with part of a packet, then an error that it ignores.\<close>

definition udp_world :: "pipes heap" where
  "udp_world = (fd_world [0, 1])\<lparr>h_streams :=
     (\<lambda>_. None)(Ptr 1 \<mapsto> UDPServer (projr (fst (UDPServerStream_init pipe_os 7 True pipes_init)))),
     h_os := fail_with 7 ECONNREFUSED (send_to 7 [0, 1] [] pipes_init)\<rparr>"


text \<open>\<open>readRaw\<close> needs no bound on what it receives.\<close>

lemma readRaw_returns_on_system:
  "\<exists>res d' buffer' w'. readRaw (sys_env T pipe_os) buffer n pt fb ib d w = Some (res, d', buffer', w')"
  by (rule live_posix.readRaw_on_system [OF pipe_contracts(2)])

end
