(* ===== verification/Stream_Errors.thy ===== *)
theory Stream_Errors
  imports Stream_Objects Read_Packet_Correct
begin

text \<open>
  Which exceptions the reading calls of the streams (\<^verbatim>\<open>src/src/IOStream.cpp\<close>) can throw: the
  errors of the system, never the \<^verbatim>\<open>TimeoutError\<close> that \<^verbatim>\<open>forward\<close> takes for an idle line.
\<close>

definition system_error :: "exn \<Rightarrow> bool" where
  "system_error e \<longleftrightarrow> e = UndefinedBehaviour \<or> (\<exists>n. e = UnixError n)"

lemma system_error_simps [simp]:
  "system_error (UnixError n)" "system_error UndefinedBehaviour" "\<not> system_error (TimeoutError t)"
  by (simp_all add: system_error_def)

locale system_stream = io_contract env
  for env :: "('w, 't::linordered_ab_group_add) env" +
  assumes wait_throws: "io_waitRead env p t w = (Inl e, w') \<Longrightarrow> system_error e"
    and read_throws: "io_read env p n w = (Inl e, w') \<Longrightarrow> system_error e"
begin

lemma threw_system_error:
  assumes "io_run env w es w'" "stream_threw p e es"
  shows "system_error e"
  using assms
proof (induction rule: io_run.induct)
  case (run_cons w ev w1 es w2)
  then show ?case by (cases ev) (auto simp: stream_threw_def dest: wait_throws read_throws)
qed (simp add: stream_threw_def)

end

section \<open>The streams of the library\<close>

lemma select_fd_throws: "select_fd sys fd t w = (Inl e, w') \<Longrightarrow> system_error e"
  by (auto simp: select_fd_def split: if_splits sum.splits prod.splits)

lemma setNonBlockingFlag_throws: "setNonBlockingFlag os fd w = (Inl e, w') \<Longrightarrow> system_error e"
  by (auto simp: setNonBlockingFlag_def split: if_splits sum.splits prod.splits)

lemma SocketStream_init_throws: "SocketStream_init os fd ac he w = (Inl e, w') \<Longrightarrow> system_error e"
  by (auto simp: SocketStream_init_def try_then_def split: sum.splits prod.splits
      dest: setNonBlockingFlag_throws)

lemma udp_wait_loop_throws:
  fixes T :: "'t::linordered_ab_group_add time_ops" and os :: "('o, 't) os"
  assumes "udp_wait_loop T os deadline now s w = Some (Inl e, s', w')"
  shows "system_error e"
proof -
  let ?P = "\<lambda>(T' :: 't time_ops) (os' :: ('o, 't) os) (deadline :: 't) (now :: 't) (s :: udp_stream) (w :: 'o)
    (r :: (exn + bool) \<times> udp_stream \<times> 'o). case r of (res, s', w') \<Rightarrow>
    (case res of Inl e \<Rightarrow> system_error e | Inr b \<Rightarrow> True)"
  have "?P T os deadline now s w (Inl e, s', w')"
  proof (rule udp_wait_loop.raw_induct [where P = ?P, OF _ assms], goal_cases)
    case (1 f T' os' deadline now s w r)
    obtain rr w1 where sel: "FDStream_waitRead T' os' (deadline - now) s w = (rr, w1)" by fastforce
    obtain now' w2 where now': "sys_now os' w1 = (now', w2)" by fastforce
    obtain pr w3 where peek: "sys_recvfrom os' (fd_no s) 0 MSG_PEEK w2 = (pr, w3)" by fastforce
    show ?case
    proof (cases "now \<le> deadline \<and> rr = Inr True \<and> (\<exists>err. pr = Inl err \<and> ignored s err)")
      case True
      with 1(2) sel now' peek have "f T' os' deadline now' s w3 = Some r" by auto
      then show ?thesis by (rule 1(1))
    next
      case False
      with 1(2) sel now' peek show ?thesis
        by (auto simp: FDStream_waitRead_def dest: select_fd_throws
            split: if_splits sum.splits prod.splits)
    qed
  qed
  then show ?thesis by simp
qed

lemma UnixServerStream_waitRead_throws:
  "UnixServerStream_waitRead T os t s w = (Inl e, s', w') \<Longrightarrow> system_error e"
  by (auto simp: UnixServerStream_waitRead_def UnixServerStream_accept_def SocketStream_waitRead_def
      FDStream_waitRead_def split: option.splits sum.splits prod.splits if_splits
      dest: select_fd_throws SocketStream_init_throws)

lemma stream_waitRead_throws:
  "stream_waitRead T os t s w = Some (Inl e, s', w') \<Longrightarrow> system_error e"
  by (cases s)
    (auto simp: FDStream_waitRead_def SocketStream_waitRead_def UDPServerStream_waitRead_def
      split: prod.splits if_splits
      dest: select_fd_throws udp_wait_loop_throws UnixServerStream_waitRead_throws)

lemma simple_read_throws:
  "FDStream_read os n s w = (Inl e, r) \<Longrightarrow> system_error e"
  "SocketStream_read os n c w = (Inl e, r') \<Longrightarrow> system_error e"
  "UDPServerStream_read os n u w = (Inl e, r'') \<Longrightarrow> system_error e"
  "UnixDatagramStream_read os n v w = (Inl e, r''') \<Longrightarrow> system_error e"
  by (auto simp: FDStream_read_def SocketStream_read_def UDPServerStream_read_def
      UnixDatagramStream_read_def Let_def split: sum.splits prod.splits if_splits)

lemma UnixServerStream_read_throws:
  "UnixServerStream_read T os n s w = (Inl e, r) \<Longrightarrow> system_error e"
  by (auto simp: UnixServerStream_read_def split: option.splits sum.splits prod.splits if_splits
      dest: UnixServerStream_waitRead_throws simple_read_throws)

lemma stream_read_throws: "stream_read T os n s w = (Inl e, r) \<Longrightarrow> system_error e"
  by (cases s) (auto split: prod.splits dest: simple_read_throws UnixServerStream_read_throws)

sublocale posix < system: system_stream "sys_env T os" for T
proof
  fix p t w e w'
  assume "io_waitRead (sys_env T os) p t w = (Inl e, w')"
  then show "system_error e"
    by (auto simp: sys_env_def on_object_def dest: stream_waitRead_throws
        split: option.splits prod.splits)
next
  fix p n w e w'
  assume "io_read (sys_env T os) p n w = (Inl e, w')"
  then show "system_error e"
    by (auto simp: on_object_def dest: stream_read_throws split: option.splits prod.splits)
qed

context posix
begin

lemma sys_env_system: "system_stream (sys_env T os)"
  by (rule system.system_stream_axioms)

end

end
