(* ===== verification/Forward_Model.thy ===== *)
theory Forward_Model
  imports Driver_Raw Driver_Writing Stream_Errors Pipe_Os
begin

text \<open>
  \<^verbatim>\<open>src/src/Forward.cpp\<close>: data is moved both ways between two drivers until one of them
  reports the end of its file. The member pointer \<open>ReadMode\<close> is a function applied to the
  driver it is called on; \<^verbatim>\<open>select\<close> on several descriptors is an argument.
\<close>

section \<open>The functions\<close>

text \<open>\<open>select nfds fds timeout\<close>: the error, or the descriptors that are ready; it has returned
  zero if there are none.\<close>

type_synonym 'w select_fds = "int \<Rightarrow> int list \<Rightarrow> timeval \<Rightarrow> 'w \<Rightarrow> (int + int list) \<times> 'w"

type_synonym ('w, 't) read_fun =
  "byte list \<Rightarrow> int \<Rightarrow> 't \<Rightarrow> 't driver \<Rightarrow> 'w \<Rightarrow> ((exn + nat) \<times> 't driver \<times> byte list \<times> 'w) option"

text \<open>\<open>readMode\<close>: the overload of \<open>readRaw\<close> or \<open>readPacket\<close> with one timeout. \<open>ext\<close> is
  \<open>extractPacket\<close> of the class of the driver it is applied to.\<close>

definition readMode ::
  "('w, 't::linordered_ab_group_add) env \<Rightarrow> bool \<Rightarrow> (byte list \<Rightarrow> int) \<Rightarrow> ('w, 't) read_fun" where
  "readMode env raw_mode ext = (if raw_mode then readRaw_timeout env else readPacket_timeout env ext)"

text \<open>The handler leaves \<open>size\<close> at zero.\<close>

definition catch_timeout :: "exn + nat \<Rightarrow> exn + nat" where
  "catch_timeout r = (case r of Inl (TimeoutError t) \<Rightarrow> Inr 0 | _ \<Rightarrow> r)"

definition forwardData ::
  "'t::linordered_ab_group_add time_ops \<Rightarrow> ('w, 't) env \<Rightarrow> ('w, 't) read_fun \<Rightarrow> byte list \<Rightarrow> int \<Rightarrow> 't
     \<Rightarrow> 't driver \<Rightarrow> 't driver \<Rightarrow> 'w
     \<Rightarrow> ((exn + nat) \<times> 't driver \<times> 't driver \<times> byte list \<times> 'w) option" where
  "forwardData T env mode buffer buffer_size timeout from to w =
     Option.bind (mode buffer buffer_size timeout from w) (\<lambda>(r, from1, buffer1, w1).
       (case catch_timeout r of
          Inl e \<Rightarrow> Some (Inl e, from1, to, buffer1, w1)
        | Inr sz \<Rightarrow>
            if sz \<noteq> 0 then
              map_option (\<lambda>(rw, to1, w2). (map_sum id (\<lambda>_. sz) rw, from1, to1, buffer1, w2))
                (writePacket_default (fromMicroseconds T) (toMilliseconds T) env buffer1 (int sz) to w1)
            else Some (Inr 0, from1, to, buffer1, w1)))"

text \<open>The sets are as \<^verbatim>\<open>FD_SET\<close> left them when \<^verbatim>\<open>select\<close> was interrupted: both
  descriptors count as ready.\<close>

definition selected :: "int \<Rightarrow> int \<Rightarrow> int + int list \<Rightarrow> exn + int list" where
  "selected fd1 fd2 r =
     (case r of
        Inl errno \<Rightarrow> if errno \<noteq> EINTR then Inl (UnixError errno) else Inr [fd1, fd2]
      | Inr ready \<Rightarrow> Inr ready)"

text \<open>The body of the loop. \<^verbatim>\<open>&buffer[0]\<close> of an empty vector is undefined, like
  \<^verbatim>\<open>FD_SET\<close> outside the set. The result keeps the drivers in their order.\<close>

definition forward_body ::
  "'t::linordered_ab_group_add time_ops \<Rightarrow> ('w, 't) env \<Rightarrow> 'w select_fds \<Rightarrow> ('w, 't) read_fun
     \<Rightarrow> ('w, 't) read_fun \<Rightarrow> int \<Rightarrow> int \<Rightarrow> int \<Rightarrow> 't
     \<Rightarrow> 't driver \<Rightarrow> 't driver \<Rightarrow> byte list \<Rightarrow> 'w
     \<Rightarrow> ((exn + unit) \<times> 't driver \<times> 't driver \<times> byte list \<times> 'w) option" where
  "forward_body T env select mode1 mode2 fd1 fd2 buffer_size timeout1 d1 d2 buffer w =
     (if fd1 < 0 \<or> FD_SETSIZE \<le> fd1 \<or> fd2 < 0 \<or> FD_SETSIZE \<le> fd2
      then Some (Inl UndefinedBehaviour, d1, d2, buffer, w)
      else case select (max fd1 fd2 + 1) [fd1, fd2] \<lparr>tv_sec = 10, tv_usec = 0\<rparr> w of (ret, w1) \<Rightarrow>
        (case selected fd1 fd2 ret of
           Inl e \<Rightarrow> Some (Inl e, d1, d2, buffer, w1)
         | Inr ready \<Rightarrow>
             if ready \<noteq> [] \<and> buffer = [] then Some (Inl UndefinedBehaviour, d1, d2, buffer, w1)
             else
               Option.bind
                 (if fd1 \<in> set ready
                  then forwardData T env mode1 buffer buffer_size timeout1 d1 d2 w1
                  else Some (Inr 0, d1, d2, buffer, w1))
                 (\<lambda>(r1, d1', d2', buffer', w2).
                   (case r1 of
                      Inl e \<Rightarrow> Some (Inl e, d1', d2', buffer', w2)
                    | Inr _ \<Rightarrow>
                        map_option (\<lambda>(r2, d2'', d1'', buffer'', w3).
                            (map_sum id (\<lambda>_. ()) r2, d1'', d2'', buffer'', w3))
                          (if fd2 \<in> set ready
                           then forwardData T env mode2 buffer' buffer_size timeout1 d2' d1' w2
                           else Some (Inr 0, d2', d1', buffer', w2))))))"

text \<open>The condition: \<open>eof\<close> of the second driver is asked only if the first has not ended.\<close>

definition forward_goes_on :: "('w, 't) env \<Rightarrow> 't driver \<Rightarrow> 't driver \<Rightarrow> 'w \<Rightarrow> exn + bool" where
  "forward_goes_on env d1 d2 w =
     (case eof env d1 w of
        Inl e \<Rightarrow> Inl e
      | Inr ended \<Rightarrow> if ended then Inr False else map_sum id Not (eof env d2 w))"

partial_function (option) forward_loop ::
  "'t::linordered_ab_group_add time_ops \<Rightarrow> ('w, 't) env \<Rightarrow> 'w select_fds \<Rightarrow> ('w, 't) read_fun
     \<Rightarrow> ('w, 't) read_fun \<Rightarrow> int \<Rightarrow> int \<Rightarrow> int \<Rightarrow> 't
     \<Rightarrow> 't driver \<Rightarrow> 't driver \<Rightarrow> byte list \<Rightarrow> 'w
     \<Rightarrow> ((exn + unit) \<times> 't driver \<times> 't driver \<times> byte list \<times> 'w) option" where
  "forward_loop T env select mode1 mode2 fd1 fd2 buffer_size timeout1 d1 d2 buffer w =
     (case forward_goes_on env d1 d2 w of
        Inl e \<Rightarrow> Some (Inl e, d1, d2, buffer, w)
      | Inr go \<Rightarrow>
          if \<not> go then Some (Inr (), d1, d2, buffer, w)
          else Option.bind
            (forward_body T env select mode1 mode2 fd1 fd2 buffer_size timeout1 d1 d2 buffer w)
            (\<lambda>(r, d1', d2', buffer', w1).
              (case r of
                 Inl e \<Rightarrow> Some (Inl e, d1', d2', buffer', w1)
               | Inr _ \<Rightarrow>
                   forward_loop T env select mode1 mode2 fd1 fd2 buffer_size timeout1 d1' d2' buffer' w1)))"

declare forward_loop.simps [code]

text \<open>\<open>timeout2\<close> is not used. \<open>buffer_size\<close> is converted to \<^verbatim>\<open>int\<close> where it is passed on.\<close>

definition forward ::
  "'t::linordered_ab_group_add time_ops \<Rightarrow> ('w, 't) env \<Rightarrow> 'w select_fds \<Rightarrow> (byte list \<Rightarrow> int)
     \<Rightarrow> (byte list \<Rightarrow> int) \<Rightarrow> bool \<Rightarrow> 't driver \<Rightarrow> 't driver \<Rightarrow> 't \<Rightarrow> 't \<Rightarrow> nat \<Rightarrow> 'w
     \<Rightarrow> ((exn + unit) \<times> 't driver \<times> 't driver \<times> 'w) option" where
  "forward T env select ext1 ext2 raw_mode d1 d2 timeout1 timeout2 buffer_size w =
     (let buffer = replicate buffer_size 0;
          fd1 = getFileDescriptor env d1 w;
          fd2 = getFileDescriptor env d2 w
      in map_option (\<lambda>(r, d1', d2', buffer', w'). (r, d1', d2', w'))
           (forward_loop T env select (readMode env raw_mode ext1) (readMode env raw_mode ext2)
              fd1 fd2 (sint (of_nat buffer_size :: u32)) timeout1 d1 d2 buffer w))"

section \<open>Runs\<close>

text \<open>The calls the drivers make, with calls of \<^verbatim>\<open>select\<close> in between.\<close>

inductive forward_run :: "('w, 't) env \<Rightarrow> 'w select_fds \<Rightarrow> 'w \<Rightarrow> 't event list \<Rightarrow> 'w \<Rightarrow> bool"
  for env select where
  forward_nil: "forward_run env select w [] w"
| forward_event:
    "io_step env w e w1 \<Longrightarrow> forward_run env select w1 es w2 \<Longrightarrow> forward_run env select w (e # es) w2"
| forward_select:
    "select n fds t w = (r, w1) \<Longrightarrow> forward_run env select w1 es w2 \<Longrightarrow> forward_run env select w es w2"

lemma forward_run_io:
  "io_run env w es w1 \<Longrightarrow> forward_run env select w1 fs w2 \<Longrightarrow> forward_run env select w (es @ fs) w2"
  by (induction rule: io_run.induct) (auto intro: forward_event)

lemma forward_run_append:
  "forward_run env select w es w1 \<Longrightarrow> forward_run env select w1 fs w2 \<Longrightarrow>
     forward_run env select w (es @ fs) w2"
  by (induction rule: forward_run.induct) (auto intro: forward_event forward_select)

lemma io_forward_run: "io_run env w es w' \<Longrightarrow> forward_run env select w es w'"
  using forward_run_io [OF _ forward_nil, of env w es w'] by simp

section \<open>What is relayed\<close>

text \<open>
  \<open>moves q r out q'\<close>: with \<open>q\<close> queued, reading \<open>r\<close> passes \<open>out\<close> on and leaves \<open>q'\<close> in
  the queue. When a call throws in between, what went out is still the beginning of what a
  part of the input gives.
\<close>

type_synonym moves = "byte list \<Rightarrow> byte list \<Rightarrow> byte list \<Rightarrow> byte list \<Rightarrow> bool"

definition relayed :: "moves \<Rightarrow> byte list \<Rightarrow> byte list \<Rightarrow> byte list \<Rightarrow> bool" where
  "relayed moves q rd wr \<longleftrightarrow> (\<exists>r out q'. prefix r rd \<and> prefix wr out \<and> moves q r out q')"

definition raw_moves :: moves where
  "raw_moves q r out q' \<longleftrightarrow> q @ r = out @ q'"

definition packet_moves :: "(byte list \<Rightarrow> int) \<Rightarrow> moves" where
  "packet_moves ext q r out q' \<longleftrightarrow>
     (\<exists>ps. out = concat ps \<and> (\<forall>c. packets ext (q @ r @ c) = ps @ packets ext (q' @ c)))"

definition exchanged ::
  "moves \<Rightarrow> moves \<Rightarrow> ptr \<Rightarrow> ptr \<Rightarrow> 't driver \<Rightarrow> 't driver \<Rightarrow> 't event list \<Rightarrow> 't driver \<Rightarrow> 't driver \<Rightarrow> bool" where
  "exchanged moves1 moves2 p1 p2 d1 d2 es d1' d2' \<longleftrightarrow>
     moves1 (queued d1) (bytes_read p1 es) (bytes_written p2 es) (queued d1')
     \<and> moves2 (queued d2) (bytes_read p2 es) (bytes_written p1 es) (queued d2')"

definition exchanged_part ::
  "moves \<Rightarrow> moves \<Rightarrow> ptr \<Rightarrow> ptr \<Rightarrow> 't driver \<Rightarrow> 't driver \<Rightarrow> 't event list \<Rightarrow> bool" where
  "exchanged_part moves1 moves2 p1 p2 d1 d2 es \<longleftrightarrow>
     relayed moves1 (queued d1) (bytes_read p1 es) (bytes_written p2 es)
     \<and> relayed moves2 (queued d2) (bytes_read p2 es) (bytes_written p1 es)"

lemma raw_relayed: "relayed raw_moves q rd wr \<longleftrightarrow> prefix wr (q @ rd)"
proof
  assume "relayed raw_moves q rd wr"
  then show "prefix wr (q @ rd)"
    by (auto simp: relayed_def raw_moves_def) (metis append.assoc prefix_def)
next
  assume "prefix wr (q @ rd)"
  then obtain z where "q @ rd = wr @ z" by (auto simp: prefix_def)
  then show "relayed raw_moves q rd wr"
    unfolding relayed_def raw_moves_def
    by (intro exI [of _ rd] exI [of _ wr] exI [of _ z]) auto
qed

text \<open>One way of reading, with the drivers it is used on (\<open>fits\<close>) and the size of the buffer.\<close>

locale relay = io_contract env
  for env :: "('w, 't::linordered_ab_group_add) env" +
  fixes mode :: "('w, 't) read_fun" and moves :: moves and fits :: "'t driver \<Rightarrow> bool" and n :: int
  assumes moves_none: "moves q [] [] q"
    and moves_trans: "moves q r out q' \<Longrightarrow> moves q' r' out' q'' \<Longrightarrow> moves q (r @ r') (out @ out') q''"
    and fits_stats: "fits (d\<lparr>m_stats := s\<rparr>) = fits d"
    and mode_moves:
      "mode buffer n t d w = Some (res, d', buffer', w') \<Longrightarrow> driver_wf d \<Longrightarrow> m_stream d = Some p \<Longrightarrow>
         fits d \<Longrightarrow> 0 \<le> n \<Longrightarrow> length buffer = nat n \<Longrightarrow>
         \<exists>es. io_run env w es w' \<and> reads_from p es \<and> driver_wf d' \<and> m_stream d' = Some p \<and> fits d'
           \<and> length buffer' = length buffer
           \<and> (\<forall>k. catch_timeout res = Inr k \<longrightarrow> k \<le> length buffer
               \<and> moves (queued d) (bytes_read p es) (take k buffer') (queued d'))"
begin

lemma relayed_none: "relayed moves q rd []"
  unfolding relayed_def by (metis moves_none Nil_prefix)

lemma relayed_moves: "moves q r out q' \<Longrightarrow> relayed moves q r out"
  by (auto simp: relayed_def)

lemma relayed_go: "moves q r out q' \<Longrightarrow> relayed moves q' rd wr \<Longrightarrow> relayed moves q (r @ rd) (out @ wr)"
  unfolding relayed_def by (metis moves_trans same_prefix_prefix)

lemma relayed_cut: "moves q r out q' \<Longrightarrow> prefix wr out \<Longrightarrow> relayed moves q r wr"
  by (auto simp: relayed_def)

lemma forwardData_moves:
  assumes "forwardData T env mode buffer n t d1 d2 w = Some (r, d1', d2', buffer', w')"
    and "driver_wf d1" "m_stream d1 = Some p1" "fits d1" "driver_wf d2" "m_stream d2 = Some p2"
    and "p1 \<noteq> p2" "0 \<le> n" "length buffer = nat n"
  obtains es s where "io_run env w es w'" "bytes_read p2 es = []" "bytes_written p1 es = []"
    "driver_wf d1'" "m_stream d1' = Some p1" "fits d1'" "d2' = d2\<lparr>m_stats := s\<rparr>"
    "length buffer' = length buffer"
    "case r of
       Inr _ \<Rightarrow> moves (queued d1) (bytes_read p1 es) (bytes_written p2 es) (queued d1')
     | Inl _ \<Rightarrow> relayed moves (queued d1) (bytes_read p1 es) (bytes_written p2 es)"
proof -
  obtain r0 d0 b1 w1 where m0: "mode buffer n t d1 w = Some (r0, d0, b1, w1)"
    using assms(1) by (auto simp: forwardData_def bind_eq_Some_conv)
  have rest0: "(case catch_timeout r0 of
          Inl e \<Rightarrow> Some (Inl e, d0, d2, b1, w1)
        | Inr sz \<Rightarrow>
            if sz \<noteq> 0 then
              map_option (\<lambda>(rw, to1, w2). (map_sum id (\<lambda>_. sz) rw, d0, to1, b1, w2))
                (writePacket_default (fromMicroseconds T) (toMilliseconds T) env b1 (int sz) d2 w1)
            else Some (Inr 0, d0, d2, b1, w1)) = Some (r, d1', d2', buffer', w')"
    using assms(1) by (simp add: forwardData_def m0)
  then have "d0 = d1'" by (auto split: sum.splits if_splits)
  note m = m0 [unfolded this] and rest = rest0 [unfolded this]
  from mode_moves [OF m assms(2-4,8,9)] obtain es where e: "io_run env w es w1" "reads_from p1 es"
    "driver_wf d1'" "m_stream d1' = Some p1" "fits d1'" "length b1 = length buffer"
    "\<forall>k. catch_timeout r0 = Inr k \<longrightarrow> k \<le> length buffer
      \<and> moves (queued d1) (bytes_read p1 es) (take k b1) (queued d1')" by blast
  note none = reads_from_traffic [OF e(2)]
  have keep: "d2 = d2\<lparr>m_stats := m_stats d2\<rparr>" by simp
  show thesis
  proof (cases "catch_timeout r0")
    case (Inl x)
    with rest have "r = Inl x" "d2' = d2" "buffer' = b1" "w' = w1" by auto
    with e none assms(7) show thesis
      by (intro that [of es "m_stats d2"]) (auto simp: relayed_none)
  next
    case (Inr sz)
    show thesis
    proof (cases "sz = 0")
      case True
      with rest Inr have "r = Inr 0" "d2' = d2" "buffer' = b1" "w' = w1" by auto
      moreover have "moves (queued d1) (bytes_read p1 es) [] (queued d1')"
        using e(7) Inr True by auto
      ultimately show thesis using e none assms(7) by (intro that [of es "m_stats d2"]) auto
    next
      case False
      have sz: "sz \<le> length b1" "moves (queued d1) (bytes_read p1 es) (take sz b1) (queued d1')"
        using e(6,7) Inr by auto
      obtain rw where wr: "writePacket_ms (fromMicroseconds T) env b1 (int sz)
          (sint (word_of_int (toMilliseconds T (getWriteTimeout d2)) :: u32)) d2 w1 = Some (rw, d2', w')"
        and r: "r = map_sum id (\<lambda>_. sz) rw" "buffer' = b1"
        using rest Inr False by (auto simp: writePacket_default_def writePacket_def)
      from writePacket_runs [OF assms(5,6) of_nat_0_le_iff _ wr, unfolded nat_int, OF sz(1)] obtain start fs k where f:
        "io_run env w1 (EvTimeOfDay start # fs) w'" "sent p2 (m_listeners d2) (take k b1) fs"
        and res: "case rw of Inr b \<Rightarrow> b \<and> k = sz \<and> (\<exists>now. d2' = d2\<lparr>m_stats := (m_stats d2)\<lparr>stamp := now,
                tx := tx (m_stats d2) + of_nat sz\<rparr>\<rparr>)
         | Inl e \<Rightarrow> k \<le> sz \<and> (0 < int sz \<longrightarrow> k < sz) \<and> d2' = d2
           \<and> write_reason p2 \<lparr>timeout_ms = word_of_int (sint (word_of_int (toMilliseconds T (getWriteTimeout d2)) :: u32)),
               start_time = start\<rparr> fs e"
        by blast
      have f3: "case rw of Inr b \<Rightarrow> k = sz \<and> (\<exists>s. d2' = d2\<lparr>m_stats := s\<rparr>) | Inl e \<Rightarrow> k \<le> sz \<and> d2' = d2"
        using res by (auto split: sum.splits)
      have "\<exists>s. d2' = d2\<lparr>m_stats := s\<rparr>"
      proof (cases rw)
        case (Inl e)
        with f3 have "d2' = d2" by simp
        with keep show ?thesis by metis
      next
        case (Inr b)
        with f3 show ?thesis by simp
      qed
      then obtain s where s: "d2' = d2\<lparr>m_stats := s\<rparr>" by blast
      have sent: "bytes_written p2 fs = take k b1" "writes_to p2 fs" using f(2) by (simp_all add: sent_def)
      have k: "k \<le> sz" using f3 by (cases rw) auto
      then have "prefix (take k b1) (take sz b1)" by (metis min.absorb1 take_is_prefix take_take)
      then have part: "relayed moves (queued d1) (bytes_read p1 es) (take k b1)"
        using sz(2) by (rule relayed_cut [rotated])
      show thesis
        by (rule that [of "es @ EvTimeOfDay start # fs" s])
          (use io_run_appendI [OF e(1) f(1)] none assms(7) sent writes_to_traffic [OF sent(2)] e(3-6) s r
            sz part f3 in \<open>auto split: sum.splits\<close>)
    qed
  qed
qed

end

section \<open>The loop\<close>

locale two_relays = r1: relay env mode1 moves1 fits1 n + r2: relay env mode2 moves2 fits2 n
  for env :: "('w, 't::linordered_ab_group_add) env" and mode1 moves1 fits1 mode2 moves2 fits2 n
begin

definition linked :: "ptr \<Rightarrow> ptr \<Rightarrow> 't driver \<Rightarrow> 't driver \<Rightarrow> byte list \<Rightarrow> bool" where
  "linked p1 p2 d1 d2 buffer \<longleftrightarrow> driver_wf d1 \<and> m_stream d1 = Some p1 \<and> fits1 d1
     \<and> driver_wf d2 \<and> m_stream d2 = Some p2 \<and> fits2 d2 \<and> length buffer = nat n"

definition forward_ok ::
  "'w select_fds \<Rightarrow> ptr \<Rightarrow> ptr \<Rightarrow> 't driver \<Rightarrow> 't driver \<Rightarrow> 'w
     \<Rightarrow> (exn + unit) \<times> 't driver \<times> 't driver \<times> byte list \<times> 'w \<Rightarrow> bool" where
  "forward_ok select p1 p2 d1 d2 w r \<longleftrightarrow> (case r of (res, d1', d2', buffer', w') \<Rightarrow>
     \<exists>es. forward_run env select w es w' \<and>
       (case res of
          Inr _ \<Rightarrow> linked p1 p2 d1' d2' buffer' \<and> exchanged moves1 moves2 p1 p2 d1 d2 es d1' d2'
        | Inl _ \<Rightarrow> exchanged_part moves1 moves2 p1 p2 d1 d2 es))"

lemma forward_ok_stay:
  "forward_run env select w [] w' \<Longrightarrow> linked p1 p2 d1 d2 buffer \<Longrightarrow>
     forward_ok select p1 p2 d1 d2 w (Inr (), d1, d2, buffer, w')"
  "forward_run env select w [] w' \<Longrightarrow> forward_ok select p1 p2 d1 d2 w (Inl e, d1, d2, buffer, w')"
  using r1.moves_none r2.moves_none r1.relayed_none r2.relayed_none
  by (auto simp: forward_ok_def exchanged_def exchanged_part_def intro!: exI [of _ "[]"])

lemma exchanged_go:
  "exchanged moves1 moves2 p1 p2 d1 d2 es d1' d2' \<Longrightarrow> exchanged moves1 moves2 p1 p2 d1' d2' fs d1'' d2'' \<Longrightarrow>
     exchanged moves1 moves2 p1 p2 d1 d2 (es @ fs) d1'' d2''"
  "exchanged moves1 moves2 p1 p2 d1 d2 es d1' d2' \<Longrightarrow> exchanged_part moves1 moves2 p1 p2 d1' d2' fs \<Longrightarrow>
     exchanged_part moves1 moves2 p1 p2 d1 d2 (es @ fs)"
  by (auto simp: exchanged_def exchanged_part_def
      intro: r1.moves_trans r2.moves_trans r1.relayed_go r2.relayed_go)

lemma forward_ok_go:
  assumes "forward_ok select p1 p2 d1 d2 w (Inr (), d1', d2', buffer', w1)"
    and "linked p1 p2 d1' d2' buffer' \<Longrightarrow> forward_ok select p1 p2 d1' d2' w1 r"
  shows "forward_ok select p1 p2 d1 d2 w r"
proof -
  obtain es where e: "forward_run env select w es w1" "linked p1 p2 d1' d2' buffer'"
    "exchanged moves1 moves2 p1 p2 d1 d2 es d1' d2'"
    using assms(1) by (auto simp: forward_ok_def)
  obtain res d1'' d2'' buffer'' w' where r: "r = (res, d1'', d2'', buffer'', w')" by (cases r)
  with assms(2) e(2) obtain fs where f: "forward_run env select w1 fs w'"
    "case res of
       Inr _ \<Rightarrow> linked p1 p2 d1'' d2'' buffer'' \<and> exchanged moves1 moves2 p1 p2 d1' d2' fs d1'' d2''
     | Inl _ \<Rightarrow> exchanged_part moves1 moves2 p1 p2 d1' d2' fs"
    by (auto simp: forward_ok_def)
  with e forward_run_append [OF e(1) f(1)] exchanged_go [OF e(3)] show ?thesis
    unfolding r forward_ok_def prod.case by (intro exI [of _ "es @ fs"]) (auto split: sum.splits)
qed

text \<open>One call of \<open>forwardData\<close>, in each direction.\<close>

lemma forwardData_ok1:
  assumes "forwardData T env mode1 buffer n t d1 d2 w = Some (r, d1', d2', buffer', w')"
    and "linked p1 p2 d1 d2 buffer" "p1 \<noteq> p2" "0 \<le> n"
  shows "forward_ok select p1 p2 d1 d2 w (map_sum id (\<lambda>_. ()) r, d1', d2', buffer', w')"
proof -
  have l: "driver_wf d1" "m_stream d1 = Some p1" "fits1 d1" "driver_wf d2" "m_stream d2 = Some p2"
    "fits2 d2" "length buffer = nat n" using assms(2) by (simp_all add: linked_def)
  from r1.forwardData_moves [OF assms(1) l(1-5) assms(3,4) l(7)] obtain es s where e:
    "io_run env w es w'" "bytes_read p2 es = []" "bytes_written p1 es = []"
    "driver_wf d1'" "m_stream d1' = Some p1" "fits1 d1'" "d2' = d2\<lparr>m_stats := s\<rparr>"
    "length buffer' = length buffer"
    "case r of
       Inr _ \<Rightarrow> moves1 (queued d1) (bytes_read p1 es) (bytes_written p2 es) (queued d1')
     | Inl _ \<Rightarrow> relayed moves1 (queued d1) (bytes_read p1 es) (bytes_written p2 es)" by blast
  then show ?thesis
    unfolding forward_ok_def prod.case
    by (intro exI [of _ es])
      (use l r2.moves_none r2.relayed_none in
        \<open>auto simp: exchanged_def exchanged_part_def linked_def r2.fits_stats intro: io_forward_run
          split: sum.splits\<close>)
qed

lemma forwardData_ok2:
  assumes "forwardData T env mode2 buffer n t d2 d1 w = Some (r, d2', d1', buffer', w')"
    and "linked p1 p2 d1 d2 buffer" "p1 \<noteq> p2" "0 \<le> n"
  shows "forward_ok select p1 p2 d1 d2 w (map_sum id (\<lambda>_. ()) r, d1', d2', buffer', w')"
proof -
  have l: "driver_wf d2" "m_stream d2 = Some p2" "fits2 d2" "driver_wf d1" "m_stream d1 = Some p1"
    "fits1 d1" "length buffer = nat n" using assms(2) by (simp_all add: linked_def)
  from r2.forwardData_moves [OF assms(1) l(1-5) assms(3) [symmetric] assms(4) l(7)] obtain es s where e:
    "io_run env w es w'" "bytes_read p1 es = []" "bytes_written p2 es = []"
    "driver_wf d2'" "m_stream d2' = Some p2" "fits2 d2'" "d1' = d1\<lparr>m_stats := s\<rparr>"
    "length buffer' = length buffer"
    "case r of
       Inr _ \<Rightarrow> moves2 (queued d2) (bytes_read p2 es) (bytes_written p1 es) (queued d2')
     | Inl _ \<Rightarrow> relayed moves2 (queued d2) (bytes_read p2 es) (bytes_written p1 es)" by blast
  then show ?thesis
    unfolding forward_ok_def prod.case
    by (intro exI [of _ es])
      (use l r1.moves_none r1.relayed_none in
        \<open>auto simp: exchanged_def exchanged_part_def linked_def r1.fits_stats intro: io_forward_run
          split: sum.splits\<close>)
qed

lemma forward_body_ok:
  assumes "forward_body T env select mode1 mode2 fd1 fd2 n t d1 d2 buffer w = Some r"
    and "linked p1 p2 d1 d2 buffer" "p1 \<noteq> p2" "0 \<le> n"
  shows "forward_ok select p1 p2 d1 d2 w r"
proof (cases "fd1 < 0 \<or> FD_SETSIZE \<le> fd1 \<or> fd2 < 0 \<or> FD_SETSIZE \<le> fd2")
  case True
  with assms(1) show ?thesis
    by (auto simp: forward_body_def intro: forward_ok_stay forward_nil)
next
  case False
  obtain ret w1 where sel: "select (max fd1 fd2 + 1) [fd1, fd2] \<lparr>tv_sec = 10, tv_usec = 0\<rparr> w = (ret, w1)"
    by fastforce
  then have run: "forward_run env select w [] w1" by (rule forward_select) (rule forward_nil)
  note body = assms(1) [unfolded forward_body_def if_not_P [OF False] sel prod.case]
  show ?thesis
  proof (cases "selected fd1 fd2 ret")
    case (Inl e)
    with body run show ?thesis by (auto intro: forward_ok_stay)
  next
    case (Inr ready)
    show ?thesis
    proof (cases "ready \<noteq> [] \<and> buffer = []")
      case True
      with body Inr run show ?thesis by (auto intro: forward_ok_stay)
    next
      case full: False
      obtain r1 d1' d2' b1 w2 where one:
        "(if fd1 \<in> set ready then forwardData T env mode1 buffer n t d1 d2 w1
          else Some (Inr 0, d1, d2, buffer, w1)) = Some (r1, d1', d2', b1, w2)"
        and two: "(case r1 of
                      Inl e \<Rightarrow> Some (Inl e, d1', d2', b1, w2)
                    | Inr _ \<Rightarrow>
                        map_option (\<lambda>(r2, d2'', d1'', buffer'', w3).
                            (map_sum id (\<lambda>_. ()) r2, d1'', d2'', buffer'', w3))
                          (if fd2 \<in> set ready
                           then forwardData T env mode2 b1 n t d2' d1' w2
                           else Some (Inr 0, d2', d1', b1, w2))) = Some r"
        using body Inr full by (auto simp: bind_eq_Some_conv split: if_splits)
      have start: "forward_ok select p1 p2 d1 d2 w (Inr (), d1, d2, buffer, w1)"
        by (rule forward_ok_stay(1) [OF run assms(2)])
      have ok1: "forward_ok select p1 p2 d1 d2 w (map_sum id (\<lambda>_. ()) r1, d1', d2', b1, w2)"
      proof (cases "fd1 \<in> set ready")
        case True
        then show ?thesis
          by (intro forward_ok_go [OF start])
            (use one assms(3,4) in \<open>auto intro: forwardData_ok1\<close>)
      next
        case False
        with one start show ?thesis by auto
      qed
      show ?thesis
      proof (cases r1)
        case (Inl e)
        with two ok1 show ?thesis by auto
      next
        case (Inr u)
        obtain r2 d1'' d2'' b2 w3 where r: "r = (map_sum id (\<lambda>_. ()) r2, d1'', d2'', b2, w3)"
          and three: "(if fd2 \<in> set ready then forwardData T env mode2 b1 n t d2' d1' w2
                       else Some (Inr 0, d2', d1', b1, w2)) = Some (r2, d2'', d1'', b2, w3)"
          using two Inr by auto
        have ok1': "forward_ok select p1 p2 d1 d2 w (Inr (), d1', d2', b1, w2)"
          using ok1 Inr by simp
        show ?thesis
        proof (cases "fd2 \<in> set ready")
          case True
          then show ?thesis
            unfolding r
            by (intro forward_ok_go [OF ok1'])
              (use three assms(3,4) in \<open>auto intro: forwardData_ok2\<close>)
        next
          case False
          with three r ok1' show ?thesis by auto
        qed
      qed
    qed
  qed
qed

lemma forward_loop_ok:
  assumes "forward_loop T env select mode1 mode2 fd1 fd2 n t d1 d2 buffer w = Some r"
    and "linked p1 p2 d1 d2 buffer" "p1 \<noteq> p2" "0 \<le> n"
  shows "forward_ok select p1 p2 d1 d2 w r"
proof -
  let ?P = "\<lambda>T' env' select' mode1' mode2' fd1' fd2' n' t' d1 d2 buffer w r.
    T' = T \<longrightarrow> env' = env \<longrightarrow> select' = select \<longrightarrow> mode1' = mode1 \<longrightarrow> mode2' = mode2 \<longrightarrow> fd1' = fd1 \<longrightarrow>
    fd2' = fd2 \<longrightarrow> n' = n \<longrightarrow> t' = t \<longrightarrow> linked p1 p2 d1 d2 buffer \<longrightarrow>
    forward_ok select p1 p2 d1 d2 w r"
  have "?P T env select mode1 mode2 fd1 fd2 n t d1 d2 buffer w r"
  proof (rule forward_loop.raw_induct [where P = ?P, OF _ assms(1)], intro impI, goal_cases)
    case (1 f T' env' select' mode1' mode2' fd1' fd2' n' t' d1 d2 buffer w r)
    note eqs = 1(3-11) and linked = 1(12)
    note body = 1(2) [unfolded eqs]
    have stay: "forward_run env select w [] w" by (rule forward_nil)
    show ?case
    proof (cases "forward_goes_on env d1 d2 w = Inr True")
      case False
      then have "r = (Inr (), d1, d2, buffer, w) \<or> (\<exists>e. r = (Inl e, d1, d2, buffer, w))"
        using body by (auto split: sum.splits if_splits)
      then show ?thesis using forward_ok_stay [OF stay] linked by auto
    next
      case True
      obtain res d1' d2' b1 w1 where b:
        "forward_body T env select mode1 mode2 fd1 fd2 n t d1 d2 buffer w = Some (res, d1', d2', b1, w1)"
        and more: "(case res of
             Inl e \<Rightarrow> Some (Inl e, d1', d2', b1, w1)
           | Inr _ \<Rightarrow> f T env select mode1 mode2 fd1 fd2 n t d1' d2' b1 w1) = Some r"
        using body True by (auto simp: bind_eq_Some_conv)
      note ok = forward_body_ok [OF b linked assms(3,4)]
      show ?thesis
      proof (cases res)
        case (Inl e)
        with more ok show ?thesis by auto
      next
        case (Inr u)
        then have ok': "forward_ok select p1 p2 d1 d2 w (Inr (), d1', d2', b1, w1)"
          and rest: "f T env select mode1 mode2 fd1 fd2 n t d1' d2' b1 w1 = Some r"
          using more ok by auto
        show ?thesis
          by (rule forward_ok_go [OF ok']) (use 1(1) rest eqs in auto)
      qed
    qed
  qed
  with assms(2) show ?thesis by blast
qed

end

end
