(* ===== verification/Forwarding.thy ===== *)
theory Forwarding
  imports Forward_Model
begin

text \<open>
  The properties of \<open>forward\<close> (\<^verbatim>\<open>src/src/Forward.cpp\<close>): the two ways of reading are
  instances of the interface \<open>relay\<close>, and the session ends when one side does.
\<close>

section \<open>The two ways of reading\<close>

sublocale system_stream < raw: relay env "readRaw_timeout env" raw_moves "\<lambda>_. True" n for n
proof
  fix q r out q' r' out' q''
  assume "raw_moves q r out q'" "raw_moves q' r' out' q''"
  then show "raw_moves q (r @ r') (out @ out') q''"
    unfolding raw_moves_def by (metis append.assoc)
next
  fix buffer t d w res d' buffer' w' p
  assume run: "readRaw_timeout env buffer n t d w = Some (res, d', buffer', w')"
    and d: "driver_wf d" "m_stream d = Some p" and n: "0 \<le> n" "length buffer = nat n"
  have len: "n \<le> int (length buffer)" using n by simp
  from readRaw_runs [OF d n(1) len run [unfolded readRaw_timeout_def]] obtain t0 es k where
    k: "k = min (internal_buffer_size d) (nat n)" and e: "io_run env w (EvNow t0 # es) w'"
    "reads_from p es" "length buffer' = length buffer" "driver_wf d'" "queued d' = drop k (queued d)"
    "same_config d d'"
    and res: "case res of
         Inr m \<Rightarrow> m = k + length (bytes_read p es) \<and> int m \<le> n
           \<and> take m buffer' = take k (queued d) @ bytes_read p es
           \<and> (int m < n \<longrightarrow> (\<exists>t'. EvWaitRead p t' (Inr False) \<in> set es)
               \<or> overdue t (t0 + min t t) False t0 es)
       | Inl e \<Rightarrow> stream_threw p e es" by blast
  have "i \<le> length buffer \<and> raw_moves (queued d) (bytes_read p es) (take i buffer') (queued d')"
    if i: "catch_timeout res = Inr i" for i
  proof (cases res)
    case (Inl x)
    then have "stream_threw p x (EvNow t0 # es)" using res by (auto simp: stream_threw_def)
    from threw_system_error [OF e(1) this] Inl i show ?thesis
      by (auto simp: catch_timeout_def system_error_def)
  next
    case (Inr m)
    then have m: "i = m" "m = k + length (bytes_read p es)" "int m \<le> n"
      "take m buffer' = take k (queued d) @ bytes_read p es"
      using res i by (auto simp: catch_timeout_def)
    have "bytes_read p es = [] \<or> drop k (queued d) = []"
      using m(2,3) k n d(1) by (cases "bytes_read p es") auto
    then show ?thesis
      unfolding raw_moves_def using m e(5) n by auto
  qed
  then show "\<exists>es. io_run env w es w' \<and> reads_from p es \<and> driver_wf d' \<and> m_stream d' = Some p \<and> True
      \<and> length buffer' = length buffer
      \<and> (\<forall>k. catch_timeout res = Inr k \<longrightarrow> k \<le> length buffer
          \<and> raw_moves (queued d) (bytes_read p es) (take k buffer') (queued d'))"
    using e d(2) same_configD(2) [OF e(6)] by (intro exI [of _ "EvNow t0 # es"]) auto
qed (simp_all add: raw_moves_def)

locale stable_driver = driver_env env ext + stable_extractor ext
  for env :: "('w, 't::linordered_ab_group_add) env" and ext

interpretation stable_test: stable_driver "test_env now tod" DriverTest_extractPacket
  for now :: "'c \<Rightarrow> 't::linordered_ab_group_add \<times> 'c" and tod
  by unfold_locales

sublocale stable_driver < packet: relay env "readPacket_timeout env ext" "packet_moves ext"
  "\<lambda>d. \<not> m_extract_last d \<and> MAX_PACKET_SIZE d \<le> n" n for n
proof
  fix q r out q' r' out' q''
  assume "packet_moves ext q r out q'" "packet_moves ext q' r' out' q''"
  then obtain ps qs where "out = concat ps" "out' = concat qs"
    and a: "\<And>c. packets ext (q @ r @ c) = ps @ packets ext (q' @ c)"
      "\<And>c. packets ext (q' @ r' @ c) = qs @ packets ext (q'' @ c)"
    unfolding packet_moves_def by blast
  then show "packet_moves ext q (r @ r') (out @ out') q''"
    unfolding packet_moves_def by (intro exI [of _ "ps @ qs"]) simp
next
  fix buffer t d w res d' buffer' w' p
  assume run: "readPacket_timeout env ext buffer n t d w = Some (res, d', buffer', w')"
    and d: "driver_wf d" "m_stream d = Some p"
    and fits: "\<not> m_extract_last d \<and> MAX_PACKET_SIZE d \<le> n" and n: "0 \<le> n" "length buffer = nat n"
  have big: "MAX_PACKET_SIZE d \<le> n" "nat (MAX_PACKET_SIZE d) \<le> length buffer" using fits n by auto
  obtain es where e: "io_run env w es w'"
    "reads_as ext p d es (good_packets [map_sum id (\<lambda>k. take k buffer') res]) d'"
    "length buffer' = length buffer"
    "\<forall>k. res = Inr k \<longrightarrow> 0 < k \<and> k \<le> nat (MAX_PACKET_SIZE d)"
    by (rule readPacket_one [OF run [unfolded readPacket_timeout_def] d _ big]) (use fits in auto)
  note cfg = same_configD [OF reads_asD(2) [OF e(2)]]
  have out: "take i buffer' = concat (good_packets [map_sum id (\<lambda>k. take k buffer') res])"
    "i \<le> length buffer" if "catch_timeout res = Inr i" for i
    using that e(4) big(2) by (auto simp: catch_timeout_def split: sum.splits exn.splits)
  have "packet_moves ext (queued d) (bytes_read p es) (take i buffer') (queued d')"
    if "catch_timeout res = Inr i" for i
    unfolding packet_moves_def out(1) [OF that] using reads_as_packets [OF e(2)] by blast
  then show "\<exists>es. io_run env w es w' \<and> reads_from p es \<and> driver_wf d' \<and> m_stream d' = Some p
      \<and> (\<not> m_extract_last d' \<and> MAX_PACKET_SIZE d' \<le> n) \<and> length buffer' = length buffer
      \<and> (\<forall>k. catch_timeout res = Inr k \<longrightarrow> k \<le> length buffer
          \<and> packet_moves ext (queued d) (bytes_read p es) (take k buffer') (queued d'))"
    using e(1,3) reads_asD(1,5) [OF e(2)] cfg d(2) fits out(2) by (intro exI [of _ es]) auto
qed (auto simp: packet_moves_def)

context stable_driver
begin

lemma packet_mode_relay:
  "relay env (readPacket_timeout env ext) (packet_moves ext)
     (\<lambda>d. \<not> m_extract_last d \<and> MAX_PACKET_SIZE d \<le> n) n"
  by (rule packet.relay_axioms)

end

lemma packet_relay:
  "io_contract env \<Longrightarrow> stable_extractor ext \<Longrightarrow>
     relay env (readPacket_timeout env ext) (packet_moves ext)
       (\<lambda>d. \<not> m_extract_last d \<and> MAX_PACKET_SIZE d \<le> n) n"
  by (intro stable_driver.packet_mode_relay stable_driver.intro driver_env.intro)
    (auto simp: stable_extractor_def)

text \<open>\<^verbatim>\<open>buffer_size\<close> as an \<^verbatim>\<open>int\<close>.\<close>

lemma int_of_size: "n < 2 ^ 31 \<Longrightarrow> sint (of_nat n :: u32) = int n"
  by (simp add: signed_of_nat signed_take_bit_int_eq_self)

context system_stream
begin

lemma raw_relay: "relay env (readRaw_timeout env) raw_moves (\<lambda>_. True) n"
  by (rule raw.relay_axioms)

end

section \<open>Properties\<close>

text \<open>C14 \<open>forward\<close> in raw mode is a lossless two-way pipe. When it returns, what each driver had
  queued or read has been written to the other one, in order, without loss, repetition or
  invention, except what is still queued. When it throws, what was written is the beginning of
  what was queued and read. This needs two different streams whose reading calls throw errors of
  the system only, as those of the library do.\<close>

theorem forward_raw_conserves:
  assumes "system_stream env" "driver_wf d1" "m_stream d1 = Some p1" "driver_wf d2" "m_stream d2 = Some p2"
    and "p1 \<noteq> p2" "buffer_size < 2 ^ 31"
    and "forward T env select ext1 ext2 True d1 d2 timeout1 timeout2 buffer_size w = Some (res, d1', d2', w')"
  shows "\<exists>es. forward_run env select w es w' \<and>
    (case res of
       Inr _ \<Rightarrow> queued d1 @ bytes_read p1 es = bytes_written p2 es @ queued d1'
         \<and> queued d2 @ bytes_read p2 es = bytes_written p1 es @ queued d2'
     | Inl _ \<Rightarrow> prefix (bytes_written p2 es) (queued d1 @ bytes_read p1 es)
         \<and> prefix (bytes_written p1 es) (queued d2 @ bytes_read p2 es))"
proof -
  have raw: "relay env (readRaw_timeout env) raw_moves (\<lambda>_. True) (int buffer_size)"
    by (rule system_stream.raw_relay [OF assms(1)])
  have pair: "two_relays env (readRaw_timeout env) raw_moves (\<lambda>_. True) (readRaw_timeout env) raw_moves
      (\<lambda>_. True) (int buffer_size)"
    by (rule two_relays.intro [OF raw raw])
  obtain b where loop: "forward_loop T env select (readRaw_timeout env) (readRaw_timeout env)
      (getFileDescriptor env d1 w) (getFileDescriptor env d2 w) (int buffer_size) timeout1 d1 d2
      (replicate buffer_size 0) w = Some (res, d1', d2', b, w')"
    using assms(8) int_of_size [OF assms(7)] by (auto simp: forward_def readMode_def Let_def)
  have "two_relays.linked (\<lambda>_. True) (\<lambda>_. True) (int buffer_size) p1 p2 d1 d2 (replicate buffer_size 0)"
    using assms(2-5) by (simp add: two_relays.linked_def [OF pair])
  from two_relays.forward_loop_ok [OF pair loop this assms(6)] show ?thesis
    unfolding two_relays.forward_ok_def [OF pair] prod.case exchanged_def exchanged_part_def
      raw_relayed raw_moves_def
    by (auto split: sum.splits)
qed

text \<open>Two descriptors of \<open>Pipe_Os\<close>: \<open>[1, 2]\<close> and the end of the file wait on 7, \<open>[3]\<close> on 8.\<close>

definition link_driver :: "ptr \<Rightarrow> int driver" where
  "link_driver p = (demo_driver False)\<lparr>m_stream := Some p\<rparr>"

definition link_heap :: "pipes \<Rightarrow> pipes heap" where
  "link_heap os = \<lparr>h_streams = (\<lambda>_. None)
       (Ptr 1 \<mapsto> FD \<lparr>fd_auto_close = True, fd_has_eof = True, fd_eof = False, fd_no = 7\<rparr>,
        Ptr 3 \<mapsto> FD \<lparr>fd_auto_close = True, fd_has_eof = True, fd_eof = False, fd_no = 8\<rparr>),
     h_listeners = (\<lambda>_. None), h_next = 4, h_os = os\<rparr>"

definition pipe_select :: "pipes heap select_fds" where
  "pipe_select nfds fds t w =
     (Inr (filter (\<lambda>fd. p_messages (h_os w) fd \<noteq> []) fds), w)"

lemma link_driver_simps:
  "driver_wf (link_driver p)" "m_stream (link_driver p) = Some p" "\<not> m_extract_last (link_driver p)"
  "MAX_PACKET_SIZE (link_driver p) = 8" "queued (link_driver p) = []"
  using demo_wf [of False] by (simp_all add: link_driver_def)

lemma pipe_system: "system_stream (sys_env T pipe_os)"
  by (rule posix.sys_env_system [OF pipe_contracts(1)])

lemma pipe_contract: "io_contract (sys_env T pipe_os)"
  by (rule posix.sys_env_contract [OF pipe_contracts(1)])

interpretation pipe_link: two_relays "sys_env T pipe_os" "readRaw_timeout (sys_env T pipe_os)" raw_moves
  "\<lambda>_. True" "readRaw_timeout (sys_env T pipe_os)" raw_moves "\<lambda>_. True" n for T n
  by (intro two_relays.intro system_stream.raw_relay pipe_system)

lemma forwarded_ex:
  "(case x of None \<Rightarrow> False | Some (r, d1, d2, w) \<Rightarrow> P r d1 d2 w) \<Longrightarrow>
     \<exists>r d1 d2 w. x = Some (r, d1, d2, w) \<and> P r d1 d2 w"
  by (cases x) auto

lemma forward_raw_conserves_witness:
  "\<exists>d1' d2' w' (es :: int event list). forward us_ops (sys_env us_ops pipe_os) pipe_select (\<lambda>_. 0) (\<lambda>_. 0) True
       (link_driver (Ptr 1)) (link_driver (Ptr 3)) 10 10 4
       (link_heap (send_to 7 [] [] (send_to 7 [1, 2] [] (send_to 8 [3] [] pipes_init))))
       = Some (Inr (), d1', d2', w')
     \<and> p_written (h_os w') 7 = [3] \<and> p_written (h_os w') 8 = [1, 2]
     \<and> bytes_read (Ptr 1) es = bytes_written (Ptr 3) es \<and> bytes_read (Ptr 3) es = bytes_written (Ptr 1) es"
proof -
  let ?r = "forward us_ops (sys_env us_ops pipe_os) pipe_select (\<lambda>_. 0) (\<lambda>_. 0) True
       (link_driver (Ptr 1)) (link_driver (Ptr 3)) 10 10 4
       (link_heap (send_to 7 [] [] (send_to 7 [1, 2] [] (send_to 8 [3] [] pipes_init))))"
  have "case ?r of None \<Rightarrow> False
      | Some (r, d1', d2', w') \<Rightarrow> r = Inr () \<and> p_written (h_os w') 7 = [3] \<and> p_written (h_os w') 8 = [1, 2]
          \<and> queued d1' = [] \<and> queued d2' = []"
    by code_simp
  from forwarded_ex [OF this] obtain d1' d2' w' where
    r: "?r = Some (Inr (), d1', d2', w')" "p_written (h_os w') 7 = [3]" "p_written (h_os w') 8 = [1, 2]"
    "queued d1' = []" "queued d2' = []" by blast
  from forward_raw_conserves [OF pipe_system _ _ _ _ _ _ r(1), of "Ptr 1" "Ptr 3"] r(4,5)
  obtain es :: "int event list" where "bytes_read (Ptr 1) es = bytes_written (Ptr 3) es"
    "bytes_read (Ptr 3) es = bytes_written (Ptr 1) es" by (auto simp: link_driver_simps)
  with r(1-3) show ?thesis by blast
qed

text \<open>C15 \<open>forward\<close> in packet mode relays packets. Whatever the chunks, timeouts and errors, what is
  written to a driver is the concatenation of the first packets in the bytes the other one had
  queued and has read, and the packets still to come are those of its queue, whatever arrives
  later. When it throws, the last packet written may be cut short.\<close>

theorem forward_packets:
  assumes "io_contract env" "stable_extractor ext1" "stable_extractor ext2"
    and "driver_wf d1" "m_stream d1 = Some p1" "driver_wf d2" "m_stream d2 = Some p2"
    and "p1 \<noteq> p2" "buffer_size < 2 ^ 31" "\<not> m_extract_last d1" "\<not> m_extract_last d2"
    and "MAX_PACKET_SIZE d1 \<le> int buffer_size" "MAX_PACKET_SIZE d2 \<le> int buffer_size"
    and "forward T env select ext1 ext2 False d1 d2 timeout1 timeout2 buffer_size w = Some (res, d1', d2', w')"
  shows "\<exists>es. forward_run env select w es w' \<and>
    (case res of
       Inr _ \<Rightarrow> packet_moves ext1 (queued d1) (bytes_read p1 es) (bytes_written p2 es) (queued d1')
         \<and> packet_moves ext2 (queued d2) (bytes_read p2 es) (bytes_written p1 es) (queued d2')
     | Inl _ \<Rightarrow> relayed (packet_moves ext1) (queued d1) (bytes_read p1 es) (bytes_written p2 es)
         \<and> relayed (packet_moves ext2) (queued d2) (bytes_read p2 es) (bytes_written p1 es))"
proof -
  let ?fits = "\<lambda>d. \<not> m_extract_last d \<and> MAX_PACKET_SIZE d \<le> int buffer_size"
  have pair: "two_relays env (readPacket_timeout env ext1) (packet_moves ext1) ?fits
      (readPacket_timeout env ext2) (packet_moves ext2) ?fits (int buffer_size)"
    by (intro two_relays.intro packet_relay assms(1-3))
  obtain b where loop: "forward_loop T env select (readPacket_timeout env ext1) (readPacket_timeout env ext2)
      (getFileDescriptor env d1 w) (getFileDescriptor env d2 w) (int buffer_size) timeout1 d1 d2
      (replicate buffer_size 0) w = Some (res, d1', d2', b, w')"
    using assms(14) int_of_size [OF assms(9)] by (auto simp: forward_def readMode_def Let_def)
  have "two_relays.linked ?fits ?fits (int buffer_size) p1 p2 d1 d2 (replicate buffer_size 0)"
    using assms(4-7,10-13) by (simp add: two_relays.linked_def [OF pair])
  from two_relays.forward_loop_ok [OF pair loop this assms(8)] show ?thesis
    unfolding two_relays.forward_ok_def [OF pair] prod.case exchanged_def exchanged_part_def
    by (auto split: sum.splits)
qed

lemma forward_packets_witness:
  "\<exists>d1' d2' w' (es :: int event list). forward us_ops (sys_env us_ops pipe_os) pipe_select DriverTest_extractPacket
       DriverTest_extractPacket False (link_driver (Ptr 1)) (link_driver (Ptr 3)) 10 10 8
       (link_heap (send_to 7 [] [] (send_to 7 [5, 0, 1, 2, 0, 7] [] pipes_init)))
       = Some (Inr (), d1', d2', w')
     \<and> p_written (h_os w') 8 = [0, 1, 2, 0]
     \<and> packet_moves DriverTest_extractPacket [] (bytes_read (Ptr 1) es) (bytes_written (Ptr 3) es) (queued d1')"
proof -
  let ?r = "forward us_ops (sys_env us_ops pipe_os) pipe_select DriverTest_extractPacket
       DriverTest_extractPacket False (link_driver (Ptr 1)) (link_driver (Ptr 3)) 10 10 8
       (link_heap (send_to 7 [] [] (send_to 7 [5, 0, 1, 2, 0, 7] [] pipes_init)))"
  have "case ?r of None \<Rightarrow> False
      | Some (r, d1', d2', w') \<Rightarrow> r = Inr () \<and> p_written (h_os w') 8 = [0, 1, 2, 0]"
    by code_simp
  from forwarded_ex [OF this] obtain d1' d2' w' where
    r: "?r = Some (Inr (), d1', d2', w')" "p_written (h_os w') 8 = [0, 1, 2, 0]" by blast
  from forward_packets [OF pipe_contract extractor_contracts(4) extractor_contracts(4) _ _ _ _ _ _ _ _ _ _ r(1),
      of "Ptr 1" "Ptr 3"]
  obtain es :: "int event list" where
    "packet_moves DriverTest_extractPacket [] (bytes_read (Ptr 1) es) (bytes_written (Ptr 3) es) (queued d1')"
    by (auto simp: link_driver_simps)
  with r show ?thesis by blast
qed

text \<open>The second timeout is documented for the data that comes from the second driver; it has no
  effect, the first one is used in both directions.\<close>

lemma forward_ignores_timeout2:
  "forward T env select ext1 ext2 raw_mode d1 d2 timeout1 timeout2
     = forward T env select ext1 ext2 raw_mode d1 d2 timeout1 timeout2'"
  by (intro ext) (simp add: forward_def)

section \<open>The session ends\<close>

text \<open>Reading and writing return, so \<open>forwardData\<close> does.\<close>

locale total_relay = relay env mode moves fits n + accepting_sink env stuck
  for env :: "('w, 't::linordered_ab_group_add) env" and mode moves fits n stuck +
  assumes mode_total: "driver_wf d \<Longrightarrow> m_stream d = Some p \<Longrightarrow> fits d \<Longrightarrow> 0 \<le> n \<Longrightarrow>
    length buffer = nat n \<Longrightarrow> \<exists>r. mode buffer n t d w = Some r"
begin

lemma forwardData_returns:
  assumes "driver_wf d1" "m_stream d1 = Some p1" "fits d1" "m_stream d2 = Some p2" "0 \<le> n"
    and "length buffer = nat n"
  shows "\<exists>r. forwardData T env mode buffer n t d1 d2 w = Some r"
proof -
  obtain r d1' b w1 where m: "mode buffer n t d1 w = Some (r, d1', b, w1)"
    using mode_total [OF assms(1-3,5,6)] by (metis prod_cases4)
  from mode_moves [OF m assms(1-3,5,6)] have "\<forall>k. catch_timeout r = Inr k \<longrightarrow> k \<le> length b" by auto
  then have "\<exists>res d2' w'. writePacket_ms (fromMicroseconds T) env b (int k) tt d2 w1 = Some (res, d2', w')"
    if "catch_timeout r = Inr k" for k tt
    using that writePacket_total [OF assms(4)] by auto
  with m show ?thesis
    by (fastforce simp: forwardData_def writePacket_default_def writePacket_def split: sum.splits)
qed

end

locale total_relays = two_relays env mode1 moves1 fits1 mode2 moves2 fits2 n
  + t1: total_relay env mode1 moves1 fits1 n stuck + t2: total_relay env mode2 moves2 fits2 n stuck
  for env :: "('w, 't::linordered_ab_group_add) env"
    and mode1 moves1 fits1 mode2 moves2 fits2 n stuck

text \<open>One side hangs up after at most \<open>rounds\<close> calls of \<^verbatim>\<open>select\<close>.\<close>

locale hang_up =
  fixes env :: "('w, 't) env" and select :: "'w select_fds" and p1 p2 :: ptr and rounds :: "'w \<Rightarrow> nat"
  assumes select_rounds: "select k fds t w = (r, w') \<Longrightarrow> rounds w' \<le> rounds w - 1"
    and step_rounds: "io_step env w e w' \<Longrightarrow> rounds w' \<le> rounds w"
    and closed: "rounds w = 0 \<Longrightarrow> io_eof env p1 w \<or> io_eof env p2 w"
begin

lemma run_rounds:
  assumes "forward_run env sel w es w'"
    and "\<And>k fds t w r w'. sel k fds t w = (r, w') \<Longrightarrow> rounds w' \<le> rounds w"
  shows "rounds w' \<le> rounds w"
  using assms(1) by induction (auto intro: le_trans step_rounds assms(2))

end

context total_relays
begin

lemma forward_body_returns:
  assumes "linked p1 p2 d1 d2 buffer" "p1 \<noteq> p2" "0 \<le> n"
  shows "\<exists>r. forward_body T env select mode1 mode2 fd1 fd2 n t d1 d2 buffer w = Some r"
proof -
  have l: "driver_wf d1" "m_stream d1 = Some p1" "fits1 d1" "m_stream d2 = Some p2"
    "length buffer = nat n" using assms(1) by (simp_all add: linked_def)
  have one: "\<exists>r d1' d2' b w2. forwardData T env mode1 buffer n t d1 d2 w1 = Some (r, d1', d2', b, w2)" for w1
    using t1.forwardData_returns [OF l(1-4) assms(3) l(5)] by (metis prod_cases5)
  have two: "\<exists>r d2' d1' b w2. forwardData T env mode2 buffer n t d2 d1 w1 = Some (r, d2', d1', b, w2)"
    if "linked p1 p2 d1 d2 buffer" for d1 d2 buffer w1
    using that assms(3) t2.forwardData_returns by (metis linked_def prod_cases5)
  have next_linked: "linked p1 p2 d1' d2' b"
    if "forwardData T env mode1 buffer n t d1 d2 w1 = Some (Inr k, d1', d2', b, w2)" for w1 k d1' d2' b w2
    using forwardData_ok1 [OF that assms] by (auto simp: forward_ok_def)
  obtain ret w1 where sel: "select (max fd1 fd2 + 1) [fd1, fd2] \<lparr>tv_sec = 10, tv_usec = 0\<rparr> w = (ret, w1)"
    by fastforce
  show ?thesis
  proof (cases "selected fd1 fd2 ret")
    case (Inr ready)
    have "\<exists>r1 d1' d2' b w2. (if fd1 \<in> set ready then forwardData T env mode1 buffer n t d1 d2 w1
        else Some (Inr 0, d1, d2, buffer, w1)) = Some (r1, d1', d2', b, w2)
        \<and> (\<forall>k. r1 = Inr k \<longrightarrow> linked p1 p2 d1' d2' b)"
      using one [of w1] next_linked assms(1) by (cases "fd1 \<in> set ready") fastforce+
    then obtain r1 d1' d2' b w2 where r1:
      "(if fd1 \<in> set ready then forwardData T env mode1 buffer n t d1 d2 w1
        else Some (Inr 0, d1, d2, buffer, w1)) = Some (r1, d1', d2', b, w2)"
      "\<And>k. r1 = Inr k \<Longrightarrow> linked p1 p2 d1' d2' b" by blast
    have "\<exists>r. (if fd2 \<in> set ready then forwardData T env mode2 b n t d2' d1' w2
        else Some (Inr 0, d2', d1', b, w2)) = Some r" if "r1 = Inr k" for k
      using two [OF r1(2) [OF that], of w2] by auto
    then show ?thesis
      by (cases r1) (auto simp: forward_body_def sel Inr r1(1))
  qed (simp add: forward_body_def sel)
qed

text \<open>Each round of the loop brings the end closer.\<close>

lemma forward_body_rounds:
  assumes "hang_up env select p1 p2 rounds" "rounds w \<noteq> 0"
    and "forward_body T env select mode1 mode2 fd1 fd2 n t d1 d2 buffer w = Some (Inr u, d1', d2', b, w')"
    and "linked p1 p2 d1 d2 buffer" "p1 \<noteq> p2" "0 \<le> n"
  shows "rounds w' < rounds w"
proof -
  obtain ret w1 where sel: "select (max fd1 fd2 + 1) [fd1, fd2] \<lparr>tv_sec = 10, tv_usec = 0\<rparr> w = (ret, w1)"
    by fastforce
  define sel' :: "'w select_fds" where "sel' = (\<lambda>k fds t v. (ret, v))"
  have "forward_body T env sel' mode1 mode2 fd1 fd2 n t d1 d2 buffer w1 = Some (Inr u, d1', d2', b, w')"
    using assms(3) by (auto simp: forward_body_def sel sel'_def split: if_splits)
  from forward_body_ok [OF this assms(4-6)] obtain es where "forward_run env sel' w1 es w'"
    by (auto simp: forward_ok_def)
  from hang_up.run_rounds [OF assms(1) this] have "rounds w' \<le> rounds w1" by (simp add: sel'_def)
  then show ?thesis using hang_up.select_rounds [OF assms(1) sel] assms(2) by simp
qed

lemma forward_loop_returns:
  assumes "hang_up env select p1 p2 rounds" "linked p1 p2 d1 d2 buffer" "p1 \<noteq> p2" "0 \<le> n"
  shows "\<exists>r. forward_loop T env select mode1 mode2 fd1 fd2 n t d1 d2 buffer w = Some r"
  using assms(2)
proof (induction "rounds w" arbitrary: d1 d2 buffer w rule: less_induct)
  case less
  obtain r d1' d2' b w' where body:
    "forward_body T env select mode1 mode2 fd1 fd2 n t d1 d2 buffer w = Some (r, d1', d2', b, w')"
    using forward_body_returns [OF less.prems assms(3,4)] by (metis prod_cases5)
  show ?case
  proof (cases "forward_goes_on env d1 d2 w = Inr True \<and> r = Inr ()")
    case True
    then have "\<not> io_eof env p1 w \<and> \<not> io_eof env p2 w"
      using less.prems by (auto simp: forward_goes_on_def eof_def linked_def split: if_splits)
    then have "rounds w \<noteq> 0" using hang_up.closed [OF assms(1)] by blast
    moreover have body': "forward_body T env select mode1 mode2 fd1 fd2 n t d1 d2 buffer w
        = Some (Inr (), d1', d2', b, w')" using body True by simp
    ultimately have "rounds w' < rounds w"
      by (rule forward_body_rounds [OF assms(1) _ _ less.prems assms(3,4)])
    moreover have "linked p1 p2 d1' d2' b"
      using forward_body_ok [OF body' less.prems assms(3,4)] by (auto simp: forward_ok_def)
    ultimately have "\<exists>r. forward_loop T env select mode1 mode2 fd1 fd2 n t d1' d2' b w' = Some r"
      by (rule less.hyps)
    with True body' show ?thesis by (subst forward_loop.simps) simp
  next
    case False
    with body show ?thesis by (subst forward_loop.simps) (auto split: sum.splits)
  qed
qed

end

lemma raw_total_relay:
  assumes "system_stream env" "live_env env avail steps" "accepting_sink env stuck"
  shows "total_relay env (readRaw_timeout env) raw_moves (\<lambda>_. True) n stuck"
proof (intro total_relay.intro total_relay_axioms.intro system_stream.raw_relay assms(1,3))
  fix d p buffer t w
  show "\<exists>r. readRaw_timeout env buffer n t d w = Some r"
    using moving_clock.readRaw_total [of env steps] assms(2)
    by (auto simp: readRaw_timeout_def live_env_def)
qed

lemma packet_total_relay:
  fixes env :: "('w, 't::linordered_ab_group_add) env"
  assumes "stable_extractor ext" "live_env env avail steps" "accepting_sink env stuck"
  shows "total_relay env (readPacket_timeout env ext) (packet_moves ext)
    (\<lambda>d. \<not> m_extract_last d \<and> MAX_PACKET_SIZE d \<le> n) n stuck"
proof -
  have io: "io_contract env" using assms(2) by (simp add: live_env_def finite_source_def)
  have "packet_extractor ext" using assms(1) by (simp add: stable_extractor_def)
  with io assms(2) have live: "live_driver env ext (\<lambda>_ _. True) avail steps"
    by (intro live_driver_everywhere driver_env.intro)
  show ?thesis
  proof (intro total_relay.intro total_relay_axioms.intro packet_relay io assms(1,3))
    fix d :: "'t driver" and p t w and buffer :: "byte list"
    assume "driver_wf d" "m_stream d = Some p" "\<not> m_extract_last d \<and> MAX_PACKET_SIZE d \<le> n" "0 \<le> n"
      "length buffer = nat n"
    then show "\<exists>r. readPacket_timeout env ext buffer n t d w = Some r"
      using live_driver.readPacket_returns_with_stream [OF live, where p = p and d = d and buffer = buffer and bufsize = n and pt = t and fb = t and w = w] nat_mono
      by (auto simp: readPacket_timeout_def)
  qed
qed

text \<open>C16 \<open>forward\<close> returns or throws if one of the two sides reports its end after finitely many
  rounds, in either mode: no round waits for ever or spins, whatever the other side does, if
  what the streams hold between two writes is finite, the clock moves and the streams do not
  refuse bytes for ever.\<close>

theorem forward_returns:
  assumes "live_env env avail steps" "accepting_sink env stuck" "hang_up env select p1 p2 rounds"
    and "driver_wf d1" "m_stream d1 = Some p1" "driver_wf d2" "m_stream d2 = Some p2"
    and "p1 \<noteq> p2" "buffer_size < 2 ^ 31"
    and "if raw_mode then system_stream env
      else stable_extractor ext1 \<and> stable_extractor ext2 \<and> \<not> m_extract_last d1 \<and> \<not> m_extract_last d2
        \<and> MAX_PACKET_SIZE d1 \<le> int buffer_size \<and> MAX_PACKET_SIZE d2 \<le> int buffer_size"
  shows "\<exists>res d1' d2' w'. forward T env select ext1 ext2 raw_mode d1 d2 timeout1 timeout2 buffer_size w
    = Some (res, d1', d2', w')"
proof (cases raw_mode)
  case True
  then have "total_relay env (readRaw_timeout env) raw_moves (\<lambda>_. True) (int buffer_size) stuck"
    using assms(10) by (intro raw_total_relay [OF _ assms(1,2)]) simp
  then have t: "total_relays env (readRaw_timeout env) raw_moves (\<lambda>_. True) (readRaw_timeout env) raw_moves
      (\<lambda>_. True) (int buffer_size) stuck"
    by (intro total_relays.intro two_relays.intro) (simp_all add: total_relay_def)
  note pair = total_relays.axioms(1) [OF t]
  have "two_relays.linked (\<lambda>_. True) (\<lambda>_. True) (int buffer_size) p1 p2 d1 d2 (replicate buffer_size 0)"
    using assms(4-7) by (simp add: two_relays.linked_def [OF pair])
  from total_relays.forward_loop_returns [OF t assms(3) this assms(8)] True int_of_size [OF assms(9)]
  show ?thesis by (auto simp: forward_def readMode_def Let_def) (metis prod_cases5)
next
  case False
  let ?fits = "\<lambda>d. \<not> m_extract_last d \<and> MAX_PACKET_SIZE d \<le> int buffer_size"
  have "total_relay env (readPacket_timeout env ext1) (packet_moves ext1) ?fits (int buffer_size) stuck"
    "total_relay env (readPacket_timeout env ext2) (packet_moves ext2) ?fits (int buffer_size) stuck"
    using assms(10) False by (auto intro: packet_total_relay [OF _ assms(1,2)])
  then have t: "total_relays env (readPacket_timeout env ext1) (packet_moves ext1) ?fits
      (readPacket_timeout env ext2) (packet_moves ext2) ?fits (int buffer_size) stuck"
    by (intro total_relays.intro two_relays.intro) (simp_all add: total_relay_def)
  note pair = total_relays.axioms(1) [OF t]
  have "two_relays.linked ?fits ?fits (int buffer_size) p1 p2 d1 d2 (replicate buffer_size 0)"
    using assms(4-7,10) False by (simp add: two_relays.linked_def [OF pair])
  from total_relays.forward_loop_returns [OF t assms(3) this assms(8)] False int_of_size [OF assms(9)]
  show ?thesis by (auto simp: forward_def readMode_def Let_def) (metis prod_cases5)
qed

text \<open>A link on which one side closes when the clock passes 200, and \<^verbatim>\<open>select\<close> takes ten ticks.\<close>

definition with_ends ::
  "(ptr \<Rightarrow> 'w \<Rightarrow> int) \<Rightarrow> (ptr \<Rightarrow> 'w \<Rightarrow> bool) \<Rightarrow> ('w, 't) env \<Rightarrow> ('w, 't) env" where
  "with_ends fd ends env = env\<lparr>io_getFileDescriptor := fd, io_eof := ends\<rparr>"

definition closing_env :: "(int world, int) env" where
  "closing_env = with_ends (\<lambda>p w. int (addr p)) (\<lambda>p w. 200 \<le> w_clock w) clock_env"

definition slow_select :: "int world select_fds" where
  "slow_select nfds fds t w = (Inr fds, w\<lparr>w_clock := w_clock w + 10\<rparr>)"

definition ticks_left :: "int world \<Rightarrow> nat" where
  "ticks_left w = nat (200 - w_clock w)"

lemma with_ends_step: "io_step (with_ends fd ends env) w e w' \<longleftrightarrow> io_step env w e w'"
  by (cases e) (simp_all add: with_ends_def)

lemma with_ends_sel [simp]:
  "io_read (with_ends fd ends env) = io_read env" "io_write (with_ends fd ends env) = io_write env"
  "io_now (with_ends fd ends env) = io_now env" "io_waitRead (with_ends fd ends env) = io_waitRead env"
  by (simp_all add: with_ends_def)

lemma with_ends_contracts:
  "io_contract (with_ends fd ends env) = io_contract env"
  "live_env (with_ends fd ends env) avail steps = live_env env avail steps"
  "accepting_sink (with_ends fd ends env) stuck = accepting_sink env stuck"
  "system_stream (with_ends fd ends env) = system_stream env"
  by (simp_all add: live_env_def moving_clock_def moving_clock_axioms_def finite_source_def finite_source_axioms_def
      accepting_sink_def accepting_sink_axioms_def system_stream_def system_stream_axioms_def
      io_contract_def with_ends_step)

interpretation test_system: system_stream "test_env now tod"
  for now :: "'c \<Rightarrow> 't::linordered_ab_group_add \<times> 'c" and tod
  by unfold_locales (auto simp: on_stream_def split: option.splits prod.splits)

interpretation closing: hang_up closing_env slow_select "Ptr 1" "Ptr 3" ticks_left
proof
  fix w e w'
  assume "io_step closing_env w e w'"
  then have "io_step clock_env w e w'" by (simp add: closing_env_def with_ends_step)
  then show "ticks_left w' \<le> ticks_left w"
    by (cases e)
      (auto simp: tick_def ticking_def ticking_timeval_def ticks_left_def on_stream_def on_listener_def
        split: option.splits prod.splits)
qed (auto simp: slow_select_def ticks_left_def closing_env_def with_ends_def)

lemma closing_contracts:
  "live_env closing_env available readings" "accepting_sink closing_env (\<lambda>p w. 0)"
  "system_stream closing_env"
  unfolding closing_env_def with_ends_contracts
  by (rule test_contracts(3) test_sink_contract test_system.system_stream_axioms)+

interpretation closing_raw: total_relays closing_env "readRaw_timeout closing_env" raw_moves "\<lambda>_. True"
  "readRaw_timeout closing_env" raw_moves "\<lambda>_. True" n "\<lambda>p w. 0" for n
  by (intro total_relays.intro two_relays.intro raw_total_relay [OF closing_contracts(3,1,2)]
      system_stream.raw_relay closing_contracts(3))

lemma forward_returns_witness:
  "\<exists>res d1' d2' w'. forward us_ops closing_env slow_select (\<lambda>_. 0) (\<lambda>_. 0) True
     (link_driver (Ptr 1)) (link_driver (Ptr 3)) 10 10 4 (demo_world [1, 2, 3]) = Some (res, d1', d2', w')"
  by (rule forward_returns [OF closing_contracts(1,2) closing.hang_up_axioms])
    (simp_all add: link_driver_simps closing_contracts(3))

end
