(* ===== verification/Cat_Model.thy ===== *)
theory Cat_Model
  imports Com_Format Driver_Open Driver_Read Extractors
begin

text \<open>
  \<^verbatim>\<open>src/src/MainCat.cpp\<close>: the tool that shows what a URI delivers, as a hexadecimal dump. The
  standard output is a string; \<open>line\<close> is an array that is not initialised.
\<close>

section \<open>The display\<close>

definition COLUMN_SIZE :: nat where "COLUMN_SIZE = 8"
definition LINE_SIZE :: nat where "LINE_SIZE = COLUMN_SIZE * 3"
definition BUFFER_SIZE :: nat where "BUFFER_SIZE = 32768"

record cat_state =
  cat_pos :: nat
  cat_line :: "char option list"
  cat_out :: string

definition cat_init :: cat_state where
  "cat_init = \<lparr>cat_pos = 0, cat_line = replicate LINE_SIZE None, cat_out = []\<rparr>"

text \<open>Reading a character that was never assigned, or outside the array, is undefined.\<close>

definition line_at :: "char option list \<Rightarrow> nat \<Rightarrow> exn + char" where
  "line_at line i =
     (if i < length line then case line ! i of None \<Rightarrow> Inl UndefinedBehaviour | Some c \<Rightarrow> Inr c
      else Inl UndefinedBehaviour)"

fun displayAscii_loop :: "char option list \<Rightarrow> nat list \<Rightarrow> exn + string" where
  "displayAscii_loop line [] = Inr []"
| "displayAscii_loop line (i # is) =
     (case line_at line i of
        Inl e \<Rightarrow> Inl e
      | Inr c \<Rightarrow>
          map_sum id (\<lambda>s. (if i \<noteq> 0 \<and> i mod COLUMN_SIZE = 0 then '' '' else []) @ c # s)
            (displayAscii_loop line is))"

definition displayAscii :: "char option list \<Rightarrow> exn + string" where
  "displayAscii line = displayAscii_loop line [0..<LINE_SIZE]"

text \<open>\<^verbatim>\<open>isprint\<close> in the C locale.\<close>

definition isprint :: "byte \<Rightarrow> bool" where
  "isprint b \<longleftrightarrow> 32 \<le> unat b \<and> unat b \<le> 126"

definition shown_char :: "byte \<Rightarrow> char" where
  "shown_char b = (if isprint b then char_of (unat b) else CHR ''.'')"

definition hex_byte :: "byte \<Rightarrow> string" where
  "hex_byte b = [hex_digit (of_nat (unat b div 16)), hex_digit (of_nat (unat b mod 16))]"

definition newline :: string where
  "newline = [CHR 0x0A]"

text \<open>The body of the loop over the bytes of one \<open>readRaw\<close>.\<close>

definition cat_separator :: "cat_state \<Rightarrow> exn + cat_state" where
  "cat_separator st =
     (if cat_pos st = 0 then Inr st
      else
        let st1 = st\<lparr>cat_out := cat_out st @ '' ''\<rparr> in
        if cat_pos st1 mod LINE_SIZE = 0 then
          map_sum id (\<lambda>s. st1\<lparr>cat_out := cat_out st1 @ ''  '' @ s @ newline, cat_pos := 0\<rparr>)
            (displayAscii (cat_line st1))
        else if cat_pos st1 mod COLUMN_SIZE = 0 then Inr (st1\<lparr>cat_out := cat_out st1 @ ''  ''\<rparr>)
        else Inr st1)"

definition cat_byte :: "byte \<Rightarrow> cat_state \<Rightarrow> exn + cat_state" where
  "cat_byte b st =
     (case cat_separator st of
        Inl e \<Rightarrow> Inl e
      | Inr st1 \<Rightarrow>
          if length (cat_line st1) \<le> cat_pos st1 then Inl UndefinedBehaviour
          else Inr (st1\<lparr>cat_line := (cat_line st1)[cat_pos st1 := Some (shown_char b)],
                        cat_out := cat_out st1 @ hex_byte b, cat_pos := cat_pos st1 + 1\<rparr>))"

fun cat_bytes :: "byte list \<Rightarrow> cat_state \<Rightarrow> exn + cat_state" where
  "cat_bytes [] st = Inr st"
| "cat_bytes (b # bs) st = (case cat_byte b st of Inl e \<Rightarrow> Inl e | Inr st1 \<Rightarrow> cat_bytes bs st1)"

section \<open>What it displays\<close>

text \<open>The specification: rows of 24 bytes in three columns; a row is closed by its printable
  form when the next byte comes.\<close>

definition hex_row :: "byte list \<Rightarrow> string" where
  "hex_row bs = concat (map (\<lambda>i. (if i = 0 then [] else if i mod 8 = 0 then ''   '' else '' '')
     @ hex_byte (bs ! i)) [0..<length bs])"

definition ascii_row :: "byte list \<Rightarrow> string" where
  "ascii_row bs = concat (map (\<lambda>i. (if i \<noteq> 0 \<and> i mod 8 = 0 then '' '' else [])
     @ [shown_char (bs ! i)]) [0..<length bs])"

function hex_dump :: "byte list \<Rightarrow> string" where
  "hex_dump bs =
     (if length bs \<le> 24 then hex_row bs
      else hex_row (take 24 bs) @ ''   '' @ ascii_row (take 24 bs) @ newline @ hex_dump (drop 24 bs))"
  by auto

termination hex_dump
  by (relation "measure length") auto

declare hex_dump.simps [simp del]

text \<open>The state in the middle of a row.\<close>

definition row_state :: "string \<Rightarrow> byte list \<Rightarrow> cat_state \<Rightarrow> bool" where
  "row_state out r st \<longleftrightarrow> cat_pos st = length r \<and> length r \<le> 24 \<and> cat_out st = out @ hex_row r
     \<and> length (cat_line st) = 24 \<and> take (length r) (cat_line st) = map (\<lambda>b. Some (shown_char b)) r"

lemma hex_row_snoc:
  "hex_row (r @ [b]) = hex_row r @ (if r = [] then [] else if length r mod 8 = 0 then ''   '' else '' '')
     @ hex_byte b"
proof -
  have "concat (map (\<lambda>i. (if i = 0 then [] else if i mod 8 = 0 then ''   '' else '' '') @ hex_byte ((r @ [b]) ! i)) [0..<length r])
    = hex_row r"
    unfolding hex_row_def by (intro arg_cong [where f = concat] map_cong refl) (simp add: nth_append)
  then show ?thesis by (simp add: hex_row_def [of "r @ [b]"])
qed

lemma displayAscii_row:
  assumes "length r = 24" "line = map (\<lambda>b. Some (shown_char b)) r"
  shows "displayAscii line = Inr (ascii_row r)"
proof -
  have "displayAscii_loop line is = Inr (concat (map (\<lambda>i. (if i \<noteq> 0 \<and> i mod 8 = 0 then '' '' else [])
     @ [shown_char (r ! i)]) is))" if "set is \<subseteq> {0..<24}" for "is"
    using that assms by (induction "is") (auto simp: line_at_def COLUMN_SIZE_def)
  from this [of "[0..<24]"] show ?thesis
    by (simp add: displayAscii_def ascii_row_def assms(1) LINE_SIZE_def COLUMN_SIZE_def del: upt_rec_numeral)
qed

lemma row_state_init: "row_state [] [] cat_init"
  by (simp add: row_state_def cat_init_def hex_row_def LINE_SIZE_def COLUMN_SIZE_def)

lemma cat_byte_within:
  assumes "row_state out r st" "length r < 24"
  shows "\<exists>st'. cat_byte b st = Inr st' \<and> row_state out (r @ [b]) st'"
proof -
  have st: "cat_pos st = length r" "cat_out st = out @ hex_row r" "length (cat_line st) = 24"
    "take (length r) (cat_line st) = map (\<lambda>b. Some (shown_char b)) r"
    using assms(1) by (simp_all add: row_state_def)
  have sep: "cat_separator st = Inr (st\<lparr>cat_out := out @ hex_row r
      @ (if r = [] then [] else if length r mod 8 = 0 then ''   '' else '' '')\<rparr>)"
    using st(1,2) assms(2) by (auto simp: cat_separator_def Let_def LINE_SIZE_def COLUMN_SIZE_def)
  have "take (length r + 1) ((cat_line st)[length r := Some (shown_char b)])
      = map (\<lambda>b. Some (shown_char b)) r @ [Some (shown_char b)]"
    using st(3,4) assms(2) by (simp add: take_Suc_conv_app_nth)
  then show ?thesis
    using st assms(2) by (simp add: cat_byte_def sep row_state_def hex_row_snoc)
qed

lemma cat_byte_full:
  assumes "row_state out r st" "length r = 24"
  shows "\<exists>st'. cat_byte b st = Inr st'
    \<and> row_state (out @ hex_row r @ ''   '' @ ascii_row r @ newline) [b] st'"
proof -
  have st: "cat_pos st = 24" "cat_out st = out @ hex_row r" "length (cat_line st) = 24"
    "cat_line st = map (\<lambda>b. Some (shown_char b)) r"
    using assms by (auto simp: row_state_def)
  have asc: "displayAscii (cat_line st) = Inr (ascii_row r)"
    by (rule displayAscii_row [OF assms(2) st(4)])
  have "take 1 ((cat_line st)[0 := Some (shown_char b)]) = [Some (shown_char b)]"
    using st(3) by (cases "cat_line st") auto
  then show ?thesis
    using st asc by (simp add: cat_byte_def cat_separator_def Let_def LINE_SIZE_def COLUMN_SIZE_def
        row_state_def hex_row_def)
qed

lemma cat_bytes_dump:
  assumes "row_state out r st"
  shows "\<exists>st'. cat_bytes bs st = Inr st' \<and> cat_out st' = out @ hex_dump (r @ bs)"
  using assms
proof (induction bs arbitrary: out r st)
  case Nil
  then show ?case by (simp add: row_state_def hex_dump.simps)
next
  case (Cons b bs)
  show ?case
  proof (cases "length r < 24")
    case True
    from cat_byte_within [OF Cons.prems this] obtain st1 where
      "cat_byte b st = Inr st1" "row_state out (r @ [b]) st1" by blast
    with Cons.IH [of out "r @ [b]" st1] show ?thesis by auto
  next
    case False
    then have len: "length r = 24" using Cons.prems by (simp add: row_state_def)
    from cat_byte_full [OF Cons.prems len] obtain st1 where s: "cat_byte b st = Inr st1"
      "row_state (out @ hex_row r @ ''   '' @ ascii_row r @ newline) [b] st1" by blast
    have "hex_dump (r @ b # bs) = hex_row r @ ''   '' @ ascii_row r @ newline @ hex_dump (b # bs)"
      using len by (subst hex_dump.simps) simp
    with Cons.IH [OF s(2)] s(1) show ?thesis by auto
  qed
qed

section \<open>The program\<close>

text \<open>\<^verbatim>\<open>atoi\<close>: a number out of range is undefined, no digits mean zero.\<close>

definition atoi :: "string \<Rightarrow> int option" where
  "atoi s =
     (case stoi s of
        Inr (n, _) \<Rightarrow> Some n
      | Inl e \<Rightarrow> if e = InvalidArgument then Some 0 else None)"

text \<open>What \<^verbatim>\<open>main\<close> makes of its arguments, the name of the program first. Without one it
  builds a string from a null pointer.\<close>

datatype cat_start = CatUsage int | CatUndefined | CatRun string bool int

definition cat_arguments :: "string list \<Rightarrow> cat_start" where
  "cat_arguments argv =
     (let argc = length argv in
      if argc \<noteq> 2 \<and> argc > 4 then CatUsage (if argc = 1 then 0 else 1)
      else if argc \<le> 1 then CatUndefined
      else
        let uri = argv ! 1;
            raw = (argc > 2 \<and> argv ! 2 = ''--raw'');
            arg_i = (if raw then 3 else 2)
        in if argc > arg_i
           then (case atoi (argv ! arg_i) of None \<Rightarrow> CatUndefined | Some ms \<Rightarrow> CatRun uri raw ms)
           else CatRun uri raw 100)"

text \<open>The inner loop, which only a throw leaves; \<^verbatim>\<open>write\<close> puts \<open>count\<close> bytes on the standard
  output.\<close>

partial_function (option) cat_loop ::
  "('w, 't::linordered_ab_group_add) env \<Rightarrow> bool \<Rightarrow> 't \<Rightarrow> byte list \<Rightarrow> 't driver \<Rightarrow> cat_state \<Rightarrow> 'w
     \<Rightarrow> (exn \<times> 't driver \<times> cat_state \<times> 'w) option" where
  "cat_loop env raw timeout buffer d st w =
     Option.bind (readRaw_timeout env buffer (int BUFFER_SIZE) timeout d w)
       (\<lambda>(r, d1, buffer1, w1).
         (case r of
            Inl e \<Rightarrow> Some (e, d1, st, w1)
          | Inr count \<Rightarrow>
              if raw then
                cat_loop env raw timeout buffer1 d1
                  (st\<lparr>cat_out := cat_out st @ map (\<lambda>b. char_of (unat b)) (take count buffer1)\<rparr>) w1
              else
                (case cat_bytes (take count buffer1) st of
                   Inl e \<Rightarrow> Some (e, d1, st, w1)
                 | Inr st1 \<Rightarrow> cat_loop env raw timeout buffer1 d1 st1 w1)))"

text \<open>\<open>mem\<close> and \<open>buffer\<close> are what the two uninitialised arrays hold.\<close>

definition cat_main ::
  "'t::linordered_ab_group_add time_ops \<Rightarrow> ('o, 't) os \<Rightarrow> 'o unix \<Rightarrow> (nat \<Rightarrow> byte) \<Rightarrow> byte list
     \<Rightarrow> string list \<Rightarrow> 'o heap \<Rightarrow> ((exn + int) \<times> cat_state \<times> 'o heap) option" where
  "cat_main T os S mem buffer argv w =
     (case cat_arguments argv of
        CatUsage code \<Rightarrow> Some (Inr code, cat_init, w)
      | CatUndefined \<Rightarrow> Some (Inl UndefinedBehaviour, cat_init, w)
      | CatRun uri raw ms \<Rightarrow>
          (case Driver_init mem (int BUFFER_SIZE) False of
             Inl e \<Rightarrow> Some (Inl e, cat_init, w)
           | Inr d \<Rightarrow>
               (case openURI T os S uri d w of
                  (Inl e, d1, w1) \<Rightarrow> Some (Inl e, cat_init, w1)
                | (Inr _, d1, w1) \<Rightarrow>
                    map_option (\<lambda>(e, d2, st, w2). (Inl e, st, w2))
                      (cat_loop (sys_env T os) raw (fromMilliseconds T ms) buffer d1 cat_init w1))))"

text \<open>The test of the arguments lets a call without any through.\<close>

lemma cat_without_arguments: "cat_arguments [''iodrivers_base_cat''] = CatUndefined"
  by (simp add: cat_arguments_def)

text \<open>C40 The display of \<^verbatim>\<open>iodrivers_base_cat\<close> is the hexadecimal dump of the bytes received,
  however they are cut into reads: every byte appears once, in order, as two digits, and each
  full row is followed by its printable form. The array \<^verbatim>\<open>line\<close> is never left and never shown
  before it is filled.\<close>

theorem cat_displays_dump:
  "\<exists>st st'. cat_bytes xs cat_init = Inr st \<and> cat_bytes ys st = Inr st'
     \<and> cat_out st = hex_dump xs \<and> cat_out st' = hex_dump (xs @ ys)"
proof -
  have append: "cat_bytes (xs @ ys) s = (case cat_bytes xs s of Inl e \<Rightarrow> Inl e | Inr s1 \<Rightarrow> cat_bytes ys s1)" for s
    by (induction xs arbitrary: s) (auto split: sum.split)
  from cat_bytes_dump [OF row_state_init, of xs] obtain st where
    st: "cat_bytes xs cat_init = Inr st" "cat_out st = hex_dump xs" by auto
  from cat_bytes_dump [OF row_state_init, of "xs @ ys"] st(1) append show ?thesis
    using st by auto
qed

end
