(* ===== verification/Forwarder_Tool.thy ===== *)
theory Forwarder_Tool
  imports Forward_Model Cat_Model
begin

text \<open>
  \<^verbatim>\<open>src/src/MainForwarder.cpp\<close>: the tool that forwards between two URIs, and opens them
  again when one side closes.
\<close>

datatype forwarder_start =
    ForwarderUsage int
  | ForwarderUndefined
  | ForwarderRun string int string int int

definition DEFAULT_BUFFER_SIZE :: int where "DEFAULT_BUFFER_SIZE = 32768"

definition forwarder_arguments :: "string list \<Rightarrow> forwarder_start" where
  "forwarder_arguments argv =
     (let argc = length argv in
      if argc \<noteq> 5 \<and> argc \<noteq> 6 then ForwarderUsage (if argc = 1 then 0 else 1)
      else
        (case (if argc = 6 then atoi (argv ! 5) else Some DEFAULT_BUFFER_SIZE,
               atoi (argv ! 2), atoi (argv ! 4)) of
           (Some buffer_size, Some ms1, Some ms2) \<Rightarrow>
             ForwarderRun (argv ! 1) ms1 (argv ! 3) ms2 buffer_size
         | _ \<Rightarrow> ForwarderUndefined))"

text \<open>One pass of the loop. A throw leaves \<^verbatim>\<open>main\<close>; otherwise the two drivers are destroyed in
  the reverse order of their construction.\<close>

definition forwarder_round ::
  "'t::linordered_ab_group_add time_ops \<Rightarrow> ('o, 't) os \<Rightarrow> 'o unix \<Rightarrow> 'o heap select_fds \<Rightarrow> (nat \<Rightarrow> byte)
     \<Rightarrow> string \<Rightarrow> 't \<Rightarrow> string \<Rightarrow> 't \<Rightarrow> int \<Rightarrow> 'o heap \<Rightarrow> ((exn + unit) \<times> 'o heap) option" where
  "forwarder_round T os S select mem uri1 timeout1 uri2 timeout2 buffer_size w =
     (case Driver_init mem buffer_size False of
        Inl e \<Rightarrow> Some (Inl e, w)
      | Inr driver1 \<Rightarrow>
          (case openURI T os S uri1 driver1 w of
             (Inl e, d1, w1) \<Rightarrow> Some (Inl e, w1)
           | (Inr _, d1, w1) \<Rightarrow>
               (case Driver_init mem buffer_size False of
                  Inl e \<Rightarrow> Some (Inl e, w1)
                | Inr driver2 \<Rightarrow>
                    (case openURI T os S uri2 driver2 w1 of
                       (Inl e, d2, w2) \<Rightarrow> Some (Inl e, w2)
                     | (Inr _, d2, w2) \<Rightarrow>
                         map_option (\<lambda>(r, d1', d2', w3).
                             (case r of
                                Inl e \<Rightarrow> (Inl e, w3)
                              | Inr _ \<Rightarrow>
                                  (Inr (), Driver_destroy (sys_env T os) d1'
                                             (Driver_destroy (sys_env T os) d2' w3))))
                           (forward T (sys_env T os) select ForwarderDriver_extractPacket
                              ForwarderDriver_extractPacket True d1 d2 timeout1 timeout2
                              (nat buffer_size) w2)))))"

partial_function (option) forwarder_loop ::
  "'t::linordered_ab_group_add time_ops \<Rightarrow> ('o, 't) os \<Rightarrow> 'o unix \<Rightarrow> 'o heap select_fds \<Rightarrow> (nat \<Rightarrow> byte)
     \<Rightarrow> string \<Rightarrow> 't \<Rightarrow> string \<Rightarrow> 't \<Rightarrow> int \<Rightarrow> 'o heap \<Rightarrow> (exn \<times> 'o heap) option" where
  "forwarder_loop T os S select mem uri1 timeout1 uri2 timeout2 buffer_size w =
     Option.bind (forwarder_round T os S select mem uri1 timeout1 uri2 timeout2 buffer_size w)
       (\<lambda>(r, w1).
         (case r of
            Inl e \<Rightarrow> Some (e, w1)
          | Inr _ \<Rightarrow> forwarder_loop T os S select mem uri1 timeout1 uri2 timeout2 buffer_size w1))"

definition forwarder_main ::
  "'t::linordered_ab_group_add time_ops \<Rightarrow> ('o, 't) os \<Rightarrow> 'o unix \<Rightarrow> 'o heap select_fds \<Rightarrow> (nat \<Rightarrow> byte)
     \<Rightarrow> string list \<Rightarrow> 'o heap \<Rightarrow> ((exn + int) \<times> 'o heap) option" where
  "forwarder_main T os S select mem argv w =
     (case forwarder_arguments argv of
        ForwarderUsage code \<Rightarrow> Some (Inr code, w)
      | ForwarderUndefined \<Rightarrow> Some (Inl UndefinedBehaviour, w)
      | ForwarderRun uri1 ms1 uri2 ms2 buffer_size \<Rightarrow>
          map_option (\<lambda>(e, w1). (Inl e, w1))
            (forwarder_loop T os S select mem uri1 (fromMilliseconds T ms1) uri2 (fromMilliseconds T ms2)
               buffer_size w))"

text \<open>A negative packet size is refused before anything is opened, and a URI that cannot be
  opened ends the program.\<close>

lemma forwarder_negative_size:
  "buffer_size < 0 \<Longrightarrow>
     forwarder_loop T os S select mem uri1 t1 uri2 t2 buffer_size w = Some (BadArrayNewLength, w)"
  by (subst forwarder_loop.simps) (simp add: forwarder_round_def Driver_init_def)

lemma forwarder_uri_rejected:
  assumes "Driver_init mem buffer_size False = Inr d" "openURI T os S uri1 d w = (Inl e, d1, w1)"
  shows "forwarder_loop T os S select mem uri1 t1 uri2 t2 buffer_size w = Some (e, w1)"
  by (subst forwarder_loop.simps) (simp add: forwarder_round_def assms)

end
