(* ===== verification/Monitor.thy ===== *)
theory Monitor
  imports Iodrivers_Prelude
begin

text \<open>
  Objects whose methods hold a recursive mutex from their first statement to their return, as
  those of \<^verbatim>\<open>src/src/Bus.cpp\<close> do with \<^verbatim>\<open>boost::lock_guard<boost::recursive_mutex>\<close>: threads take
  their steps in any order, and the calls still take effect one after the other.
\<close>

section \<open>The mutex\<close>

text \<open>\<^verbatim>\<open>boost::recursive_mutex\<close> as it is documented: \<open>lock\<close> waits (\<open>None\<close>) while another thread
  is the owner; the owner may lock again, and owns the mutex until it has unlocked it as often.\<close>

locale recursive_mutex =
  fixes lock :: "nat \<Rightarrow> 'm \<Rightarrow> 'm option" and unlock :: "nat \<Rightarrow> 'm \<Rightarrow> 'm"
    and holder :: "'m \<Rightarrow> nat option" and level :: "'m \<Rightarrow> nat"
  assumes lock_waits: "lock t x = None \<longleftrightarrow> holder x \<noteq> None \<and> holder x \<noteq> Some t"
    and lock_owns: "lock t x = Some y \<Longrightarrow> holder y = Some t \<and> level y = Suc (level x)"
    and unlock_level: "holder x = Some t \<Longrightarrow> level (unlock t x) = level x - 1"
    and unlock_holder: "holder x = Some t \<Longrightarrow> holder (unlock t x) = (if level x = 1 then None else Some t)"
    and free_level: "holder x = None \<longleftrightarrow> level x = 0"

text \<open>The owner and how often it has locked.\<close>

type_synonym owner_count = "(nat \<times> nat) option"

definition count_lock :: "nat \<Rightarrow> owner_count \<Rightarrow> owner_count option" where
  "count_lock t x =
     (case x of None \<Rightarrow> Some (Some (t, 0)) | Some (u, k) \<Rightarrow> if u = t then Some (Some (t, Suc k)) else None)"

definition count_unlock :: "nat \<Rightarrow> owner_count \<Rightarrow> owner_count" where
  "count_unlock t x = (case x of Some (u, Suc k) \<Rightarrow> Some (u, k) | _ \<Rightarrow> None)"

definition count_level :: "owner_count \<Rightarrow> nat" where
  "count_level x = (case x of None \<Rightarrow> 0 | Some (u, k) \<Rightarrow> Suc k)"

interpretation counted: recursive_mutex count_lock count_unlock "map_option fst" count_level
  by unfold_locales
    (auto simp: count_lock_def count_unlock_def count_level_def split: option.splits prod.splits nat.splits if_splits)

section \<open>Methods\<close>

text \<open>What is left of a method: a statement on the shared state that may not return (\<open>None\<close>) and
  leads to the rest, which may depend on what it computed; or the return.\<close>

datatype ('s, 'r) procedure = Return 'r | Statement "'s \<Rightarrow> ('s \<times> ('s, 'r) procedure) option"

text \<open>A method alone, from its first statement to its return, with the calls that a callback may
  make meanwhile in the same thread.\<close>

inductive alone ::
  "('c \<Rightarrow> ('s, 'r) procedure) \<Rightarrow> ('c \<Rightarrow> bool) \<Rightarrow> ('s, 'r) procedure \<Rightarrow> 's \<Rightarrow> 'r \<Rightarrow> 's \<Rightarrow> bool"
  for body callback where
  alone_return: "alone body callback (Return r) s r s"
| alone_statement: "f s = Some (s1, p) \<Longrightarrow> alone body callback p s1 r s' \<Longrightarrow>
     alone body callback (Statement f) s r s'"
| alone_callback: "callback c \<Longrightarrow> alone body callback (body c) s r1 s1 \<Longrightarrow>
     alone body callback p s1 r s' \<Longrightarrow> alone body callback p s r s'"

text \<open>Without callbacks there is nothing to choose.\<close>

lemma alone_simps [simp]:
  "alone body (\<lambda>_. False) (Return v) s r s' \<longleftrightarrow> r = v \<and> s' = s"
  "alone body (\<lambda>_. False) (Statement f) s r s' \<longleftrightarrow>
     (\<exists>s1 p. f s = Some (s1, p) \<and> alone body (\<lambda>_. False) p s1 r s')"
  by (auto elim: alone.cases intro: alone.intros)

text \<open>Calls one after the other, with what they returned.\<close>

inductive serial ::
  "('c \<Rightarrow> ('s, 'r) procedure) \<Rightarrow> ('c \<Rightarrow> bool) \<Rightarrow> 's \<Rightarrow> ('c \<times> 'r) list \<Rightarrow> 's \<Rightarrow> bool"
  for body callback s where
  serial_none: "serial body callback s [] s"
| serial_more: "serial body callback s h s1 \<Longrightarrow> alone body callback (body c) s1 r s2 \<Longrightarrow>
     serial body callback s (h @ [(c, r)]) s2"

section \<open>Threads\<close>

text \<open>The calls that each thread is inside, the innermost first, and the finished calls.\<close>

record ('m, 's, 'c, 'r) threads =
  th_mutex :: 'm
  th_inside :: "nat \<Rightarrow> ('c \<times> ('s, 'r) procedure) list"
  th_shared :: 's
  th_history :: "('c \<times> 'r) list"

text \<open>A statement does not ask who holds the mutex.\<close>

inductive th_step ::
  "(nat \<Rightarrow> 'm \<Rightarrow> 'm option) \<Rightarrow> (nat \<Rightarrow> 'm \<Rightarrow> 'm) \<Rightarrow> ('c \<Rightarrow> ('s, 'r) procedure) \<Rightarrow> ('c \<Rightarrow> bool)
     \<Rightarrow> ('m, 's, 'c, 'r) threads \<Rightarrow> ('m, 's, 'c, 'r) threads \<Rightarrow> bool"
  for lock unlock body callback where
  th_enter: "lock t (th_mutex m) = Some x \<Longrightarrow> th_inside m t = [] \<or> callback c \<Longrightarrow>
     th_step lock unlock body callback m
       (m\<lparr>th_mutex := x, th_inside := (th_inside m)(t := (c, body c) # th_inside m t)\<rparr>)"
| th_statement: "th_inside m t = (c, Statement f) # rest1 \<Longrightarrow> f (th_shared m) = Some (s, p) \<Longrightarrow>
     th_step lock unlock body callback m
       (m\<lparr>th_inside := (th_inside m)(t := (c, p) # rest1), th_shared := s\<rparr>)"
| th_leave: "th_inside m t = (c, Return r) # rest1 \<Longrightarrow>
     th_step lock unlock body callback m
       (m\<lparr>th_mutex := unlock t (th_mutex m), th_inside := (th_inside m)(t := rest1),
          th_history := (if rest1 = [] then th_history m @ [(c, r)] else th_history m)\<rparr>)"

definition th_start :: "'m \<Rightarrow> 's \<Rightarrow> ('m, 's, 'c, 'r) threads" where
  "th_start x s = \<lparr>th_mutex = x, th_inside = (\<lambda>_. []), th_shared = s, th_history = []\<rparr>"

text \<open>A method that runs through alone runs through in its thread.\<close>

lemma alone_steps:
  assumes "alone body (\<lambda>_. False) p s r s'" "th_inside m t = (c, p) # rest1" "th_shared m = s"
  shows "(th_step lock unlock body callback)\<^sup>*\<^sup>* m
    (m\<lparr>th_inside := (th_inside m)(t := (c, Return r) # rest1), th_shared := s'\<rparr>)"
  using assms
proof (induction p s r s' arbitrary: m rule: alone.induct)
  case (alone_return r s)
  then have same: "m\<lparr>th_inside := (th_inside m)(t := (c, Return r) # rest1), th_shared := s\<rparr> = m"
    by (simp add: fun_upd_idem)
  show ?case unfolding same by (rule rtranclp.rtrancl_refl)
next
  case (alone_statement f s s1 p r s')
  let ?m = "m\<lparr>th_inside := (th_inside m)(t := (c, p) # rest1), th_shared := s1\<rparr>"
  have first: "th_step lock unlock body callback m ?m"
    by (rule th_statement [where f = f]) (use alone_statement in auto)
  have at: "th_inside ?m t = (c, p) # rest1" "th_shared ?m = s1" by simp_all
  have "(th_step lock unlock body callback)\<^sup>*\<^sup>* ?m
      (m\<lparr>th_inside := (th_inside m)(t := (c, Return r) # rest1), th_shared := s'\<rparr>)"
    using alone_statement.IH [OF at] by (cases m) (simp only: threads.simps fun_upd_upd threads.update_convs)
  with first show ?case by (rule converse_rtranclp_into_rtranclp)
qed simp

lemma th_call:
  assumes "lock t (th_mutex m) = Some x" "th_inside m t = []"
    and "alone body (\<lambda>_. False) (body c) (th_shared m) r s'"
  shows "(th_step lock unlock body callback)\<^sup>*\<^sup>* m
    (m\<lparr>th_shared := s', th_mutex := unlock t x, th_history := th_history m @ [(c, r)]\<rparr>)"
proof -
  let ?m1 = "m\<lparr>th_mutex := x, th_inside := (th_inside m)(t := [(c, body c)])\<rparr>"
  let ?m2 = "?m1\<lparr>th_inside := (th_inside ?m1)(t := [(c, Return r)]), th_shared := s'\<rparr>"
  have "th_step lock unlock body callback m ?m1"
    using th_enter [of lock t m x callback c unlock body] assms(1,2) by simp
  also have "(th_step lock unlock body callback)\<^sup>*\<^sup>* ?m1 ?m2"
    by (rule alone_steps [OF assms(3)]) simp_all
  also have "th_step lock unlock body callback ?m2
      (?m2\<lparr>th_mutex := unlock t (th_mutex ?m2), th_inside := (th_inside ?m2)(t := []),
        th_history := th_history ?m2 @ [(c, r)]\<rparr>)"
    using th_leave [of ?m2 t c r "[]"] by simp
  finally show ?thesis using assms(2) by (simp add: fun_upd_idem)
qed

section \<open>The calls are serialised\<close>

text \<open>How the calls that a thread is inside end, the innermost first.\<close>

fun unwinds ::
  "('c \<Rightarrow> ('s, 'r) procedure) \<Rightarrow> ('c \<Rightarrow> bool) \<Rightarrow> ('c \<times> ('s, 'r) procedure) list \<Rightarrow> 's \<Rightarrow> 'r \<Rightarrow> 's \<Rightarrow> bool" where
  "unwinds body callback [] s r s' = False"
| "unwinds body callback [(c, p)] s r s' = alone body callback p s r s'"
| "unwinds body callback ((c, p) # fr # frs) s r s' =
     (\<exists>r1 s1. alone body callback p s r1 s1 \<and> unwinds body callback (fr # frs) s1 r s')"

lemma unwinds_statement:
  assumes "f s = Some (s1, p)" "unwinds body callback ((c, p) # frs) s1 r s'"
  shows "unwinds body callback ((c, Statement f) # frs) s r s'"
  using assms by (cases frs) (auto intro: alone_statement)

lemma unwinds_callback:
  assumes "callback c" "alone body callback (body c) s r1 s1" "unwinds body callback frs s1 r s'"
  shows "unwinds body callback frs s r s'"
  using assms by (cases "(body, callback, frs, s1, r, s')" rule: unwinds.cases) (auto intro: alone_callback)

definition excluded ::
  "('m \<Rightarrow> nat option) \<Rightarrow> ('m \<Rightarrow> nat) \<Rightarrow> ('m, 's, 'c, 'r) threads \<Rightarrow> bool" where
  "excluded holder level m \<longleftrightarrow>
     (\<forall>t. th_inside m t \<noteq> [] \<longleftrightarrow> holder (th_mutex m) = Some t)
     \<and> (\<forall>t. holder (th_mutex m) = Some t \<longrightarrow> level (th_mutex m) = length (th_inside m t))"

definition serialised ::
  "('c \<Rightarrow> ('s, 'r) procedure) \<Rightarrow> ('c \<Rightarrow> bool) \<Rightarrow> ('m \<Rightarrow> nat option) \<Rightarrow> 's \<Rightarrow> ('m, 's, 'c, 'r) threads \<Rightarrow> bool" where
  "serialised body callback holder s0 m \<longleftrightarrow>
     (\<exists>s. serial body callback s0 (th_history m) s
       \<and> (case holder (th_mutex m) of
            None \<Rightarrow> th_shared m = s
          | Some t \<Rightarrow> (\<forall>r s'. unwinds body callback (th_inside m t) (th_shared m) r s' \<longrightarrow>
              alone body callback (body (fst (last (th_inside m t)))) s r s')))"

lemma excluded_inside:
  assumes "excluded holder level m" "th_inside m t = fr # frs"
  shows "holder (th_mutex m) = Some t" "level (th_mutex m) = Suc (length frs)"
proof -
  show "holder (th_mutex m) = Some t"
    using assms unfolding excluded_def by (metis list.distinct(1))
  with assms show "level (th_mutex m) = Suc (length frs)"
    unfolding excluded_def by (metis length_Cons)
qed

context recursive_mutex
begin

lemma excluded_step:
  assumes "th_step lock unlock body callback m m'" "excluded holder level m"
  shows "excluded holder level m'"
  using assms
proof cases
  case (th_enter t x c)
  have "holder (th_mutex m) = None \<or> holder (th_mutex m) = Some t"
    using lock_waits [of t "th_mutex m"] th_enter(2) by auto
  with th_enter assms(2) lock_owns [OF th_enter(2)] free_level [of "th_mutex m"] show ?thesis
    by (auto simp: excluded_def)
next
  case (th_statement t c f rest1 s p)
  with assms(2) show ?thesis by (auto simp: excluded_def)
next
  case (th_leave t c r rest1)
  note own = excluded_inside [OF assms(2) th_leave(2)]
  with th_leave assms(2) unlock_level [OF own(1)] unlock_holder [OF own(1)] show ?thesis
    by (auto simp: excluded_def)
qed

lemma serialised_step:
  assumes "th_step lock unlock body callback m m'" "excluded holder level m"
    and "serialised body callback holder s0 m"
  shows "serialised body callback holder s0 m'"
  using assms(1)
proof cases
  case (th_enter t x c)
  note own = lock_owns [OF th_enter(2)]
  show ?thesis
  proof (cases "holder (th_mutex m)")
    case None
    with assms(2,3) have "th_inside m t = []" "serial body callback s0 (th_history m) (th_shared m)"
      by (auto simp: excluded_def serialised_def)
    with th_enter own show ?thesis by (auto simp: serialised_def)
  next
    case (Some u)
    with th_enter(2) have "u = t" using lock_waits [of t "th_mutex m"] by auto
    then have ne: "th_inside m t \<noteq> []" using assms(2) Some by (auto simp: excluded_def)
    with th_enter(3) have "callback c" by simp
    have "unwinds body callback (th_inside m t) (th_shared m) r s'"
      if "unwinds body callback ((c, body c) # th_inside m t) (th_shared m) r s'" for r s'
      using that ne unwinds_callback [where callback = callback and c = c, OF \<open>callback c\<close>]
      by (cases "th_inside m t") auto
    with assms(3) Some \<open>u = t\<close> th_enter own ne show ?thesis
      by (auto simp: serialised_def)
  qed
next
  case (th_statement t c f rest1 s p)
  note own = excluded_inside(1) [OF assms(2) th_statement(2)]
  have "unwinds body callback (th_inside m t) (th_shared m) r s'"
    if "unwinds body callback ((c, p) # rest1) s r s'" for r s'
    unfolding th_statement(2)
    by (rule unwinds_statement [where f = f and ?s1.0 = s and p = p]) (use th_statement(3) that in auto)
  with assms(3) own th_statement show ?thesis
    by (auto simp: serialised_def split: if_splits)
next
  case (th_leave t c r rest1)
  note own = excluded_inside [OF assms(2) th_leave(2)]
  from assms(3) own(1) obtain s where s: "serial body callback s0 (th_history m) s"
    "\<And>r s'. unwinds body callback (th_inside m t) (th_shared m) r s' \<Longrightarrow>
       alone body callback (body (fst (last (th_inside m t)))) s r s'"
    by (auto simp: serialised_def)
  show ?thesis
  proof (cases rest1)
    case Nil
    with s(2) [of r "th_shared m"] th_leave(2) have "alone body callback (body c) s r (th_shared m)"
      by (auto intro: alone_return)
    from serial_more [OF s(1) this] Nil th_leave(1) own unlock_holder [OF own(1)] show ?thesis
      by (simp add: serialised_def)
  next
    case (Cons fr frs)
    have "unwinds body callback (th_inside m t) (th_shared m) r' s'"
      if "unwinds body callback rest1 (th_shared m) r' s'" for r' s'
      using that Cons th_leave(2) by (auto intro: alone_return)
    with s Cons th_leave own unlock_holder [OF own(1)] show ?thesis
      by (auto simp: serialised_def)
  qed
qed

text \<open>Whatever the threads do, at most one is inside a method, and when none is, the state and the
  results are those of the finished calls made one after the other.\<close>

lemma reachable_serialised:
  assumes "(th_step lock unlock body callback)\<^sup>*\<^sup>* (th_start x s0) m" "holder x = None"
  shows "excluded holder level m" "serialised body callback holder s0 m"
proof -
  have "excluded holder level m \<and> serialised body callback holder s0 m"
    using assms(1)
  proof induction
    case base
    show ?case using assms(2)
      by (auto simp: th_start_def excluded_def serialised_def intro: serial_none)
  next
    case (step m1 m2)
    with excluded_step [OF step(2)] serialised_step [OF step(2)] show ?case by simp
  qed
  then show "excluded holder level m" "serialised body callback holder s0 m" by auto
qed

lemma reachable_free:
  assumes "(th_step lock unlock body callback)\<^sup>*\<^sup>* (th_start x s0) m" "holder x = None"
    and "\<forall>t. th_inside m t = []"
  shows "serial body callback s0 (th_history m) (th_shared m)"
proof -
  note inv = reachable_serialised [OF assms(1,2)]
  have "holder (th_mutex m) = None" using inv(1) assms(3) by (auto simp: excluded_def)
  with inv(2) show ?thesis by (auto simp: serialised_def)
qed

text \<open>The mutex is recursive: the thread inside a method may call another one from a callback.\<close>

lemma callback_enters:
  assumes "(th_step lock unlock body callback)\<^sup>*\<^sup>* (th_start x s0) m" "holder x = None"
    and "th_inside m t \<noteq> []"
  shows "lock t (th_mutex m) \<noteq> None"
  using reachable_serialised(1) [OF assms(1,2)] assms(3) lock_waits [of t "th_mutex m"]
  by (auto simp: excluded_def)

end

end
