(* ===== verification/Bus_Locking.thy ===== *)
theory Bus_Locking
  imports Bus_Model Monitor
begin

text \<open>
  The calls of several threads on one \<^verbatim>\<open>Bus\<close> (\<^verbatim>\<open>src/src/Bus.cpp\<close>). Each method is its statements
  between taking the lock and giving it back, and what they share is the bus and the world of
  its stream.
\<close>

section \<open>The methods, statement by statement\<close>

datatype bus_call =
    AddParser ptr
  | RemoveParser ptr
  | WritePacket "byte list" int int
  | ReadPacket "byte list" int int int "ptr option"

datatype bus_result =
    Done
  | Wrote "exn + bool"
  | Read "exn + nat" "byte list"

fun bus_method ::
  "(int \<Rightarrow> 't) \<Rightarrow> (int \<Rightarrow> 't) \<Rightarrow> ('w, 't::linordered_ab_group_add) env \<Rightarrow> (ptr \<Rightarrow> byte list \<Rightarrow> int)
     \<Rightarrow> (ptr \<Rightarrow> bool) \<Rightarrow> bus_call \<Rightarrow> ('t bus \<times> 'w, bus_result) procedure" where
  "bus_method fromMs fromUs env parse is_handler (AddParser p) =
     Statement (\<lambda>(b, w). Some ((addParser p b, w), Return Done))"
| "bus_method fromMs fromUs env parse is_handler (RemoveParser p) =
     Statement (\<lambda>(b, w). Some ((removeParser p b, w), Return Done))"
| "bus_method fromMs fromUs env parse is_handler (WritePacket buffer buffer_size timeout) =
     Statement (\<lambda>(b, w). map_option (\<lambda>(r, d, w'). ((b\<lparr>bus_driver := d\<rparr>, w'), Return (Wrote r)))
       (writePacket_ms fromUs env buffer buffer_size timeout (bus_driver b) w))"
| "bus_method fromMs fromUs env parse is_handler
     (ReadPacket buffer buffer_size packet_timeout first_byte_timeout parser) =
     Statement (\<lambda>(b, w). Some ((b\<lparr>bus_caller := parser\<rparr>, w),
     Statement (\<lambda>(b, w). map_option (\<lambda>(r, d, buffer', w').
         ((b\<lparr>bus_driver := d\<rparr>, w'),
          (case r of
             Inl e \<Rightarrow> Statement (\<lambda>(b, w). Some ((b\<lparr>bus_caller := None\<rparr>, w), Return (Read (Inl e) buffer')))
           | Inr n \<Rightarrow> Return (Read (Inr n) buffer'))))
       (readPacket_ms fromMs env (\<lambda>bs. fst (Bus_extractPacket parse is_handler b bs))
          buffer buffer_size packet_timeout first_byte_timeout (bus_driver b) w))))"

text \<open>A call as one operation on the bus, as \<^verbatim>\<open>Bus_Model\<close> has it.\<close>

fun bus_effect ::
  "(int \<Rightarrow> 't) \<Rightarrow> (int \<Rightarrow> 't) \<Rightarrow> ('w, 't::linordered_ab_group_add) env \<Rightarrow> (ptr \<Rightarrow> byte list \<Rightarrow> int)
     \<Rightarrow> (ptr \<Rightarrow> bool) \<Rightarrow> bus_call \<Rightarrow> 't bus \<times> 'w \<Rightarrow> (bus_result \<times> 't bus \<times> 'w) option" where
  "bus_effect fromMs fromUs env parse is_handler (AddParser p) (b, w) = Some (Done, addParser p b, w)"
| "bus_effect fromMs fromUs env parse is_handler (RemoveParser p) (b, w) = Some (Done, removeParser p b, w)"
| "bus_effect fromMs fromUs env parse is_handler (WritePacket buffer n timeout) (b, w) =
     map_option (\<lambda>(r, b', w'). (Wrote r, b', w')) (Bus_writePacket fromUs env buffer n timeout b w)"
| "bus_effect fromMs fromUs env parse is_handler (ReadPacket buffer n pt fb parser) (b, w) =
     map_option (\<lambda>(r, b', buffer', w'). (Read r buffer', b', w'))
       (Bus_readPacket fromMs env parse is_handler buffer n pt fb parser b w)"

lemma bus_method_effect:
  "alone (bus_method fromMs fromUs env parse is_handler) (\<lambda>_. False)
      (bus_method fromMs fromUs env parse is_handler c) s r s'
   \<longleftrightarrow> bus_effect fromMs fromUs env parse is_handler c s = Some (r, s')"
proof (cases c)
  case (ReadPacket buffer n pt fb parser)
  obtain b w where s: "s = (b, w)" by fastforce
  let ?run = "readPacket_ms fromMs env (\<lambda>bs. fst (Bus_extractPacket parse is_handler (b\<lparr>bus_caller := parser\<rparr>) bs))
    buffer n pt fb (bus_driver b) w"
  show ?thesis
  proof (cases ?run)
    case (Some x)
    obtain r1 d buffer' w1 where x: "x = (r1, d, buffer', w1)" by (metis prod_cases4)
    show ?thesis
      by (cases r1) (auto simp: ReadPacket s Bus_readPacket_def Some x)
  qed (simp add: ReadPacket s Bus_readPacket_def)
qed (cases s; auto simp: Bus_writePacket_def split: prod.splits)+

section \<open>The bus serialises its callers\<close>

text \<open>Calls one after the other, each as one operation.\<close>

fun bus_session ::
  "(int \<Rightarrow> 't) \<Rightarrow> (int \<Rightarrow> 't) \<Rightarrow> ('w, 't::linordered_ab_group_add) env \<Rightarrow> (ptr \<Rightarrow> byte list \<Rightarrow> int)
     \<Rightarrow> (ptr \<Rightarrow> bool) \<Rightarrow> bus_call list \<Rightarrow> 't bus \<times> 'w \<Rightarrow> (bus_result list \<times> 't bus \<times> 'w) option" where
  "bus_session fromMs fromUs env parse is_handler [] s = Some ([], s)"
| "bus_session fromMs fromUs env parse is_handler (c # cs) s =
     (case bus_effect fromMs fromUs env parse is_handler c s of
        None \<Rightarrow> None
      | Some (r, s1) \<Rightarrow>
          map_option (\<lambda>(rs, s2). (r # rs, s2)) (bus_session fromMs fromUs env parse is_handler cs s1))"

lemma bus_session_snoc:
  "bus_session fromMs fromUs env parse is_handler (cs @ [c]) s =
     (case bus_session fromMs fromUs env parse is_handler cs s of
        None \<Rightarrow> None
      | Some (rs, s1) \<Rightarrow>
          map_option (\<lambda>(r, s2). (rs @ [r], s2)) (bus_effect fromMs fromUs env parse is_handler c s1))"
  by (induction cs arbitrary: s) (auto simp: map_option_case split: option.splits)

lemma serial_session:
  "serial (bus_method fromMs fromUs env parse is_handler) (\<lambda>_. False) s h s' \<Longrightarrow>
     bus_session fromMs fromUs env parse is_handler (map fst h) s = Some (map snd h, s')"
  by (induction h s' rule: serial.induct)
    (simp_all add: bus_session_snoc bus_method_effect)



end
