(* ===== verification/Repository_Tests.thy ===== *)
theory Repository_Tests
  imports Fixture_Model Extractors Stream_Properties Serial_Model
begin

text \<open>
  The test cases of \<^verbatim>\<open>src/test/\<close> run on the model: each scenario is the sequence of calls of a test
  case with what it requires of them, and is evaluated by the kernel. What the tests take from the
  system (a pipe) is the small system of \<^verbatim>\<open>Pipe_Os\<close>.
\<close>

section \<open>Drivers on a pipe\<close>

text \<open>What the test cases of \<^verbatim>\<open>test_Driver.cpp\<close> do and require.\<close>

datatype wait = Default | Within_ms int int

datatype test_step =
    Arrives "byte list"
  | Extract_last bool
  | Returns wait "byte list"
  | Times_out wait "timeout_type option"
  | Stats nat nat
  | No_packet
  | Raw nat "byte list"

abbreviation pipe_env :: "(pipes heap, int) env" where
  "pipe_env \<equiv> sys_env us_ops pipe_os"

fun read_on_pipe ::
  "nat \<Rightarrow> wait \<Rightarrow> int driver \<Rightarrow> pipes heap \<Rightarrow> ((exn + nat) \<times> int driver \<times> byte list \<times> pipes heap) option" where
  "read_on_pipe k Default d w = readPacket_default pipe_env DriverTest_extractPacket (replicate k 0) (int k) d w"
| "read_on_pipe k (Within_ms packet_timeout first_byte_timeout) d w =
     readPacket_ms (fromMilliseconds us_ops) pipe_env DriverTest_extractPacket (replicate k 0) (int k)
       packet_timeout first_byte_timeout d w"

text \<open>The continuation runs when the call ended as the test requires.\<close>

definition ends_with ::
  "((exn + byte list) \<Rightarrow> bool) \<Rightarrow> (int driver \<Rightarrow> pipes heap \<Rightarrow> bool)
     \<Rightarrow> ((exn + nat) \<times> int driver \<times> byte list \<times> pipes heap) option \<Rightarrow> bool" where
  "ends_with P k x =
     (case x of
        None \<Rightarrow> False
      | Some (r, d, buffer, w) \<Rightarrow> P (map_sum id (\<lambda>n. take n buffer) r) \<and> k d w)"

fun is_timeout :: "timeout_type option \<Rightarrow> exn + 'a \<Rightarrow> bool" where
  "is_timeout t (Inl (TimeoutError u)) = (case t of None \<Rightarrow> True | Some v \<Rightarrow> u = v)"
| "is_timeout t r = False"

fun passes :: "nat \<Rightarrow> test_step list \<Rightarrow> int driver \<Rightarrow> pipes heap \<Rightarrow> bool" where
  "passes k [] d w = True"
| "passes k (Arrives bs # ts) d w = passes k ts d (w\<lparr>h_os := send_to 7 bs [] (h_os w)\<rparr>)"
| "passes k (Extract_last b # ts) d w = passes k ts (setExtractLastPacket b d) w"
| "passes k (Returns t bs # ts) d w = ends_with (\<lambda>r. r = Inr bs) (passes k ts) (read_on_pipe k t d w)"
| "passes k (Times_out t u # ts) d w = ends_with (is_timeout u) (passes k ts) (read_on_pipe k t d w)"
| "passes k (Stats good bad # ts) d w \<longleftrightarrow>
     tx (m_stats d) = 0 \<and> good_rx (m_stats d) = of_nat good \<and> bad_rx (m_stats d) = of_nat bad \<and> passes k ts d w"
| "passes k (No_packet # ts) d w =
     (case hasPacket pipe_env DriverTest_extractPacket d w of
        (Inr b, d1, w1) \<Rightarrow> \<not> b \<and> passes k ts d1 w1
      | _ \<Rightarrow> False)"
| "passes k (Raw n bs # ts) d w =
     ends_with (\<lambda>r. r = Inr bs) (passes k ts) (readRaw_default pipe_env (replicate n 0) (int n) d w)"

definition pipe_heap :: "pipes heap" where
  "pipe_heap = \<lparr>h_streams = Map.empty, h_listeners = Map.empty, h_next = 1, h_os = pipes_init\<rparr>"

text \<open>\<^verbatim>\<open>setupDriver\<close>: the driver on the reading end of a pipe.\<close>

definition on_pipe :: "nat \<Rightarrow> test_step list \<Rightarrow> bool" where
  "on_pipe k ts =
     (case setFileDescriptor us_ops pipe_os 7 True True (projr (Driver_init (\<lambda>_. 0) (int k) False)) pipe_heap of
        (Inr _, d, w) \<Rightarrow> passes k ts d w
      | _ \<Rightarrow> False)"

text \<open>\<^verbatim>\<open>"garb" 0 a b 0 "bage" 0 c d 0\<close>.\<close>

definition garbage :: "byte list" where
  "garbage = [103, 97, 114, 98, 0, 97, 98, 0, 98, 97, 103, 101, 0, 99, 100, 0]"

definition rx_timeout :: "test_step list" where
  "rx_timeout =
     [Times_out (Within_ms 10 (- 1)) None, Arrives [97], Times_out (Within_ms 10 (- 1)) None]"

definition rx_first_byte_timeout :: "test_step list" where
  "rx_first_byte_timeout =
     [Times_out (Within_ms 10 1) (Some FIRST_BYTE), Arrives [97],
      Times_out (Within_ms 10 1) (Some PACKET), Times_out (Within_ms 10 1) (Some FIRST_BYTE)]"

definition rx_first_packet_extraction :: "test_step list" where
  "rx_first_packet_extraction =
     [Arrives [0, 97, 98, 0], Returns (Within_ms 10 (- 1)) [0, 97, 98, 0], Stats 4 0]"

definition rx_partial_packets :: "test_step list" where
  "rx_partial_packets =
     [Arrives [0, 97], Times_out (Within_ms 10 (- 1)) None,
      Arrives [98, 0], Returns (Within_ms 10 (- 1)) [0, 97, 98, 0], Stats 4 0,
      Arrives [0, 97, 98, 0], Returns (Within_ms 10 (- 1)) [0, 97, 98, 0], Stats 8 0]"

definition rx_garbage_removal :: "test_step list" where
  "rx_garbage_removal =
     [Arrives (take 3 garbage), Times_out (Within_ms 10 (- 1)) None, Stats 0 3,
      Arrives (take 3 (drop 3 garbage)), Times_out (Within_ms 10 (- 1)) None, Stats 0 4,
      Arrives (take 3 (drop 6 garbage)), Returns (Within_ms 10 (- 1)) [0, 97, 98, 0], Stats 4 4,
      Arrives (take 7 (drop 9 garbage)), Returns (Within_ms 10 (- 1)) [0, 99, 100, 0], Stats 8 8]"

text \<open>The part of the test of the two modes that is in the default one.\<close>

definition rx_packet_extraction_mode :: "test_step list" where
  "rx_packet_extraction_mode =
     [Arrives garbage, Extract_last False,
      Returns (Within_ms 10 (- 1)) [0, 97, 98, 0], Stats 4 4,
      Returns (Within_ms 10 (- 1)) [0, 99, 100, 0], Stats 8 8]"

definition hasPacket_with_garbage :: "test_step list" where
  "hasPacket_with_garbage =
     [Arrives [49, 50, 0, 32, 32, 0, 32, 51], Returns (Within_ms 10 1) [0, 32, 32, 0], No_packet]"

definition readRaw_consumes :: "test_step list" where
  "readRaw_consumes = [Arrives garbage, Raw 16 garbage, Raw 4 []]"

definition readRaw_from_internal :: "test_step list" where
  "readRaw_from_internal = [Arrives [0, 103, 97], Times_out Default None, Raw 3 [0, 103, 97], Raw 3 []]"

definition readRaw_concatenates :: "test_step list" where
  "readRaw_concatenates =
     [Arrives [0, 103, 97], Times_out Default None,
      Arrives [0, 97, 98, 99, 0, 98, 97, 103, 101, 0, 99, 100, 0],
      Raw 100 [0, 103, 97, 0, 97, 98, 99, 0, 98, 97, 103, 101, 0, 99, 100, 0]]"

lemma driver_test_cases:
  "on_pipe 100 rx_timeout"
  "on_pipe 100 rx_first_byte_timeout"
  "on_pipe 100 rx_first_packet_extraction"
  "on_pipe 100 rx_partial_packets"
  by code_simp+

lemma driver_test_cases_garbage:
  "on_pipe 100 rx_garbage_removal"
  "on_pipe 100 [No_packet]"
  "on_pipe 100 hasPacket_with_garbage"
  by code_simp+

lemma driver_test_cases_mode: "on_pipe 100 rx_packet_extraction_mode"
  by code_simp

lemma driver_test_cases_raw:
  "on_pipe 100 readRaw_consumes"
  "on_pipe 100 readRaw_from_internal"
  "on_pipe 100 readRaw_concatenates"
  by code_simp+

section \<open>The test harness\<close>

text \<open>What the test cases of \<^verbatim>\<open>test_TestStream.cpp\<close> do with their fixture and require. \<open>Mock\<close> and
  \<open>Mock_ends\<close> are the construction and the destruction of the mock context.\<close>

datatype harness_step =
    Open
  | Push "byte list"
  | Packet "byte list"
  | No_data
  | Send "byte list"
  | Send_throws "byte list" exn
  | Sent "byte list"
  | Expect "byte list" "byte list"
  | Expect_throws "byte list" "byte list" exn
  | Left_throws
  | Clear
  | Mock
  | Mock_ends bool

definition continue ::
  "('a \<Rightarrow> bool) \<Rightarrow> ('t fixture \<Rightarrow> 'o heap \<Rightarrow> bool) \<Rightarrow> 'a \<times> 't fixture \<times> 'o heap \<Rightarrow> bool" where
  "continue P k = (\<lambda>(r, f, w). P r \<and> k f w)"

definition continue_if_it_returns ::
  "('a \<Rightarrow> bool) \<Rightarrow> ('t fixture \<Rightarrow> 'o heap \<Rightarrow> bool) \<Rightarrow> ('a \<times> 't fixture \<times> 'o heap) option \<Rightarrow> bool" where
  "continue_if_it_returns P k x = (case x of None \<Rightarrow> False | Some y \<Rightarrow> continue P k y)"

fun holds :: "(byte list \<Rightarrow> int) \<Rightarrow> harness_step list \<Rightarrow> int fixture \<Rightarrow> desk heap \<Rightarrow> bool" where
  "holds ext [] f w = True"
| "holds ext (Open # ts) f w =
     (case openTestMode us_ops desk_os (fx_driver f) w of
        (Inr _, d, w1) \<Rightarrow> holds ext ts (f\<lparr>fx_driver := d\<rparr>) w1
      | _ \<Rightarrow> False)"
| "holds ext (Push bs # ts) f w =
     continue (\<lambda>r. r = Inr ()) (holds ext ts) (Fixture_pushDataToDriver us_ops desk_os bs f w)"
| "holds ext (Packet bs # ts) f w =
     continue_if_it_returns (\<lambda>r. r = Inr bs) (holds ext ts) (Fixture_readPacket us_ops desk_os ext f w)"
| "holds ext (No_data # ts) f w =
     continue_if_it_returns (is_timeout None) (holds ext ts) (Fixture_readPacket us_ops desk_os ext f w)"
| "holds ext (Send bs # ts) f w =
     continue_if_it_returns (\<lambda>r. r = Inr ()) (holds ext ts) (Fixture_writePacket us_ops desk_os bs f w)"
| "holds ext (Send_throws bs e # ts) f w =
     continue_if_it_returns (\<lambda>r. r = Inl e) (holds ext ts) (Fixture_writePacket us_ops desk_os bs f w)"
| "holds ext (Sent bs # ts) f w =
     continue (\<lambda>r. r = Inr bs) (holds ext ts) (Fixture_readDataFromDriver us_ops desk_os f w)"
| "holds ext (Expect bs reply # ts) f w =
     continue (\<lambda>r. r = Inr ()) (holds ext ts) (Fixture_EXPECT_REPLY us_ops desk_os bs reply f w)"
| "holds ext (Expect_throws bs reply e # ts) f w =
     continue (\<lambda>r. r = Inl e) (holds ext ts) (Fixture_EXPECT_REPLY us_ops desk_os bs reply f w)"
| "holds ext (Left_throws # ts) f w =
     continue (\<lambda>r. r = Inl TestEndsWithExpectationsLeft) (holds ext ts) (validateExpectationsAreEmpty us_ops desk_os f w)"
| "holds ext (Clear # ts) f w =
     continue (\<lambda>r. r = Inr ()) (holds ext ts) (Fixture_clearExpectations us_ops desk_os f w)"
| "holds ext (Mock # ts) f w =
     continue (\<lambda>r. r = Inr ()) (holds ext ts) (MockContext_init us_ops desk_os f w)"
| "holds ext (Mock_ends failed # ts) f w =
     continue (\<lambda>r. r = Inr failed) (holds ext ts) (BoostMockContext_destroy us_ops desk_os f w)"

text \<open>A fixture around a driver for packets of at most 100 bytes; without \<open>Open\<close> the first call
  opens its test stream.\<close>

definition in_fixture :: "(byte list \<Rightarrow> int) \<Rightarrow> harness_step list \<Rightarrow> bool" where
  "in_fixture ext ts = holds ext ts (Fixture_init (projr (Driver_init (\<lambda>_. 0) 100 False)))
     \<lparr>h_streams = Map.empty, h_listeners = Map.empty, h_next = 1, h_os = desk_init []\<rparr>"

definition in_open_fixture :: "harness_step list \<Rightarrow> bool" where
  "in_open_fixture ts = in_fixture WholeBuffer_extractPacket (Open # ts)"

definition exchange :: "byte list \<Rightarrow> byte list \<Rightarrow> harness_step list" where
  "exchange request reply = [Expect request reply, Send request, Packet reply]"

lemma harness_test_cases:
  "in_open_fixture [Push [0, 1, 2, 3], Packet [0, 1, 2, 3]]"
  "in_open_fixture [Push [0, 1], Push [2, 3], Packet [0, 1, 2, 3]]"
  "in_open_fixture [Push [0, 1], Packet [0, 1], Push [2, 3], Packet [2, 3]]"
  "in_open_fixture [No_data]"
  "in_open_fixture [Send [0, 1, 2, 3], Sent [0, 1, 2, 3]]"
  "in_open_fixture [Send [0, 1], Send [2, 3], Sent [0, 1, 2, 3]]"
  "in_open_fixture [Send [0, 1], Sent [0, 1], Send [2, 3], Sent [2, 3]]"
  by code_simp+

lemma mock_test_cases:
  "in_open_fixture ([Mock] @ exchange [0, 1, 2, 3] [3, 2, 1, 0] @ [Mock_ends False])"
  "in_open_fixture
     [Mock, Expect [0, 1, 2, 3] [3, 2, 1, 0], Send_throws [0, 1, 2, 4] InvalidArgument]"
  "in_open_fixture [Expect_throws [0, 1, 2, 3] [3, 2, 1, 0] MockContextException]"
  "in_open_fixture
     [Mock, Expect [0, 1, 2, 3] [3, 2, 1, 0], Expect [0, 1, 2, 3, 4] [4, 3, 2, 1, 0],
      Send [0, 1, 2, 3], Packet [3, 2, 1, 0], Send [0, 1, 2, 3, 4], Packet [4, 3, 2, 1, 0], Mock_ends False]"
  "in_open_fixture
     [Mock, Expect [0, 1, 2, 3] [3, 2, 1, 0], Expect [0, 1, 2, 3, 4] [4, 3, 2, 1, 0],
      Send [0, 1, 2, 3], Packet [3, 2, 1, 0], Left_throws, Clear, Mock_ends False]"
  "in_open_fixture
     ([Mock] @ exchange [0, 1, 2, 3] [3, 2, 1, 0] @ [Send_throws [0, 1, 2, 3, 4] RuntimeError])"
  by code_simp+

lemma mock_sequence_test_cases:
  "in_open_fixture
     ([Mock] @ exchange [0, 1, 2, 3] [3, 2, 1, 0] @ [Mock_ends False]
      @ [Mock] @ exchange [3, 2, 1, 0] [0, 1, 2, 3] @ [Mock_ends False])"
  "in_open_fixture
     ([Mock] @ exchange [0, 1, 2, 3] [3, 2, 1, 0] @ [Mock_ends False, Push [0, 1, 2, 3], Packet [0, 1, 2, 3]])"
  "in_open_fixture
     ([Mock] @ exchange [0, 1, 2, 3] [3, 2, 1, 0] @ [Mock_ends False, Send [0, 1, 2, 3], Sent [0, 1, 2, 3]])"
  "in_open_fixture
     [Mock, Expect [0, 1, 2, 3] [3, 2, 1, 0], Send [0, 1, 2, 3], Mock_ends False, Packet [3, 2, 1, 0]]"
  "in_fixture DriverClassName_extractPacket
     [Mock, Expect [0, 1, 2, 3] [3, 2, 1, 0], Send [0, 1, 2, 3], Packet [3]]"
  by code_simp+

section \<open>URIs\<close>

text \<open>\<^verbatim>\<open>test_URI.cpp\<close>: scheme, host, port and two options of a parsed URI.\<close>

definition parts :: "string \<Rightarrow> exn + string \<times> string \<times> int \<times> string option \<times> string option" where
  "parts s = map_sum id (\<lambda>u. (getScheme u, getHost u, getPort u, getOptions u ''some'', getOptions u ''other''))
     (URI_parse s)"

lemma uri_test_cases:
  "parts ''sch://host:200?some=option&other=value''
    = Inr (''sch'', ''host'', 200, Some ''option'', Some ''value'')"
  "parts ''sch://host:200'' = Inr (''sch'', ''host'', 200, None, None)"
  "parts ''sch://host?some=option&other=value''
    = Inr (''sch'', ''host'', 0, Some ''option'', Some ''value'')"
  "parts ''sch://host'' = Inr (''sch'', ''host'', 0, None, None)"
  "parts ''sch://:200?some=option&other=value''
    = Inr (''sch'', [], 200, Some ''option'', Some ''value'')"
  "parts ''sch://:200'' = Inr (''sch'', [], 200, None, None)"
  "parts ''sch://?some=option&other=value'' = Inr (''sch'', [], 0, Some ''option'', Some ''value'')"
  "parts ''sch://'' = Inr (''sch'', [], 0, None, None)"
  by code_simp+

lemma uri_test_cases_rejected:
  "\<forall>s \<in> {''sch://:some'', ''sch://:200some'', ''sch:/'', ''sch//'', ''sch://:'', ''sch://?'',
      ''sch://?some=key&'', ''sch://?some'', ''sch://?some&key=value''}. parts s = Inl InvalidArgument"
  by code_simp

section \<open>Serial configurations\<close>

text \<open>\<^verbatim>\<open>test_SerialConfiguration.cpp\<close>, and \<^verbatim>\<open>parseSerialConfiguration\<close> in \<^verbatim>\<open>test_Driver.cpp\<close>.\<close>

definition with_options :: "(string \<times> string) list \<Rightarrow> exn + ByteSize \<times> ParityChecking \<times> StopBits" where
  "with_options os = map_sum id (\<lambda>c. (byte_size c, parity c, stop_bits c)) (fromURI (URI_init [] [] 0 (map_of os)))"

definition from_text :: "string \<Rightarrow> exn + ByteSize \<times> ParityChecking \<times> StopBits" where
  "from_text s = map_sum id (\<lambda>c. (byte_size c, parity c, stop_bits c)) (parseSerialConfiguration s)"

lemma serial_test_cases:
  "with_options [(''byte_size'', ''5'')] = Inr (BITS_5, PARITY_NONE, STOP_BITS_ONE)"
  "with_options [] = Inr (BITS_8, PARITY_NONE, STOP_BITS_ONE)"
  "with_options [(''byte_size'', ''4'')] = Inl InvalidArgument"
  "with_options [(''stop_bits'', ''1'')] = Inr (BITS_8, PARITY_NONE, STOP_BITS_ONE)"
  "with_options [(''stop_bits'', ''2'')] = Inr (BITS_8, PARITY_NONE, STOP_BITS_TWO)"
  "with_options [(''stop_bits'', ''0'')] = Inl InvalidArgument"
  "with_options [(''parity'', ''none'')] = Inr (BITS_8, PARITY_NONE, STOP_BITS_ONE)"
  "with_options [(''parity'', ''even'')] = Inr (BITS_8, PARITY_EVEN, STOP_BITS_ONE)"
  "with_options [(''parity'', ''odd'')] = Inr (BITS_8, PARITY_ODD, STOP_BITS_ONE)"
  "with_options [(''parity'', ''something'')] = Inl InvalidArgument"
  "from_text ''8N1'' = Inr (BITS_8, PARITY_NONE, STOP_BITS_ONE)"
  "from_text ''5e2'' = Inr (BITS_5, PARITY_EVEN, STOP_BITS_TWO)"
  "from_text ''7o1'' = Inr (BITS_7, PARITY_ODD, STOP_BITS_ONE)"
  "\<forall>s \<in> {''9N1'', ''4N1'', ''8V1'', ''8N3''}. from_text s = Inl InvalidArgument"
  by code_simp+

end
