(* ===== verification/Spec2Isabelle.thy ===== *)
theory Spec2Isabelle
  imports Driver_Reading Driver_Raw Driver_Writing Stream_Properties Open_Correct Fixture_Model Com_Format Bus_Model Tcp_Model
    Driver_Life System_Driver Forwarding Cat_Model Forwarder_Tool Bus_Locking Repository_Tests
begin

text \<open>
  A verification library for \<^verbatim>\<open>iodrivers_base\<close>, a C++ library for drivers that talk to a device
  over a byte stream: a serial port, a file, a TCP, UDP or Unix socket, or an in-memory test
  stream. File names below are relative to \<^verbatim>\<open>src/src/\<close>; theory names are files beside this one.

  \<^bold>\<open>The program.\<close> A \<^verbatim>\<open>Driver\<close> (\<^verbatim>\<open>Driver.cpp\<close>) owns an \<^verbatim>\<open>IOStream\<close> (\<^verbatim>\<open>IOStream.cpp\<close>,
  \<^verbatim>\<open>TestStream.cpp\<close>) that \<^verbatim>\<open>openURI\<close> or one of the \<^verbatim>\<open>open...\<close> methods installs, an internal byte
  buffer of fixed size, the statistics of \<^verbatim>\<open>Status.hpp\<close>, and a set of \<^verbatim>\<open>IOListener\<close>s
  (\<^verbatim>\<open>IOListener.cpp\<close>) that are shown all traffic. A subclass provides \<^verbatim>\<open>extractPacket\<close>: for a
  non-empty buffer, a positive result is the length of a packet at its start, a negative one a
  number of bytes to drop, zero asks for more. \<^verbatim>\<open>readPacket\<close> returns one packet, \<^verbatim>\<open>readRaw\<close> bytes,
  \<^verbatim>\<open>writePacket\<close> sends a packet; each has deadlines. \<^verbatim>\<open>Bus\<close> is a driver whose packets are found
  by parsers docked on it, \<^verbatim>\<open>TCPDriver\<close> one that serves a TCP client, \<^verbatim>\<open>forward\<close> moves data between
  two drivers; \<^verbatim>\<open>MainCat.cpp\<close> and \<^verbatim>\<open>MainForwarder.cpp\<close> are command line tools over them, and
  \<^verbatim>\<open>Fixture.hpp\<close> with its Boost and GTest contexts is the harness for tests of drivers.

  \<^bold>\<open>How the code is represented.\<close>
  \<^item> An object is a record of its data members; a method is a function that returns its result and
    the changed state. A pointer to an object is a \<open>ptr\<close>, an address in a heap.
  \<^item> An exception is an \<open>Inl\<close> of \<open>exn\<close>, returned beside the state that the throw leaves behind.
    \<open>UndefinedBehaviour\<close> is the value of an execution that C++ leaves undefined; results that
    exclude it are results about the absence of undefined behaviour.
  \<^item> Bytes are \<open>8 word\<close>. \<^verbatim>\<open>int\<close> is an integer and the places that can overflow test the range
    (\<^verbatim>\<open>remaining_timeout * 1000\<close>, the custom baud rate); \<^verbatim>\<open>unsigned int\<close> of the timeout and the
    terminal flags are words.
  \<^item> A loop that waits for a device may run for ever, so it is a \<^verbatim>\<open>partial_function (option)\<close>:
    \<open>None\<close> is "does not return". No definition uses fuel. That a call returns is a theorem of its
    own (C2, C8, C12, C16, C18), under the named hypotheses that the source is finite and that the clock
    moves, or that the sink does not refuse bytes for ever.
  \<^item> \<^verbatim>\<open>extractPacket\<close>, the conversions of \<^verbatim>\<open>base::Time\<close>, the clock and the system calls are not in the
    repository: they are arguments (\<open>ext\<close>, \<open>env\<close>, records of system calls), and what is
    assumed of them are the laws of the locales below. \<open>'t\<close> is the type of a \<^verbatim>\<open>base::Time\<close>, a
    linearly ordered group.
  \<^item> Environments answer by changing a world \<open>'w\<close>. A run of calls is a list of events
    (\<open>io_run\<close>), so that claims about what was read, written, shown to listeners or waited for
    are claims about that list.

  \<^bold>\<open>The theories.\<close>

  Foundations:
  \<^item> \<^verbatim>\<open>Iodrivers_Prelude\<close>: bytes, addresses with their order, exceptions (\<^verbatim>\<open>Exceptions.hpp\<close>),
    \<^verbatim>\<open>memcpy\<close> and \<^verbatim>\<open>memmove\<close> with their bounds, and the lemmas all components share.
  \<^item> \<^verbatim>\<open>Stream_Interface\<close>: the virtual calls of \<^verbatim>\<open>IOStream.hpp\<close> and \<^verbatim>\<open>IOListener.hpp\<close> as a record
    \<open>env\<close>, events, \<open>io_run\<close>, and the contracts \<open>io_contract\<close>, \<open>finite_source\<close>, \<open>draining_source\<close>, \<open>moving_clock\<close>,
    \<open>live_env\<close>.
  \<^item> \<^verbatim>\<open>Cxx_String\<close>: the searches, \<open>substr\<close> and \<open>stoi\<close> of \<^verbatim>\<open>std::string\<close>.

  The driver, \<^verbatim>\<open>Driver.hpp\<close> and \<^verbatim>\<open>Driver.cpp\<close>:
  \<^item> \<^verbatim>\<open>Driver_State\<close>: the data members, \<^verbatim>\<open>Status\<close>, constructor, accessors, listeners, and the
    invariant \<open>driver_wf\<close> of the internal buffer.
  \<^item> \<^verbatim>\<open>Packet_Extraction\<close>: \<^verbatim>\<open>findPacket\<close>, \<^verbatim>\<open>doPacketExtraction\<close>, \<^verbatim>\<open>pullBytesFromInternal\<close>, \<^verbatim>\<open>hasPacket\<close>.
    \<^verbatim>\<open>Packet_Spec\<close> defines what a queue of bytes means, its decomposition into dropped bytes and
    packets, and \<^verbatim>\<open>Packet_Queue\<close> proves that the extraction computes it.
  \<^item> \<^verbatim>\<open>Framing\<close>: the abstract machine a reading driver implements (\<open>feed\<close>: receive, drop, emit).
  \<^item> \<^verbatim>\<open>Driver_Read\<close>: \<^verbatim>\<open>readPacketInternal\<close> and the overloads of \<^verbatim>\<open>readPacket\<close> and \<^verbatim>\<open>readRaw\<close>.
    \<^verbatim>\<open>Driver_Read_Correct\<close> and \<^verbatim>\<open>Read_Packet_Correct\<close> prove that every call simulates the framing
    machine, \<^verbatim>\<open>Read_Session\<close> does so for several calls in a row, \<^verbatim>\<open>Read_Termination\<close> that they
    return, \<^verbatim>\<open>Read_Raw_Correct\<close> does all of this for \<^verbatim>\<open>readRaw\<close>; \<^verbatim>\<open>Driver_Reading\<close> and
    \<^verbatim>\<open>Driver_Raw\<close> hold the properties C1 to C6, C11 and C12.
  \<^item> \<^verbatim>\<open>Timeout_Model\<close> (\<^verbatim>\<open>Timeout.cpp\<close>), \<^verbatim>\<open>Driver_Write\<close> (\<^verbatim>\<open>writePacket\<close>) and their properties C7 to C10
    in \<^verbatim>\<open>Driver_Writing\<close>.
  \<^item> \<^verbatim>\<open>Driver_Life\<close>: the step relation of all public operations of one driver object, and the type
    invariant of its reachable states, C13.
  \<^item> \<^verbatim>\<open>Com_Format\<close>: \<^verbatim>\<open>printable_com\<close> and \<^verbatim>\<open>binary_com\<close>, C37.

  Streams:
  \<^item> \<^verbatim>\<open>Os_Interface\<close>: the system calls under a stream as a record, with the contracts \<open>posix\<close> and
    \<open>live_posix\<close>. \<^verbatim>\<open>Fd_Stream\<close>: \<^verbatim>\<open>FDStream\<close>, \<^verbatim>\<open>SocketStream\<close>. \<^verbatim>\<open>Udp_Stream\<close>: \<^verbatim>\<open>UDPServerStream\<close>,
    \<^verbatim>\<open>UnixDatagramStream\<close>. \<^verbatim>\<open>Stream_Objects\<close>: \<^verbatim>\<open>UnixServerStream\<close>, the dispatch of the virtual calls
    over a heap of stream objects, and the \<open>sublocale\<close> that gives a driver its environment from
    any operating system that keeps \<open>posix\<close>. \<^verbatim>\<open>Pipe_Os\<close>: such a system, built of pipes.
    \<^verbatim>\<open>Stream_Properties\<close>: C17 and C20 to C23. \<^verbatim>\<open>Stream_Errors\<close>: which exceptions the reading
    calls throw. \<^verbatim>\<open>Stream_Progress\<close>: a moving clock and a finite supply of bytes under the streams
    (\<open>draining_posix\<close>) are a moving clock and a draining source under the driver; \<^verbatim>\<open>System_Driver\<close>
    concludes that \<^verbatim>\<open>readPacket\<close> returns on every stream, C18.
  \<^item> \<^verbatim>\<open>Test_Stream\<close>: \<^verbatim>\<open>TestStream.cpp\<close> and \<^verbatim>\<open>BufferListener\<close>. \<^verbatim>\<open>Test_World\<close>: a world of test streams
    and listeners, where the contracts of \<^verbatim>\<open>Stream_Interface\<close> are interpreted. \<^verbatim>\<open>Extractors\<close>: the
    \<^verbatim>\<open>extractPacket\<close> methods of the repository, where \<open>packet_extractor\<close> and
    \<open>stable_extractor\<close> are. \<^verbatim>\<open>Fixture_Model\<close>: \<^verbatim>\<open>Fixture.hpp\<close> and the mock contexts, C35 and C36.

  Opening:
  \<^item> \<^verbatim>\<open>Uri_Model\<close>: \<^verbatim>\<open>URI.cpp\<close>, C24 and C25. \<^verbatim>\<open>Serial_Model\<close>: \<^verbatim>\<open>SerialConfiguration.cpp\<close> and the serial
    port functions of \<^verbatim>\<open>Driver.cpp\<close>; \<^verbatim>\<open>Serial_Properties\<close>: C26 to C29.
  \<^item> \<^verbatim>\<open>Setup_Os\<close>: the system calls that open something, with the contract \<open>fd_table\<close>;
    \<^verbatim>\<open>Driver_Open\<close>: \<^verbatim>\<open>openURI\<close> and every opener; \<^verbatim>\<open>Desk_Os\<close>: a small system for \<open>fd_table\<close>;
    \<^verbatim>\<open>Open_Uri\<close> and \<^verbatim>\<open>Open_Correct\<close>: C30 to C34.

  Programs over drivers:
  \<^item> \<^verbatim>\<open>Bus_Model\<close> (\<^verbatim>\<open>Bus.cpp\<close>), C38, with the contract of C1 for reads through a bus.
    \<^verbatim>\<open>Tcp_Model\<close> (\<^verbatim>\<open>TCPDriver.cpp\<close>), C39.
  \<^item> \<^verbatim>\<open>Forward_Model\<close> (\<^verbatim>\<open>Forward.cpp\<close>) with the locales \<open>relay\<close>, what a way of reading must give,
    and \<open>two_relays\<close>; \<^verbatim>\<open>Forwarding\<close> shows by \<open>sublocale\<close> that \<^verbatim>\<open>readRaw\<close> and \<^verbatim>\<open>readPacket\<close>
    are relays and states C14 to C16.
  \<^item> \<^verbatim>\<open>Monitor\<close>: threads that call methods of one object under a mutex, their statements
    interleaved, with the locale \<open>recursive_mutex\<close>. \<^verbatim>\<open>Bus_Locking\<close>: the methods of \<^verbatim>\<open>Bus\<close>
    statement by statement, C19.
  \<^item> \<^verbatim>\<open>Cat_Model\<close> (\<^verbatim>\<open>MainCat.cpp\<close>), C40, and \<^verbatim>\<open>Forwarder_Tool\<close> (\<^verbatim>\<open>MainForwarder.cpp\<close>).
  \<^item> \<^verbatim>\<open>Repository_Tests\<close>: test cases of \<^verbatim>\<open>src/test/\<close> as sequences of calls with what they require,
    run on the model by the kernel: packet extraction and raw reading on a pipe, the test stream
    and its mock mode, URIs, serial configurations.

  \<^bold>\<open>The contracts.\<close> Each is proved of the model's own definitions where they are provided.
  \<^item> \<open>io_contract\<close>: a read stores at most the bytes asked for and a write accepts at most what it is
    handed, which no loop of \<^verbatim>\<open>Driver\<close> checks. Given by every stream class on every \<open>posix\<close> system (C17) and by the
    test world. \<open>finite_source\<close> adds that it delivers finitely many bytes (\<open>draining_source\<close>: some
    streams do), \<open>moving_clock\<close> that time passes, \<open>live_env\<close> both; \<open>accepting_sink\<close> that it does not refuse bytes for ever.
  \<^item> \<open>packet_extractor\<close>: a verdict lies within the buffer it was given. \<open>stable_extractor\<close>: it is not
    changed by bytes that come later. \<^verbatim>\<open>Driver\<close> relies on the first
    and tests only half of it; the second is needed where what is returned must not depend on how
    the bytes arrive. Each is interpreted on the classes of the repository and of its tests that
    keep it (\<open>WholeBuffer_extractPacket\<close> keeps only the first).
  \<^item> \<open>driver_env\<close>, \<open>finite_driver\<close>, \<open>live_driver\<close>, \<open>stable_driver\<close>: a stream and an extractor
    together; the reading lemmas are proved in them once.
  \<^item> \<open>posix\<close>, \<open>live_posix\<close>, \<open>draining_posix\<close>, \<open>fd_table\<close>: documented behaviour of the system calls (no
    call transfers more than it was asked to, the clock moves, what is received is no longer
    there to be received, which descriptors are open). \<open>os_measure\<close>: a quantity that no call raises. \<open>system_stream\<close>: what
    the reading calls of the streams over them can throw.
  \<^item> \<open>relay\<close>, \<open>two_relays\<close>, \<open>total_relay\<close>, \<open>total_relays\<close>, \<open>hang_up\<close>: what \<^verbatim>\<open>forward\<close> needs of the way
    it reads, and of a side that ends.
  \<^item> \<open>recursive_mutex\<close>: one thread at a time holds it, as often as it likes. It is an argument of
    the model (Boost's mutex is not in the repository); a counting mutex is the instance.

  \<^bold>\<open>What the groups of properties show.\<close>
  \<^item> Reading (C1 to C6): no byte is lost, reordered or invented between the stream and the packets
    returned; only what the extractor rejects is dropped; a \<^verbatim>\<open>TimeoutError\<close> is honest; any number of
    calls reassembles the packets of the byte stream, however it arrives in pieces.
  \<^item> Writing, raw reading and timeouts (C7 to C12): what was sent is a prefix of the packet and all
    of it on return, listeners see exactly it, waits stay within the deadline and the \<^verbatim>\<open>int\<close> range.
  \<^item> Life of a driver and forwarding (C13 to C16): the type invariant of every reachable state;
    forwarding as a lossless two-way pipe that ends when a side ends.
  \<^item> Threads on a bus (C19): every interleaving of its methods has the effect and the results of the
    same calls one after the other.
  \<^item> Streams (C17, C18, C20 to C23), URIs and serial ports (C24 to C29), opening (C30 to C34), test harness,
    printing, bus, server and tool (C35 to C40).

  Where the code does not do what it means to, or what its documentation says, a lemma states what it
  does, for instance \<open>udp_bidirectional_leaks\<close>, \<open>UDP_write_EAGAIN_throws\<close>, \<open>UDP_empty_datagram_is_eof\<close>,
  \<open>writePacket_long_timeout_overflows\<close>, \<open>setSerialBaudrate_zero\<close>, \<open>full_buffer_reports_eof\<close>,
  \<open>bus_rejected_byte_is_packet\<close>, \<open>GTestMockContext_never_reports\<close>, \<open>forward_ignores_timeout2\<close> and
  \<open>cat_without_arguments\<close>; the properties carry the conditions under which these do not occur.

  \<^bold>\<open>Not modelled.\<close>
  \<^item> The texts of error messages, log and usage output, and \<^verbatim>\<open>errno\<close> beyond the value thrown.
  \<^item> The kernel, the name resolver, \<^verbatim>\<open>base::Time\<close>, Boost and GTest: arguments and hypotheses.
  \<^item> What the callback \<^verbatim>\<open>packedReady\<close> of \<^verbatim>\<open>Bus\<close> does: it is user code. The calls that one extraction
    makes are part of its result, they are not collected over a whole read, and the calls that it
    makes on the bus are in \<^verbatim>\<open>Monitor\<close> (\<open>callback_enters\<close>) but not in \<^verbatim>\<open>Bus_Locking\<close>.
  \<^item> The lifetime of C++ objects other than the stream of a driver, copying of drivers, and
    \<^verbatim>\<open>QuitGuard\<close> of \<^verbatim>\<open>Forward.cpp\<close>, which nothing uses.
  \<^item> Branches for other platforms (\<^verbatim>\<open>__APPLE__\<close>, a missing \<^verbatim>\<open>linux/serial.h\<close>), the macros of the
    fixtures, deprecated include wrappers and the build description.
  \<^item> The test cases over UDP and Unix sockets, on measured time and over two threads; the one for
    the mode that returns the last packet is covered by C6 instead.
\<close>

end
